(* ===== verification/TB_Prelude.thy ===== *)
theory TB_Prelude
  imports Complex_Main "HOL-Library.Word" "HOL-Library.Signed_Division"
begin

text \<open>
  Shared ground of the TestBed development: the C integer conversions the program
  performs, the result type of a C function that may also end its thread, its process
  or run into undefined behaviour, the sequencing combinators, the loop combinator with
  its fuel, and the weakest-precondition equations (collected in \<open>wp_rules\<close>) that the
  component theories use to prove their functions correct.
\<close>

unbundle bit_operations_syntax

named_theorems wp_rules \<open>weakest precondition equations of the C statement combinators\<close>
named_theorems conv_rules \<open>C integer conversions that do nothing on values in range\<close>


section \<open>C integers\<close>

text \<open>
  \<open>int\<close> is 32 bits wide, \<open>long\<close>, \<open>long long\<close> and \<open>size_t\<close> are 64 bits wide (the
  program is built by gcc for Linux). Values are mathematical integers; a conversion to
  a narrower type is written out as the two's complement truncation gcc performs, and a
  signed operation whose result may leave its type is guarded by \<open>in_int\<close>.
\<close>

definition in_int :: "int \<Rightarrow> bool" where
  "in_int x \<longleftrightarrow> - 2147483648 \<le> x \<and> x \<le> 2147483647"

definition to_int :: "int \<Rightarrow> int" where
  "to_int x = signed_take_bit 31 x"

definition to_size :: "int \<Rightarrow> int" where
  "to_size x = take_bit 64 x"

lemma to_int_id [conv_rules]: "in_int x \<Longrightarrow> to_int x = x"
  by (simp add: to_int_def in_int_def signed_take_bit_int_eq_self)

lemma to_int_in_int [simp]: "in_int (to_int x)"
  using signed_take_bit_int_greater_eq_minus_exp [of 31 x] signed_take_bit_int_less_exp [of 31 x]
  by (simp add: to_int_def in_int_def)

lemma to_int_eq_mod: "to_int x = (x + 2147483648) mod 4294967296 - 2147483648"
  by (simp add: to_int_def signed_take_bit_eq_take_bit_shift take_bit_eq_mod)

lemma to_int_diff: "to_int (x - to_int y) = to_int (x - y)"
  by (simp add: to_int_eq_mod mod_simps algebra_simps)

lemma to_size_id [conv_rules]: "0 \<le> x \<Longrightarrow> x < 18446744073709551616 \<Longrightarrow> to_size x = x"
  by (simp add: to_size_def take_bit_eq_mod)

lemma to_size_nonneg [simp]: "0 \<le> to_size x"
  by (simp add: to_size_def)


section \<open>Results of C functions\<close>

text \<open>
  A C function runs in a state and either returns a value or ends in one of the ways C
  and POSIX give it. \<open>Undefined\<close> carries what the undefined behaviour is; \<open>Blocked\<close> is a
  thread that waits for a lock that is held, or for a signal, so that only another thread can
  let it go on; \<open>Out_Of_Fuel\<close> is a loop of the model that
  used up its bound, and is excluded by every theorem that says a function returns.
\<close>

datatype ub = Null_Deref | Use_After_Free | Null_Call | Uninitialised | Buffer_Overflow
  | Out_Of_Bounds | Signed_Overflow | Bad_Free

datatype halt = Thread_Exit | Process_Exit int | Assert_Fail | Undefined ub | Blocked | Out_Of_Fuel

datatype ('s, 'a) result = Ok 'a 's | Halt halt 's

type_synonym ('s, 'a) prog = "'s \<Rightarrow> ('s, 'a) result"

definition cret :: "'a \<Rightarrow> ('s, 'a) prog" where
  "cret x = (\<lambda>s. Ok x s)"

definition cbind :: "('s, 'a) prog \<Rightarrow> ('a \<Rightarrow> ('s, 'b) prog) \<Rightarrow> ('s, 'b) prog" where
  "cbind m f = (\<lambda>s. case m s of Ok x s' \<Rightarrow> f x s' | Halt h s' \<Rightarrow> Halt h s')"

definition chalt :: "halt \<Rightarrow> ('s, 'a) prog" where
  "chalt h = (\<lambda>s. Halt h s)"

definition cget :: "('s \<Rightarrow> 'a) \<Rightarrow> ('s, 'a) prog" where
  "cget f = (\<lambda>s. Ok (f s) s)"

definition cmod :: "('s \<Rightarrow> 's) \<Rightarrow> ('s, unit) prog" where
  "cmod f = (\<lambda>s. Ok () (f s))"

definition cwhen :: "bool \<Rightarrow> ('s, unit) prog \<Rightarrow> ('s, unit) prog" where
  "cwhen b m = (if b then m else cret ())"

text \<open>A block of statements, and a block whose last statement yields the value.\<close>

fun cseq :: "('s, unit) prog list \<Rightarrow> ('s, unit) prog" where
  "cseq [] = cret ()"
| "cseq (m # ms) = cbind m (\<lambda>_. cseq ms)"

definition cdo :: "('s, unit) prog list \<Rightarrow> ('s, 'a) prog \<Rightarrow> ('s, 'a) prog" where
  "cdo ms m = cbind (cseq ms) (\<lambda>_. m)"

text \<open>A call whose value the C code drops.\<close>

definition cvoid :: "('s, 'a) prog \<Rightarrow> ('s, unit) prog" where
  "cvoid m = cbind m (\<lambda>_. cret ())"

definition cassert :: "bool \<Rightarrow> ('s, unit) prog" where
  "cassert b = (if b then cret () else chalt Assert_Fail)"

definition cderef :: "ub \<Rightarrow> 'a option \<Rightarrow> ('s, 'a) prog" where
  "cderef u p = (case p of None \<Rightarrow> chalt (Undefined u) | Some x \<Rightarrow> cret x)"

text \<open>Signed arithmetic of type \<open>int\<close>: a result out of range is undefined.\<close>

definition cint :: "int \<Rightarrow> ('s, int) prog" where
  "cint x = (if in_int x then cret x else chalt (Undefined Signed_Overflow))"

text \<open>
  A loop \<open>while (c) b\<close> over local variables \<open>l\<close>. The condition is itself a program, since
  it may read state another party changes. Fuel bounds the number of iterations.
\<close>

fun cwhile :: "nat \<Rightarrow> ('l \<Rightarrow> ('s, bool) prog) \<Rightarrow> ('l \<Rightarrow> ('s, 'l) prog) \<Rightarrow> 'l \<Rightarrow> ('s, 'l) prog" where
  "cwhile n c b l =
     cbind (c l) (\<lambda>go. if go then (case n of 0 \<Rightarrow> chalt Out_Of_Fuel
                                         | Suc n' \<Rightarrow> cbind (b l) (cwhile n' c b))
                       else cret l)"

declare cwhile.simps [simp del]


section \<open>Weakest preconditions\<close>

definition wp :: "('s, 'a) prog \<Rightarrow> ('a \<Rightarrow> 's \<Rightarrow> bool) \<Rightarrow> (halt \<Rightarrow> 's \<Rightarrow> bool) \<Rightarrow> 's \<Rightarrow> bool" where
  "wp m Q R s = (case m s of Ok x s' \<Rightarrow> Q x s' | Halt h s' \<Rightarrow> R h s')"

lemma wp_cret [wp_rules]: "wp (cret x) Q R s = Q x s"
  by (simp add: wp_def cret_def)

lemma wp_chalt [wp_rules]: "wp (chalt h) Q R s = R h s"
  by (simp add: wp_def chalt_def)

lemma wp_cget [wp_rules]: "wp (cget f) Q R s = Q (f s) s"
  by (simp add: wp_def cget_def)

lemma wp_cmod [wp_rules]: "wp (cmod f) Q R s = Q () (f s)"
  by (simp add: wp_def cmod_def)

lemma wp_cbind [wp_rules]: "wp (cbind m f) Q R s = wp m (\<lambda>x. wp (f x) Q R) R s"
  by (simp add: wp_def cbind_def split: result.splits)

lemma wp_cwhen [wp_rules]: "wp (cwhen b m) Q R s = (if b then wp m Q R s else Q () s)"
  by (simp add: cwhen_def wp_cret)

lemma wp_cseq_Nil [wp_rules]: "wp (cseq []) Q R s = Q () s"
  by (simp add: wp_cret)

lemma wp_cseq_Cons [wp_rules]: "wp (cseq (m # ms)) Q R s = wp m (\<lambda>_. wp (cseq ms) Q R) R s"
  by (simp add: wp_cbind)

lemma wp_cdo [wp_rules]: "wp (cdo ms m) Q R s = wp (cseq ms) (\<lambda>_. wp m Q R) R s"
  by (simp add: cdo_def wp_cbind)

lemma wp_cvoid [wp_rules]: "wp (cvoid m) Q R s = wp m (\<lambda>_. Q ()) R s"
  by (simp add: cvoid_def cbind_def cret_def wp_def split: result.splits)

lemma wp_cassert [wp_rules]: "wp (cassert b) Q R s = (if b then Q () s else R Assert_Fail s)"
  by (simp add: cassert_def wp_cret wp_chalt)

lemma wp_cderef [wp_rules]:
  "wp (cderef u p) Q R s = (case p of None \<Rightarrow> R (Undefined u) s | Some x \<Rightarrow> Q x s)"
  by (simp add: cderef_def wp_cret wp_chalt split: option.splits)

lemma wp_cint [wp_rules]:
  "wp (cint x) Q R s = (if in_int x then Q x s else R (Undefined Signed_Overflow) s)"
  by (simp add: cint_def wp_cret wp_chalt)

lemma wp_if [wp_rules]: "wp (if b then m else m') Q R s = (if b then wp m Q R s else wp m' Q R s)"
  by simp

text \<open>\<open>cseq\<close> is unfolded by its \<open>wp\<close> equations only, so that a block stays a block.\<close>

declare cseq.simps [simp del]

lemma wp_mono:
  "wp m Q R s \<Longrightarrow> (\<And>x s'. Q x s' \<Longrightarrow> Q' x s') \<Longrightarrow> (\<And>h s'. R h s' \<Longrightarrow> R' h s') \<Longrightarrow> wp m Q' R' s"
  by (auto simp: wp_def split: result.splits)

text \<open>A block, statement by statement, with what holds in between.\<close>

lemma wp_step:
  "wp m (\<lambda>_. I) R s \<Longrightarrow> (\<And>s'. I s' \<Longrightarrow> wp (cseq ms) Q R s') \<Longrightarrow> wp (cseq (m # ms)) Q R s"
  by (auto simp: wp_cseq_Cons elim!: wp_mono)

lemma wp_conjI: "wp m Q R s \<Longrightarrow> wp m Q' R' s \<Longrightarrow> wp m (\<lambda>x t. Q x t \<and> Q' x t) (\<lambda>h t. R h t \<and> R' h t) s"
  by (auto simp: wp_def split: result.splits)

lemma wp_returns: "wp m Q (\<lambda>_ _. False) s \<longleftrightarrow> (\<exists>x s'. m s = Ok x s' \<and> Q x s')"
  by (auto simp: wp_def split: result.splits)

lemma wp_halts: "wp m (\<lambda>_ _. False) R s \<longleftrightarrow> (\<exists>h s'. m s = Halt h s' \<and> R h s')"
  by (auto simp: wp_def split: result.splits)

text \<open>
  The loop rule, for total correctness: the invariant holds at the start, condition and
  body keep it, the body decreases the measure, and the fuel covers the measure.
\<close>

lemma wp_cwhile:
  assumes start: "I l s" and fuel: "\<mu> l s \<le> n"
    and cond: "\<And>l s. I l s \<Longrightarrow>
      wp (c l) (\<lambda>go s'. if go then I l s' \<and> \<mu> l s' \<le> \<mu> l s \<and> 0 < \<mu> l s' \<and>
                            wp (b l) (\<lambda>l'' s''. I l'' s'' \<and> \<mu> l'' s'' < \<mu> l s') R s'
                        else Q l s') R s"
  shows "wp (cwhile n c b l) Q R s"
  using start fuel
proof (induction n arbitrary: l s)
  case 0
  then show ?case
    using cond [of l s]
    by (subst cwhile.simps) (auto simp: wp_rules elim!: wp_mono split: if_splits)
next
  case (Suc n)
  have step: "wp (cwhile n c b l'') Q R s''"
    if "I l'' s''" "\<mu> l'' s'' < \<mu> l s'" "\<mu> l s' \<le> \<mu> l s" for l'' s' s''
    using that Suc.IH [of l'' s''] Suc.prems(2) by simp
  show ?case
    using cond [OF Suc.prems(1)]
    by (subst cwhile.simps) (auto simp: wp_rules elim!: wp_mono intro: step split: if_splits)
qed

end
