(* ===== verification/TB_Machine.thy ===== *)
theory TB_Machine
  imports TB_Prelude
begin

text \<open>
  The machine a C function of TestBed runs on. The kernel, the C library's files and
  clocks and the UDT library are not part of the repository: a call to one of them is a
  value of \<open>syscall\<close>, and the environment \<open>E\<close>, a parameter of every definition that
  makes such calls, answers it and moves the outside world \<open>'w\<close>. The machine records the
  calls with their return values, newest first, so that theorems can speak of what the
  program did to its sockets and files.
\<close>

type_synonym byte = "8 word"

datatype sockopt = SO_SNDBUF | SO_RCVBUF | SO_REUSEADDR
  | UDT_SNDBUF | UDT_RCVBUF | UDP_SNDBUF | UDP_RCVBUF | UDT_RCVSYN

text \<open>A socket address, as far as the program reads it.\<close>

record sockaddr_storage =
  ss_family :: int
  sin_port :: int
  sin_addr :: "byte \<times> byte \<times> byte \<times> byte"
  sin6_addr :: "128 word"

text \<open>The functions threads are started with.\<close>

datatype start_routine = Start_tb_server | Start_tb_client
  | Start_tb_stream_m_server_conn | Start_tb_stream_connection
  | Start_tb_udp_m_client_conn | Start_tb_udt_m_server_conn | Start_tb_udt_m_connection
  | Start_tb_utp_m_client_conn

text \<open>
  The calls. A message of several pieces is given as one list of bytes to \<open>Sendmsg\<close>, and as the
  room in all its pieces to \<open>Recvmsg\<close>. Calls of libutp come back to the program through
  callbacks; the answer lists them.
\<close>

datatype posix =
    Clock_gettime int | Gettid | Get_nprocs
  | Socket int int int | Bind int sockaddr_storage | Connect int sockaddr_storage | Listen int int | Accept int
  | Send int "byte list" | Recv int int | Sendto int "byte list" sockaddr_storage | Recvfrom int int
  | Sendmsg int "byte list" sockaddr_storage | Recvmsg int int | Ioctl_outq int
  | Close int | Shutdown int
  | Setsockopt int sockopt int | Getsockopt int sockopt | Get_tcp_info int
  | Fcntl_getfl int | Fcntl_setfl int int
  | Epoll_create | Epoll_add int int | Epoll_wait int int int
  | Getaddrinfo string string int
  | Thread_create start_routine nat | Thread_join int | Setaffinity int | Getaffinity | Usleep int
  | Sigaction_sigint

datatype stdio =
    Malloc int | Fopen string string | Fseek_end int | Fseek_set int | Fread int int
  | Fwrite int "byte list" | Fclose int | Fputs int string | Fflush int
  | Srand_time | Rand | Strftime string | Strerror int

datatype libudt =
    Udt_socket int int int | Udt_bind int sockaddr_storage | Udt_connect int sockaddr_storage | Udt_listen int int
  | Udt_accept int | Udt_send int "byte list" | Udt_recv int int | Udt_close int | Udt_cleanup
  | Udt_setsockopt int sockopt int | Udt_perfmon int | Udt_lasterror
  | Udt_epoll_create | Udt_epoll_add_usock int int int | Udt_epoll_wait int int

datatype libutp =
    Utp_create sockaddr_storage nat | Utp_setsockopt int sockopt int | Utp_setcallbacks int nat | Utp_connect int
  | Utp_is_incoming "byte list" sockaddr_storage nat | Utp_write int int | Utp_check_timeouts | Utp_close int
  | Utp_filled "byte list"

text \<open>What libutp calls back with, and what it passes; the first argument is the \<open>userdata\<close>.\<close>

datatype utp_callback =
    On_read nat int | On_write nat int | Get_rb_size nat | On_state nat int | On_error nat int | On_overhead nat
  | On_incoming nat int | On_send_to nat "byte list" sockaddr_storage

datatype syscall = Posix posix | Stdio stdio | Udt libudt | Utp libutp

text \<open>The Linux values of the constants the program names.\<close>

definition AF_INET :: int where "AF_INET = 2"
definition SOCK_STREAM :: int where "SOCK_STREAM = 1"
definition SOCK_DGRAM :: int where "SOCK_DGRAM = 2"
definition SOCK_DCCP :: int where "SOCK_DCCP = 6"
definition EAGAIN :: int where "EAGAIN = 11"
definition EOF :: int where "EOF = - 1"
definition UDT_ERROR :: int where "UDT_ERROR = - 1"
definition CLOCK_MONOTONIC :: int where "CLOCK_MONOTONIC = 1"

text \<open>What the kernel reports about a TCP connection, and libudt about a UDT one.\<close>

record tcp_info =
  tcpi_rtt :: int
  tcpi_rttvar :: int
  tcpi_snd_cwnd :: int
  tcpi_lost :: int

record CPerfMon =
  msRTT :: real
  mbpsRecvRate :: real
  mbpsSendRate :: real
  pktFlowWindow :: int
  pktSndLoss :: int
  pktRcvLoss :: int

record addrinfo =
  ai_family :: int
  ai_socktype :: int
  ai_protocol :: int
  ai_addr :: sockaddr_storage

text \<open>
  The answer to a call: the return value, \<open>errno\<close>, and what the call writes through its
  out-parameters. A call uses the fields that belong to it and no other.
\<close>

record answer =
  a_rc :: int
  a_errno :: int
  a_val :: int
  a_time :: "int \<times> int"
  a_bytes :: "byte list"
  a_text :: string
  a_addr :: addrinfo
  a_peer :: sockaddr_storage
  a_tcp :: tcp_info
  a_perf :: CPerfMon
  a_events :: "int list"
  a_callbacks :: "utp_callback list"

text \<open>
  Besides answering calls the environment says whether the user pressed Ctrl-C since the
  program last looked: the signal handler runs between two statements of the program, and
  the model runs it where the program reads the variable the handler writes.
\<close>

record 'w env =
  sys :: "syscall \<Rightarrow> 'w \<Rightarrow> answer \<times> 'w"
  sigint :: "'w \<Rightarrow> bool \<times> 'w"

record 'w machine =
  world :: 'w
  trace :: "(syscall \<times> int) list"

definition do_sys :: "('w, 'e) env_scheme \<Rightarrow> syscall \<Rightarrow> (('w, 'z) machine_scheme, answer) prog" where
  "do_sys E c = (\<lambda>s. case sys E c (world s) of (a, w) \<Rightarrow>
     Ok a (s\<lparr>world := w, trace := (c, a_rc a) # trace s\<rparr>))"

definition poll_sigint :: "('w, 'e) env_scheme \<Rightarrow> (('w, 'z) machine_scheme, bool) prog" where
  "poll_sigint E = (\<lambda>s. case sigint E (world s) of (b, w) \<Rightarrow> Ok b (s\<lparr>world := w\<rparr>))"

lemma wp_do_sys [wp_rules]:
  "wp (do_sys E c) Q R s = (case sys E c (world s) of (a, w) \<Rightarrow>
     Q a (s\<lparr>world := w, trace := (c, a_rc a) # trace s\<rparr>))"
  by (simp add: wp_def do_sys_def split: prod.splits)

lemma wp_poll_sigint [wp_rules]:
  "wp (poll_sigint E) Q R s = (case sigint E (world s) of (b, w) \<Rightarrow> Q b (s\<lparr>world := w\<rparr>))"
  by (simp add: wp_def poll_sigint_def split: prod.splits)

text \<open>
  A buffer of \<open>n\<close> bytes from \<open>malloc\<close>: none when the allocator refuses, otherwise exactly
  \<open>n\<close> bytes of whatever the memory held.
\<close>

definition cmalloc :: "('w, 'e) env_scheme \<Rightarrow> int \<Rightarrow> (('w, 'z) machine_scheme, byte list option) prog" where
  "cmalloc E n = cbind (do_sys E (Stdio (Malloc n))) (\<lambda>a.
     cret (if a_rc a = 0 then None
           else Some (take (nat n) (a_bytes a @ replicate (nat n) 0))))"

lemma wp_cmalloc [wp_rules]:
  "wp (cmalloc E n) Q R s = (case sys E (Stdio (Malloc n)) (world s) of (a, w) \<Rightarrow>
     Q (if a_rc a = 0 then None else Some (take (nat n) (a_bytes a @ replicate (nat n) 0)))
       (s\<lparr>world := w, trace := (Stdio (Malloc n), a_rc a) # trace s\<rparr>))"
  by (simp add: cmalloc_def wp_rules split: prod.splits)

text \<open>Overwriting the start of a buffer, as a receive call does.\<close>

definition overwrite :: "'a list \<Rightarrow> 'a list \<Rightarrow> 'a list" where
  "overwrite bs buf = take (length buf) bs @ drop (length bs) buf"

lemma length_overwrite [simp]: "length (overwrite bs buf) = length buf"
  by (simp add: overwrite_def)


section \<open>Texts\<close>

text \<open>\<open>%d\<close> of the printf family, and \<open>snprintf\<close> into a buffer of \<open>n\<close> chars.\<close>

fun show_nat :: "nat \<Rightarrow> string" where
  "show_nat n = (if n < 10 then [char_of (48 + n)] else show_nat (n div 10) @ [char_of (48 + n mod 10)])"

declare show_nat.simps [simp del]

definition show_int :: "int \<Rightarrow> string" where
  "show_int i = (if i < 0 then CHR ''-'' # show_nat (nat (- i)) else show_nat (nat i))"

definition snprintf :: "nat \<Rightarrow> string \<Rightarrow> string" where
  "snprintf n txt = take (n - 1) txt"

lemma length_snprintf [simp]: "length (snprintf n txt) = min (length txt) (n - 1)"
  by (simp add: snprintf_def)

lemma snprintf_fits: "length txt < n \<Longrightarrow> snprintf n txt = txt"
  by (simp add: snprintf_def)

lemma snprintf_cut: "n - 1 \<le> length a \<Longrightarrow> snprintf n (a @ b) = take (n - 1) a"
  by (simp add: snprintf_def)

lemma length_show_nat: "0 < k \<Longrightarrow> length (show_nat n) \<le> k \<longleftrightarrow> n < 10 ^ k"
proof (induction n arbitrary: k rule: show_nat.induct)
  case (1 n)
  show ?case
  proof (cases "n < 10")
    case True
    have "(10::nat) ^ 1 \<le> 10 ^ k" using 1(2) by (intro power_increasing) auto
    with True 1(2) show ?thesis by (subst show_nat.simps) simp
  next
    case False
    show ?thesis
    proof (cases "k = 1")
      case True
      have "0 < length (show_nat (n div 10))" by (subst show_nat.simps) simp
      with True False show ?thesis by (subst show_nat.simps) simp
    next
      case k: False
      then obtain j where j: "k = Suc j" "0 < j" using 1(2) by (cases k) auto
      have "length (show_nat n) \<le> k \<longleftrightarrow> length (show_nat (n div 10)) \<le> j"
        using False j by (subst show_nat.simps) simp
      also have "\<dots> \<longleftrightarrow> n div 10 < 10 ^ j" using 1(1) [OF False j(2)] .
      also have "\<dots> \<longleftrightarrow> n < 10 ^ k" using j by (simp add: less_mult_imp_div_less div_less_iff_less_mult mult.commute)
      finally show ?thesis .
    qed
  qed
qed

end
