(* ===== verification/TB_Common.thy ===== *)
theory TB_Common
  imports TB_Machine
begin

text \<open>
  The common functions (\<open>src/src/tb_common.c\<close>): the timer every transfer is measured with,
  the texts of addresses, and the creation and loading of the test files. The pointers
  \<open>start\<close> and \<open>finish\<close> of the timer are allocated with it and freed with it, so the
  record holds what they point to. Progress messages on standard output are not modelled.
\<close>

section \<open>The timer\<close>

type_synonym timespec = "int \<times> int"

record tb_time_t =
  t_clk_id :: int
  t_start :: timespec
  t_finish :: timespec
  t_started :: int
  t_stopped :: int
  t_n_sec :: int

text \<open>
  \<open>malloc\<close> hands out memory with arbitrary contents \<open>m\<close>; the function sets three fields and
  leaves the rest as it was, \<open>stopped\<close> included.
\<close>

definition tb_create_time :: "tb_time_t \<Rightarrow> int \<Rightarrow> tb_time_t" where
  "tb_create_time m clk_id = m\<lparr>t_clk_id := clk_id, t_n_sec := 0, t_started := 0\<rparr>"

definition tb_start_time :: "('w, 'e) env_scheme \<Rightarrow> tb_time_t \<Rightarrow> (('w, 'z) machine_scheme, tb_time_t) prog" where
  "tb_start_time E t = cbind (do_sys E (Posix (Clock_gettime (t_clk_id t)))) (\<lambda>a.
     cret (t\<lparr>t_start := a_time a, t_started := 1\<rparr>))"

definition tb_calculate_time :: "tb_time_t \<Rightarrow> tb_time_t" where
  "tb_calculate_time t =
     (let t1 = t\<lparr>t_n_sec := fst (t_finish t) * 1000000000 + snd (t_finish t)\<rparr>
      in t1\<lparr>t_n_sec := t_n_sec t1 - (fst (t_start t1) * 1000000000 + snd (t_start t1))\<rparr>)"

definition tb_finish_time :: "('w, 'e) env_scheme \<Rightarrow> tb_time_t \<Rightarrow> (('w, 'z) machine_scheme, tb_time_t) prog" where
  "tb_finish_time E t = cbind (do_sys E (Posix (Clock_gettime (t_clk_id t)))) (\<lambda>a.
     cret ((tb_calculate_time (t\<lparr>t_finish := a_time a\<rparr>))\<lparr>t_stopped := 1\<rparr>))"

text \<open>The instant a reading of the clock stands for, in nanoseconds.\<close>

definition nanos :: "timespec \<Rightarrow> int" where
  "nanos ts = fst ts * 1000000000 + snd ts"

lemma tb_calculate_time_n_sec [simp]:
  "t_n_sec (tb_calculate_time t) = nanos (t_finish t) - nanos (t_start t)"
  by (simp add: tb_calculate_time_def nanos_def Let_def)

lemma tb_calculate_time_frame [simp]:
  "t_clk_id (tb_calculate_time t) = t_clk_id t"
  "t_start (tb_calculate_time t) = t_start t"
  "t_finish (tb_calculate_time t) = t_finish t"
  "t_started (tb_calculate_time t) = t_started t"
  "t_stopped (tb_calculate_time t) = t_stopped t"
  by (simp_all add: tb_calculate_time_def Let_def)

lemma wp_tb_start_time [wp_rules]:
  "wp (tb_start_time E t) Q R s = (case sys E (Posix (Clock_gettime (t_clk_id t))) (world s) of (a, w) \<Rightarrow>
     Q (t\<lparr>t_start := a_time a, t_started := 1\<rparr>)
       (s\<lparr>world := w, trace := (Posix (Clock_gettime (t_clk_id t)), a_rc a) # trace s\<rparr>))"
  by (simp add: tb_start_time_def wp_rules split: prod.splits)

lemma wp_tb_finish_time [wp_rules]:
  "wp (tb_finish_time E t) Q R s = (case sys E (Posix (Clock_gettime (t_clk_id t))) (world s) of (a, w) \<Rightarrow>
     Q ((tb_calculate_time (t\<lparr>t_finish := a_time a\<rparr>))\<lparr>t_stopped := 1\<rparr>)
       (s\<lparr>world := w, trace := (Posix (Clock_gettime (t_clk_id t)), a_rc a) # trace s\<rparr>))"
  by (simp add: tb_finish_time_def wp_rules split: prod.splits)

text \<open>
  A clock reading is normalised: its nanoseconds are below a second. The seconds a
  \<open>long long\<close> count of nanoseconds can hold bound the readings the timer may subtract.
\<close>

definition timespec_ok :: "timespec \<Rightarrow> bool" where
  "timespec_ok ts \<longleftrightarrow> 0 \<le> fst ts \<and> fst ts < 9223372036 \<and> 0 \<le> snd ts \<and> snd ts < 1000000000"

lemma nanos_bounds: "timespec_ok ts \<Longrightarrow> 0 \<le> nanos ts \<and> nanos ts < 9223372036000000000"
  by (auto simp: timespec_ok_def nanos_def)


section \<open>Texts of addresses\<close>

text \<open>
  \<open>inet_ntop\<close> prints an IPv4 address as four decimal numbers; its text for an IPv6 address
  is a parameter. \<open>INET_ADDRSTRLEN\<close> is 16 and \<open>INET6_ADDRSTRLEN\<close> 46, the terminator included.
\<close>

definition inet_ntop4 :: "byte \<times> byte \<times> byte \<times> byte \<Rightarrow> string" where
  "inet_ntop4 q = (case q of (a, b, c, d) \<Rightarrow>
     show_nat (unat a) @ ''.'' @ show_nat (unat b) @ ''.'' @ show_nat (unat c) @ ''.'' @ show_nat (unat d))"

definition tb_get_address :: "(128 word \<Rightarrow> string) \<Rightarrow> sockaddr_storage \<Rightarrow> string" where
  "tb_get_address ntop6 store =
     (if ss_family store = AF_INET then snprintf 16 (inet_ntop4 (sin_addr store))
      else snprintf 46 (ntop6 (sin6_addr store)))"

lemma length_show_byte: "length (show_nat (unat (b :: byte))) \<le> 3"
proof -
  have "unat b < 2 ^ LENGTH(8)" by (rule unsigned_less)
  then show ?thesis by (simp add: length_show_nat)
qed


section \<open>Test files\<close>

text \<open>
  \<open>fread\<close> and \<open>fwrite\<close> return a \<open>size_t\<close>; the program compares it with \<open>EOF\<close>, which the
  comparison converts to \<open>size_t\<close>. Filling the buffer takes one call of \<open>rand\<close> per byte.
  The seconds passed to \<open>srand\<close> belong to the environment.
\<close>

fun fill_random :: "('w, 'e) env_scheme \<Rightarrow> nat \<Rightarrow> byte list \<Rightarrow> (('w, 'z) machine_scheme, byte list) prog" where
  "fill_random E 0 acc = cret (rev acc)"
| "fill_random E (Suc n) acc = cbind (do_sys E (Stdio Rand)) (\<lambda>a. fill_random E n (word_of_int (a_rc a) # acc))"

definition tb_create_random :: "('w, 'e) env_scheme \<Rightarrow> string \<Rightarrow> int \<Rightarrow> (('w, 'z) machine_scheme, byte list option) prog" where
  "tb_create_random E path sz =
     cbind (do_sys E (Stdio (Fopen path ''wb''))) (\<lambda>f.
     if a_rc f = 0 then cret None
     else cbind (cmalloc E sz) (\<lambda>r_data.
       case r_data of
         None \<Rightarrow> cret None
       | Some _ \<Rightarrow>
           cbind (do_sys E (Stdio Srand_time)) (\<lambda>_.
           cbind (fill_random E (nat sz) []) (\<lambda>bs.
           cbind (do_sys E (Stdio (Fwrite (a_rc f) bs))) (\<lambda>w.
           cret (if to_size (a_rc w) = to_size EOF then None else Some bs))))))"

definition tb_load_random_file :: "('w, 'e) env_scheme \<Rightarrow> int \<Rightarrow> (('w, 'z) machine_scheme, byte list option) prog" where
  "tb_load_random_file E sz =
     \<comment> \<open>\<open>sprintf\<close> writes the number and its terminator into \<open>num_str[10]\<close>\<close>
     (if 10 < length (show_int sz) + 1 then chalt (Undefined Buffer_Overflow)
      else let cat_str = snprintf 20 (show_int sz @ ''.ran'') in
        cbind (do_sys E (Stdio (Fopen cat_str ''rb''))) (\<lambda>f.
        if a_rc f = 0 then tb_create_random E cat_str sz
        else cbind (cmalloc E sz) (\<lambda>r_data.
          cbind (do_sys E (Stdio (Fread (a_rc f) sz))) (\<lambda>r.
          if to_size (a_rc r) = to_size EOF
          then cdo [cvoid (do_sys E (Stdio (Fclose (a_rc f))))] (tb_create_random E cat_str sz)
          else cret (map_option (overwrite (a_bytes r)) r_data)))))"

text \<open>The size of the file is an out-parameter: the result carries its new value.\<close>

definition tb_load_test_file :: "('w, 'e) env_scheme \<Rightarrow> string \<Rightarrow> int \<Rightarrow> (('w, 'z) machine_scheme, byte list option \<times> int) prog" where
  "tb_load_test_file E file_name file_size =
     cbind (do_sys E (Stdio (Fopen file_name ''rb''))) (\<lambda>fp.
     if a_rc fp = 0 then cret (None, file_size)
     else cbind (do_sys E (Stdio (Fseek_end (a_rc fp)))) (\<lambda>e.
       if to_int (a_rc e) = EOF then cret (None, to_int (a_rc e))
       else cdo [cvoid (do_sys E (Stdio (Fseek_set (a_rc fp))))]
         (cbind (cmalloc E (to_int (a_rc e))) (\<lambda>data.
          cbind (do_sys E (Stdio (Fread (a_rc fp) (to_int (a_rc e))))) (\<lambda>r.
          cret (if to_size (a_rc r) = to_size EOF then None else map_option (overwrite (a_bytes r)) data,
                to_int (a_rc e)))))))"

text \<open>
  \<open>file_size\<close> is the pointer, \<open>None\<close> for a null one: the test \<open>file_size != 0\<close> of the
  source looks at the pointer and not at the size.
\<close>

definition tb_create_test_file ::
  "('w, 'e) env_scheme \<Rightarrow> string option \<Rightarrow> int option \<Rightarrow> (('w, 'z) machine_scheme, byte list option \<times> int option) prog" where
  "tb_create_test_file E file_name file_size =
     (case file_name of
        Some nm \<Rightarrow> cbind (cderef Null_Deref file_size) (\<lambda>n.
          cbind (tb_load_test_file E nm n) (\<lambda>(data, n'). cret (data, Some n')))
      | None \<Rightarrow>
          (case file_size of
             Some n \<Rightarrow> cbind (tb_load_random_file E n) (\<lambda>data. cret (data, Some n))
           | None \<Rightarrow> cret (None, None)))"

lemma fill_random_length:
  "fill_random E n acc s = Ok bs s' \<Longrightarrow> length bs = length acc + n"
proof (induction n arbitrary: acc s)
  case 0
  then show ?case by (auto simp: cret_def)
next
  case (Suc n)
  then show ?case by (fastforce simp: cbind_def do_sys_def split: prod.splits result.splits)
qed

lemma fill_random_returns: "\<exists>bs s'. fill_random E n acc s = Ok bs s'"
  by (induction n arbitrary: acc s) (auto simp: cret_def cbind_def do_sys_def split: prod.splits)

lemma wp_fill_random:
  "(\<And>bs s'. length bs = length acc + n \<Longrightarrow> Q bs s') \<Longrightarrow> wp (fill_random E n acc) Q R s"
  using fill_random_returns [of E n acc s] fill_random_length [of E n acc s]
  by (auto simp: wp_def)

lemma length_show_int: "0 \<le> n \<Longrightarrow> 0 < k \<Longrightarrow> length (show_int n) \<le> k \<longleftrightarrow> n < 10 ^ k"
  by (simp add: show_int_def length_show_nat nat_less_iff)

text \<open>A loaded or generated file has the size asked for, whatever the files and the allocator do.\<close>

lemma tb_create_random_length:
  assumes "0 \<le> sz"
  shows "wp (tb_create_random E path sz) (\<lambda>d _. \<forall>bs. d = Some bs \<longrightarrow> length bs = nat sz) (\<lambda>_ _. False) s"
  by (auto simp: tb_create_random_def wp_rules split: prod.splits intro!: wp_fill_random)

lemma length_show_int_neg: "n < 0 \<Longrightarrow> 0 < k \<Longrightarrow> length (show_int n) \<le> Suc k \<longleftrightarrow> - n < 10 ^ k"
  by (simp add: show_int_def length_show_nat nat_less_iff)

lemma wp_tb_create_random:
  assumes "\<And>d s'. (\<forall>bs. d = Some bs \<longrightarrow> length bs = nat sz) \<Longrightarrow> Q d s'"
  shows "wp (tb_create_random E path sz) Q R s"
  by (auto simp: tb_create_random_def wp_rules split: prod.splits intro!: wp_fill_random assms)


section \<open>Properties\<close>



text \<open>A file from disk is never loaded. \<open>fseek\<close> returns 0 or -1, and the program takes that for
  the size of the file: the call returns no data, or a block of no bytes and the size 0.\<close>

theorem test_file_is_empty:
  assumes "\<forall>f w. a_rc (fst (sys E (Stdio (Fseek_end f)) w)) \<in> {0, - 1}"
  shows "\<exists>d n' s'. tb_load_test_file E name n s = Ok (d, n') s' \<and> (d = None \<or> d = Some [] \<and> n' = 0)"
proof -
  have rc: "a_rc a = 0 \<or> a_rc a = - 1" if "sys E (Stdio (Fseek_end f)) w = (a, w')" for f w a w'
    using assms that by (metis fst_conv insertE singletonD)
  have "wp (tb_load_test_file E name n) (\<lambda>(d, n') _. d = None \<or> d = Some [] \<and> n' = 0) (\<lambda>_ _. False) s"
    by (auto simp: tb_load_test_file_def wp_rules overwrite_def to_int_id in_int_def EOF_def
        split: prod.splits dest!: rc)
  then show ?thesis by (auto simp: wp_returns)
qed

end
