(* ===== verification/TB_Logging.thy ===== *)
theory TB_Logging
  imports TB_Common
begin

text \<open>
  The log (\<open>src/src/tb_logging.c\<close>): opening a log file under a dated name, and writing one
  line per message, cut to the fixed buffers the code formats it in. What is printed on
  standard output besides is not modelled.
\<close>

datatype tb_log_type_t = LOG_INFO | LOG_ACK | LOG_ERR

datatype tb_log_format_t = PLAIN | DATE | TIME

record tb_log_t =
  log_file :: int
  log_file_path :: string
  log_file_len :: int

text \<open>Fresh memory has contents \<open>m\<close>; a null file means the log could not be opened.\<close>

definition tb_create_log :: "('w, 'e) env_scheme \<Rightarrow> tb_log_t \<Rightarrow> string \<Rightarrow> (('w, 'z) machine_scheme, tb_log_t option) prog" where
  "tb_create_log E m file_path =
     cbind (do_sys E (Stdio (Fopen file_path ''a+''))) (\<lambda>f.
     cret (if a_rc f = 0 then None
           else Some (m\<lparr>log_file_path := file_path, log_file := a_rc f\<rparr>)))"

text \<open>\<open>strftime\<close> stores at most \<open>len - 1\<close> chars.\<close>

definition tb_get_f_time :: "('w, 'e) env_scheme \<Rightarrow> nat \<Rightarrow> string \<Rightarrow> (('w, 'z) machine_scheme, string) prog" where
  "tb_get_f_time E len format =
     cbind (do_sys E (Stdio (Strftime format))) (\<lambda>a. cret (snprintf len (a_text a)))"

definition tb_create_flog ::
  "('w, 'e) env_scheme \<Rightarrow> tb_log_t \<Rightarrow> string \<Rightarrow> tb_log_format_t \<Rightarrow> (('w, 'z) machine_scheme, tb_log_t option) prog" where
  "tb_create_flog E m file_path format =
     cbind (tb_get_f_time E 30 ''%F'') (\<lambda>time_str.
     let fmt_path = snprintf 50 (file_path @ ''_'' @ time_str) in
     tb_create_log E m fmt_path)"

definition tb_destroy_log :: "('w, 'e) env_scheme \<Rightarrow> tb_log_t \<Rightarrow> (('w, 'z) machine_scheme, unit) prog" where
  "tb_destroy_log E lg = cvoid (do_sys E (Stdio (Fclose (log_file lg))))"

fun log_tag :: "tb_log_type_t \<Rightarrow> string" where
  "log_tag LOG_INFO = ''[ INF ]''"
| "log_tag LOG_ACK = ''[ ACK ]''"
| "log_tag LOG_ERR = ''[ ERR ]''"

definition log_text :: "tb_log_type_t \<Rightarrow> string \<Rightarrow> string \<Rightarrow> string" where
  "log_text ty time_str info = log_tag ty @ '' [ '' @ time_str @ '' ] '' @ info @ [CHR 0x0A]"

definition tb_write_log ::
  "('w, 'e) env_scheme \<Rightarrow> tb_log_t option \<Rightarrow> string \<Rightarrow> tb_log_type_t \<Rightarrow> (('w, 'z) machine_scheme, int) prog" where
  "tb_write_log E lg info ty =
     (case lg of
        None \<Rightarrow> chalt Assert_Fail
      | Some l \<Rightarrow>
          cbind (tb_get_f_time E 30 ''%c'') (\<lambda>time_str.
          let buff = snprintf 100 (log_text ty time_str info) in
          cbind (do_sys E (Stdio (Fputs (log_file l) buff))) (\<lambda>p.
          if a_rc p = EOF then cret (- 1)
          else cbind (do_sys E (Stdio (Fflush (log_file l)))) (\<lambda>fl.
            cret (if a_rc fl = EOF then - 1 else 0)))))"

definition tb_log_info ::
  "('w, 'e) env_scheme \<Rightarrow> tb_log_t option \<Rightarrow> int \<Rightarrow> string \<Rightarrow> tb_log_type_t \<Rightarrow> (('w, 'z) machine_scheme, unit) prog" where
  "tb_log_info E lg log_en log_str ty =
     cwhen (log_en \<noteq> 0 \<and> lg \<noteq> None) (cvoid (tb_write_log E lg log_str ty))"

definition tb_log_error_no ::
  "('w, 'e) env_scheme \<Rightarrow> tb_log_t option \<Rightarrow> int \<Rightarrow> string \<Rightarrow> int \<Rightarrow> (('w, 'z) machine_scheme, unit) prog" where
  "tb_log_error_no E lg log_en info err_no =
     cbind (do_sys E (Stdio (Strerror err_no))) (\<lambda>a.
     let log_str = snprintf 50 (info @ a_text a) in
     tb_log_info E lg log_en log_str LOG_ERR)"

lemma length_log_tag [simp]: "length (log_tag ty) = 7"
  by (cases ty) simp_all

lemma length_log_text: "length (log_text ty t info) = 14 + length t + length info"
  by (simp add: log_text_def)

lemma log_tag_inject: "log_tag a = log_tag b \<Longrightarrow> a = b"
  by (cases a; cases b) simp_all

text \<open>Logging only adds to the outside world: it returns, and keeps the rest of the state.\<close>

lemma wp_tb_get_f_time [wp_rules]:
  "wp (tb_get_f_time E len fmt) Q R s = (case sys E (Stdio (Strftime fmt)) (world s) of (a, w) \<Rightarrow>
     Q (snprintf len (a_text a)) (s\<lparr>world := w, trace := (Stdio (Strftime fmt), a_rc a) # trace s\<rparr>))"
  by (simp add: tb_get_f_time_def wp_rules split: prod.splits)

lemma wp_tb_write_log:
  "(\<And>rc w tr. Q rc (s\<lparr>world := w, trace := tr\<rparr>)) \<Longrightarrow> (lg = None \<Longrightarrow> R Assert_Fail s)
   \<Longrightarrow> wp (tb_write_log E lg info ty) Q R s"
  by (cases lg) (auto simp: tb_write_log_def wp_rules Let_def split: prod.splits)

lemma wp_tb_log_info:
  "(\<And>w tr. Q () (s\<lparr>world := w, trace := tr\<rparr>)) \<Longrightarrow> Q () s \<Longrightarrow> wp (tb_log_info E lg en info ty) Q R s"
  by (auto simp: tb_log_info_def wp_rules intro!: wp_tb_write_log)


section \<open>Properties\<close>

text \<open>C40: a log line is the tag, the time and the message, and fits the 100-char buffer. When
  time and message together have at most 85 chars the line is complete and ends in its
  newline; when they are longer, the newline is lost and the next line runs on.\<close>

theorem log_line_written:
  assumes "tb_write_log E (Some lg) info ty s = Ok rc s'"
    and "sys E (Stdio (Strftime ''%c'')) (world s) = (a, w)"
  shows "\<exists>line r. (Stdio (Fputs (log_file lg) line), r) \<in> set (trace s') \<and>
    length line \<le> 99 \<and>
    (length (snprintf 30 (a_text a)) + length info \<le> 85 \<longrightarrow>
       line = log_tag ty @ '' [ '' @ snprintf 30 (a_text a) @ '' ] '' @ info @ [CHR 0x0A]) \<and>
    (85 < length (snprintf 30 (a_text a)) + length info \<longrightarrow>
       (\<exists>rest. log_tag ty @ '' [ '' @ snprintf 30 (a_text a) @ '' ] '' @ info = line @ rest))"
proof -
  let ?t = "snprintf 30 (a_text a)"
  let ?body = "log_tag ty @ '' [ '' @ ?t @ '' ] '' @ info"
  let ?line = "snprintf 100 (log_text ty ?t info)"
  have eq: "log_text ty ?t info = ?body @ [CHR 0x0A]"
    by (simp add: log_text_def)
  have "wp (tb_write_log E (Some lg) info ty)
      (\<lambda>_ s'. \<exists>r. (Stdio (Fputs (log_file lg) ?line), r) \<in> set (trace s')) (\<lambda>_ _. True) s"
    using assms(2) by (auto simp: tb_write_log_def wp_rules Let_def split: prod.splits)
  then obtain r where r: "(Stdio (Fputs (log_file lg) ?line), r) \<in> set (trace s')"
    using assms(1) by (auto simp: wp_def)
  have short: "length ?t + length info \<le> 85 \<Longrightarrow> ?line = ?body @ [CHR 0x0A]"
    using eq by (simp add: snprintf_fits length_log_text)
  have long: "?body = ?line @ drop 99 ?body" if "85 < length ?t + length info"
  proof -
    have "100 - 1 \<le> length ?body" using that by simp
    then have "?line = take (100 - 1) ?body" unfolding eq by (rule snprintf_cut)
    then have "?line = take 99 ?body" by simp
    then show ?thesis by (metis append_take_drop_id)
  qed
  have "length ?line \<le> 99" by simp
  with r short long show ?thesis by (intro exI [of _ ?line] exI [of _ r]) auto
qed

end
