(* ===== verification/TB_Protocol.thy ===== *)
theory TB_Protocol
  imports TB_Logging
begin

text \<open>
  The protocols (\<open>src/src/tb_protocol.h\<close>, \<open>src/src/tb_protocol.c\<close>): the table of
  functions each protocol is driven through, and the statistics collected for it. A
  function pointer is the name of the function it points to, \<open>None\<close> when it is null; a
  call through it dispatches on the name. \<open>double\<close> fields are real numbers, so sums and
  quotients are exact where C rounds.
\<close>

section \<open>Enumerations\<close>

datatype PROTOCOL = TCP | UDP | UDT | aUDT | uTP | eUDP | DCCP

datatype CONGESTION_CONTROL = TCP_VEGAS | TCP_CUBIC | UDT_DAIMID | UDT_ADAPTIVE | UDP_NONE

datatype PROT_OPT = USE_BLOCKING | USE_EPOLL

text \<open>The value of an enumerator, by which C orders and prints it.\<close>

fun PROTOCOL_val :: "PROTOCOL \<Rightarrow> int" where
  "PROTOCOL_val TCP = 0"
| "PROTOCOL_val UDP = 1"
| "PROTOCOL_val UDT = 2"
| "PROTOCOL_val aUDT = 3"
| "PROTOCOL_val uTP = 4"
| "PROTOCOL_val eUDP = 5"
| "PROTOCOL_val DCCP = 6"

lemma PROTOCOL_val_inject: "PROTOCOL_val p = PROTOCOL_val q \<Longrightarrow> p = q"
  by (cases p; cases q) simp_all

instantiation PROTOCOL :: linorder
begin

definition less_eq_PROTOCOL :: "PROTOCOL \<Rightarrow> PROTOCOL \<Rightarrow> bool" where
  "less_eq_PROTOCOL p q \<longleftrightarrow> PROTOCOL_val p \<le> PROTOCOL_val q"

definition less_PROTOCOL :: "PROTOCOL \<Rightarrow> PROTOCOL \<Rightarrow> bool" where
  "less_PROTOCOL p q \<longleftrightarrow> PROTOCOL_val p < PROTOCOL_val q"

instance
  by standard (auto simp: less_eq_PROTOCOL_def less_PROTOCOL_def intro: PROTOCOL_val_inject)

end


section \<open>The function table\<close>

datatype funct_socket = Fn_socket | Fn_udt_socket | Fn_tb_utp_socket
datatype funct_close = Fn_close | Fn_udt_close
datatype funct_bind = Fn_bind | Fn_udt_bind
datatype funct_connect = Fn_connect | Fn_udt_connect | Fn_tb_utp_connect
datatype funct_send = Fn_send | Fn_udt_send | Fn_tb_utp_send
datatype funct_recv = Fn_recv | Fn_udt_recv
datatype funct_listen = Fn_listen | Fn_udt_listen
datatype funct_accept = Fn_accept | Fn_udt_accept
datatype funct_sendto = Fn_sendto
datatype funct_recvfrom = Fn_recvfrom
datatype funct_exit = Fn_udt_cleanup
datatype funct_error = Fn_tb_socket_error | Fn_tb_udt_error | Fn_tb_dccp_error | Fn_tb_utp_error_handle
datatype funct_options = Fn_options
datatype funct_setup = Fn_setup
datatype func_event = Fn_tb_udp_event | Fn_tb_stream_event | Fn_tb_udp_ack | Fn_tb_utp_event

record tb_protocol_t =
  p_protocol :: PROTOCOL
  p_type :: int
  p_error_no :: int
  p_eot :: int
  p_sock_flags :: int
  p_prot_opts :: PROT_OPT
  f_sock :: "funct_socket option"
  f_bind :: "funct_bind option"
  f_connect :: "funct_connect option"
  f_send :: "funct_send option"
  f_recv :: "funct_recv option"
  f_listen :: "funct_listen option"
  f_accept :: "funct_accept option"
  f_close :: "funct_close option"
  f_exit :: "funct_exit option"
  f_recfrom :: "funct_recvfrom option"
  f_sendto :: "funct_sendto option"
  f_error :: "funct_error option"
  f_opt :: "funct_options option"
  f_setup :: "funct_setup option"
  f_ep_event :: "func_event option"

text \<open>
  Every case of the switch fills the fresh block \<open>m\<close>, in the order of the source. \<open>UDP\<close>
  does not set \<open>f_accept\<close>, so there the block's old contents stay. \<open>error_no\<close> points to the
  constant \<open>-1\<close> for every protocol; the field holds the constant. There is no case for
  \<open>aUDT\<close>: the default ends the process.
\<close>

definition tb_create_protocol :: "tb_protocol_t \<Rightarrow> PROTOCOL \<Rightarrow> ('s, tb_protocol_t) prog" where
  "tb_create_protocol m prot =
     (case prot of
        TCP \<Rightarrow> cret (m\<lparr>f_sock := Some Fn_socket, f_bind := Some Fn_bind, f_connect := Some Fn_connect,
          f_listen := Some Fn_listen, f_recv := Some Fn_recv, f_send := Some Fn_send,
          f_accept := Some Fn_accept, f_close := Some Fn_close, p_type := SOCK_STREAM,
          p_error_no := - 1, p_eot := 0, p_sock_flags := 0, f_recfrom := None, f_sendto := None,
          p_protocol := TCP, f_error := Some Fn_tb_socket_error, f_opt := None, f_exit := None,
          f_setup := None, p_prot_opts := USE_BLOCKING, f_ep_event := None\<rparr>)
      | UDP \<Rightarrow> cret (m\<lparr>f_sock := Some Fn_socket, f_bind := Some Fn_bind, f_connect := Some Fn_connect,
          f_listen := None, f_send := Some Fn_send, f_recv := None, p_type := SOCK_DGRAM,
          f_close := Some Fn_close, f_exit := None, p_error_no := - 1, p_eot := 0, p_sock_flags := 0,
          f_recfrom := Some Fn_recvfrom, f_sendto := Some Fn_sendto, p_protocol := UDP,
          f_error := Some Fn_tb_socket_error, f_opt := None, f_setup := None,
          p_prot_opts := USE_BLOCKING, f_ep_event := None\<rparr>)
      | UDT \<Rightarrow> cret (m\<lparr>f_sock := Some Fn_udt_socket, f_bind := Some Fn_udt_bind,
          f_connect := Some Fn_udt_connect, f_listen := Some Fn_udt_listen, f_recv := Some Fn_udt_recv,
          f_send := Some Fn_udt_send, p_type := SOCK_STREAM, f_close := Some Fn_udt_close,
          f_accept := Some Fn_udt_accept, f_exit := Some Fn_udt_cleanup, p_error_no := UDT_ERROR,
          p_eot := - 1, p_sock_flags := 0, f_recfrom := None, f_sendto := None, p_protocol := UDT,
          f_error := Some Fn_tb_udt_error, f_opt := None, f_setup := None,
          p_prot_opts := USE_BLOCKING, f_ep_event := None\<rparr>)
      | uTP \<Rightarrow> cret (m\<lparr>f_sock := Some Fn_tb_utp_socket, f_bind := Some Fn_bind,
          f_connect := Some Fn_tb_utp_connect, f_listen := None, f_recv := None,
          f_send := Some Fn_tb_utp_send, p_type := SOCK_DGRAM, f_close := None, f_accept := None,
          f_exit := None, p_error_no := - 1, p_eot := - 128, p_sock_flags := 0, f_recfrom := None,
          f_sendto := None, p_protocol := uTP, f_error := Some Fn_tb_utp_error_handle, f_opt := None,
          f_setup := None, p_prot_opts := USE_BLOCKING, f_ep_event := None\<rparr>)
      | eUDP \<Rightarrow> cret (m\<lparr>f_sock := Some Fn_socket, f_bind := Some Fn_bind, f_connect := Some Fn_connect,
          f_listen := Some Fn_listen, f_recv := None, f_send := None, p_type := SOCK_DGRAM,
          f_close := Some Fn_close, f_accept := None, f_exit := None, p_error_no := - 1, p_eot := 0,
          p_sock_flags := 0, f_recfrom := None, f_sendto := Some Fn_sendto, p_protocol := eUDP,
          f_error := Some Fn_tb_socket_error, f_opt := None, f_setup := None,
          p_prot_opts := USE_EPOLL, f_ep_event := Some Fn_tb_udp_event\<rparr>)
      | DCCP \<Rightarrow> cret (m\<lparr>f_sock := Some Fn_socket, f_bind := Some Fn_bind, f_connect := Some Fn_connect,
          f_listen := Some Fn_listen, f_recv := Some Fn_recv, f_send := Some Fn_send,
          p_type := SOCK_DCCP, f_close := Some Fn_close, f_accept := Some Fn_accept, f_exit := None,
          p_error_no := - 1, p_eot := 0, p_sock_flags := 0, f_recfrom := None, f_sendto := None,
          p_protocol := DCCP, f_error := Some Fn_tb_dccp_error, f_opt := None, f_setup := None,
          p_prot_opts := USE_BLOCKING, f_ep_event := None\<rparr>)
      | aUDT \<Rightarrow> chalt (Process_Exit (- 1)))"

definition tb_socket_error :: "int \<Rightarrow> int \<Rightarrow> int" where
  "tb_socket_error v err_no = - 1"

definition tb_dccp_error :: "int \<Rightarrow> int \<Rightarrow> int" where
  "tb_dccp_error v err_no = (if err_no = EAGAIN then 0 else - 1)"

definition tb_udt_error :: "int \<Rightarrow> int \<Rightarrow> int" where
  "tb_udt_error v err_no = 0"

definition tb_utp_error_handle :: "int \<Rightarrow> int \<Rightarrow> int" where
  "tb_utp_error_handle v err_no = v"

definition tb_destroy_protocol :: "('w, 'e) env_scheme \<Rightarrow> tb_protocol_t \<Rightarrow> (('w, 'z) machine_scheme, unit) prog" where
  "tb_destroy_protocol E p =
     (case f_exit p of
        Some Fn_udt_cleanup \<Rightarrow> cvoid (do_sys E (Udt Udt_cleanup))
      | None \<Rightarrow> cret ())"


text \<open>
  Calls through the table. The two wrappers of the uTP library take other arguments than the
  pointer types they are cast to; the endpoints never reach them through the table, and the
  model gives such a call no meaning.
\<close>

fun call_sock :: "('w, 'e) env_scheme \<Rightarrow> funct_socket option \<Rightarrow> addrinfo \<Rightarrow> (('w, 'z) machine_scheme, answer) prog" where
  "call_sock E (Some Fn_socket) ai = do_sys E (Posix (Socket (ai_family ai) (ai_socktype ai) (ai_protocol ai)))"
| "call_sock E (Some Fn_udt_socket) ai = do_sys E (Udt (Udt_socket (ai_family ai) (ai_socktype ai) (ai_protocol ai)))"
| "call_sock E _ ai = chalt (Undefined Null_Call)"

fun call_bind :: "('w, 'e) env_scheme \<Rightarrow> funct_bind option \<Rightarrow> int \<Rightarrow> sockaddr_storage \<Rightarrow> (('w, 'z) machine_scheme, answer) prog" where
  "call_bind E (Some Fn_bind) fd ad = do_sys E (Posix (Bind fd ad))"
| "call_bind E (Some Fn_udt_bind) fd ad = do_sys E (Udt (Udt_bind fd ad))"
| "call_bind E None fd ad = chalt (Undefined Null_Call)"

fun call_connect :: "('w, 'e) env_scheme \<Rightarrow> funct_connect option \<Rightarrow> int \<Rightarrow> sockaddr_storage \<Rightarrow> (('w, 'z) machine_scheme, answer) prog" where
  "call_connect E (Some Fn_connect) fd ad = do_sys E (Posix (Connect fd ad))"
| "call_connect E (Some Fn_udt_connect) fd ad = do_sys E (Udt (Udt_connect fd ad))"
| "call_connect E _ fd ad = chalt (Undefined Null_Call)"

fun call_listen :: "('w, 'e) env_scheme \<Rightarrow> funct_listen option \<Rightarrow> int \<Rightarrow> int \<Rightarrow> (('w, 'z) machine_scheme, answer) prog" where
  "call_listen E (Some Fn_listen) fd n = do_sys E (Posix (Listen fd n))"
| "call_listen E (Some Fn_udt_listen) fd n = do_sys E (Udt (Udt_listen fd n))"
| "call_listen E None fd n = chalt (Undefined Null_Call)"

fun call_send :: "('w, 'e) env_scheme \<Rightarrow> funct_send option \<Rightarrow> int \<Rightarrow> byte list \<Rightarrow> (('w, 'z) machine_scheme, answer) prog" where
  "call_send E (Some Fn_send) fd bs = do_sys E (Posix (Send fd bs))"
| "call_send E (Some Fn_udt_send) fd bs = do_sys E (Udt (Udt_send fd bs))"
| "call_send E _ fd bs = chalt (Undefined Null_Call)"

fun call_recv :: "('w, 'e) env_scheme \<Rightarrow> funct_recv option \<Rightarrow> int \<Rightarrow> int \<Rightarrow> (('w, 'z) machine_scheme, answer) prog" where
  "call_recv E (Some Fn_recv) fd n = do_sys E (Posix (Recv fd n))"
| "call_recv E (Some Fn_udt_recv) fd n = do_sys E (Udt (Udt_recv fd n))"
| "call_recv E None fd n = chalt (Undefined Null_Call)"

fun call_accept :: "('w, 'e) env_scheme \<Rightarrow> funct_accept option \<Rightarrow> int \<Rightarrow> (('w, 'z) machine_scheme, answer) prog" where
  "call_accept E (Some Fn_accept) fd = do_sys E (Posix (Accept fd))"
| "call_accept E (Some Fn_udt_accept) fd = do_sys E (Udt (Udt_accept fd))"
| "call_accept E None fd = chalt (Undefined Null_Call)"

fun call_close :: "('w, 'e) env_scheme \<Rightarrow> funct_close option \<Rightarrow> int \<Rightarrow> (('w, 'z) machine_scheme, answer) prog" where
  "call_close E (Some Fn_close) fd = do_sys E (Posix (Close fd))"
| "call_close E (Some Fn_udt_close) fd = do_sys E (Udt (Udt_close fd))"
| "call_close E None fd = chalt (Undefined Null_Call)"

fun call_sendto :: "('w, 'e) env_scheme \<Rightarrow> funct_sendto option \<Rightarrow> int \<Rightarrow> byte list \<Rightarrow> sockaddr_storage \<Rightarrow> (('w, 'z) machine_scheme, answer) prog" where
  "call_sendto E (Some Fn_sendto) fd bs ad = do_sys E (Posix (Sendto fd bs ad))"
| "call_sendto E None fd bs ad = chalt (Undefined Null_Call)"

fun call_recvfrom :: "('w, 'e) env_scheme \<Rightarrow> funct_recvfrom option \<Rightarrow> int \<Rightarrow> int \<Rightarrow> (('w, 'z) machine_scheme, answer) prog" where
  "call_recvfrom E (Some Fn_recvfrom) fd n = do_sys E (Posix (Recvfrom fd n))"
| "call_recvfrom E None fd n = chalt (Undefined Null_Call)"

fun call_error :: "funct_error option \<Rightarrow> int \<Rightarrow> int \<Rightarrow> ('s, int) prog" where
  "call_error (Some Fn_tb_socket_error) v e = cret (tb_socket_error v e)"
| "call_error (Some Fn_tb_udt_error) v e = cret (tb_udt_error v e)"
| "call_error (Some Fn_tb_dccp_error) v e = cret (tb_dccp_error v e)"
| "call_error (Some Fn_tb_utp_error_handle) v e = cret (tb_utp_error_handle v e)"
| "call_error None v e = chalt (Undefined Null_Call)"


section \<open>Statistics\<close>

datatype prot_data = Perf CPerfMon | Info tcp_info

text \<open>What \<open>tb_listener.h\<close> attaches to the statistics as \<open>other_info\<close>.\<close>

record tb_other_info =
  i_l_status :: int
  i_sys_tid :: int
  i_cpu_affinity :: int

text \<open>\<open>st_n_stats\<close> is the address of the next set of statistics, \<open>None\<close> at the end.\<close>

record tb_prot_stats_t =
  st_id :: int
  st_rtt :: real
  st_rtt_var :: real
  st_byte_sec :: int
  st_av_byte_sec :: real
  st_peak_byte_sec :: int
  st_send_rate :: real
  st_recv_rate :: real
  st_send_window :: real
  st_recv_window :: real
  st_other_info :: "tb_other_info option"
  st_num_m_seconds :: int
  st_current_read :: int
  st_total_bytes :: int
  st_ex_time :: int
  st_send_p_loss :: int
  st_recv_p_loss :: int
  st_w_buff_size :: int
  st_r_buff_size :: int
  st_prot_data :: "prot_data option"
  st_protocol :: PROTOCOL
  st_connect_time :: int
  st_transfer_time :: int
  st_stat_time :: "tb_time_t option"
  st_n_stats :: "nat option"

text \<open>\<open>memset\<close> to zero: the numbers are 0, the pointers null, the enumeration its first value.\<close>

definition tb_create_stats :: tb_prot_stats_t where
  "tb_create_stats = \<lparr>st_id = 0, st_rtt = 0, st_rtt_var = 0, st_byte_sec = 0, st_av_byte_sec = 0,
     st_peak_byte_sec = 0, st_send_rate = 0, st_recv_rate = 0, st_send_window = 0,
     st_recv_window = 0, st_other_info = None, st_num_m_seconds = 0, st_current_read = 0,
     st_total_bytes = 0, st_ex_time = 0, st_send_p_loss = 0, st_recv_p_loss = 0,
     st_w_buff_size = 0, st_r_buff_size = 0, st_prot_data = None, st_protocol = TCP,
     st_connect_time = 0, st_transfer_time = 0, st_stat_time = None, st_n_stats = None\<rparr>"

text \<open>\<open>getsockopt\<close> leaves its argument alone when it fails.\<close>

definition tb_get_bsd_stats :: "('w, 'e) env_scheme \<Rightarrow> tb_prot_stats_t \<Rightarrow> int \<Rightarrow> (('w, 'z) machine_scheme, tb_prot_stats_t) prog" where
  "tb_get_bsd_stats E st fd =
     cbind (do_sys E (Posix (Getsockopt fd SO_SNDBUF))) (\<lambda>a.
     let st1 = (if a_rc a = 0 then st\<lparr>st_w_buff_size := to_int (a_val a)\<rparr> else st) in
     cbind (do_sys E (Posix (Getsockopt fd SO_RCVBUF))) (\<lambda>b.
     cret (if a_rc b = 0 then st1\<lparr>st_r_buff_size := to_int (a_val b)\<rparr> else st1)))"

definition get_udt_stats :: "('w, 'e) env_scheme \<Rightarrow> tb_prot_stats_t \<Rightarrow> int \<Rightarrow> (('w, 'z) machine_scheme, tb_prot_stats_t) prog" where
  "get_udt_stats E st fd =
     cbind (do_sys E (Udt (Udt_perfmon fd))) (\<lambda>a.
     if a_rc a = UDT_ERROR then cret st
     else cret (st\<lparr>st_rtt := msRTT (a_perf a), st_recv_rate := mbpsRecvRate (a_perf a),
       st_send_rate := mbpsSendRate (a_perf a), st_send_window := of_int (pktFlowWindow (a_perf a)),
       st_send_p_loss := pktSndLoss (a_perf a), st_recv_p_loss := pktRcvLoss (a_perf a),
       st_prot_data := Some (Perf (a_perf a))\<rparr>))"

definition get_udp_stats :: "('w, 'e) env_scheme \<Rightarrow> tb_prot_stats_t \<Rightarrow> int \<Rightarrow> (('w, 'z) machine_scheme, tb_prot_stats_t) prog" where
  "get_udp_stats E st fd = tb_get_bsd_stats E st fd"

definition get_utp_stats :: "('w, 'e) env_scheme \<Rightarrow> tb_prot_stats_t \<Rightarrow> int \<Rightarrow> (('w, 'z) machine_scheme, tb_prot_stats_t) prog" where
  "get_utp_stats E st fd = tb_get_bsd_stats E st fd"

definition get_dccp_stats :: "('w, 'e) env_scheme \<Rightarrow> tb_prot_stats_t \<Rightarrow> int \<Rightarrow> (('w, 'z) machine_scheme, tb_prot_stats_t) prog" where
  "get_dccp_stats E st fd = tb_get_bsd_stats E st fd"

definition get_tcp_stats :: "('w, 'e) env_scheme \<Rightarrow> tb_prot_stats_t \<Rightarrow> int \<Rightarrow> (('w, 'z) machine_scheme, tb_prot_stats_t) prog" where
  "get_tcp_stats E st fd =
     cbind (do_sys E (Posix (Get_tcp_info fd))) (\<lambda>a.
     if a_rc a = - 1 then cret st
     else tb_get_bsd_stats E (st\<lparr>st_rtt := of_int (tcpi_rtt (a_tcp a)) / 1000,
       st_rtt_var := of_int (tcpi_rttvar (a_tcp a)) / 1000,
       st_send_window := of_int (tcpi_snd_cwnd (a_tcp a)), st_recv_p_loss := tcpi_lost (a_tcp a),
       st_prot_data := Some (Info (a_tcp a))\<rparr>) fd)"

definition tb_get_stats :: "('w, 'e) env_scheme \<Rightarrow> tb_prot_stats_t \<Rightarrow> int \<Rightarrow> (('w, 'z) machine_scheme, tb_prot_stats_t) prog" where
  "tb_get_stats E st0 fd =
     cbind (cint (st_id st0 + 1)) (\<lambda>i.
     let st = st0\<lparr>st_id := i\<rparr> in
     (case st_protocol st of
        TCP \<Rightarrow> get_tcp_stats E st fd
      | UDP \<Rightarrow> get_udp_stats E st fd
      | eUDP \<Rightarrow> get_udp_stats E st fd
      | UDT \<Rightarrow> get_udt_stats E st fd
      | aUDT \<Rightarrow> get_udt_stats E st fd
      | uTP \<Rightarrow> get_utp_stats E st fd
      | DCCP \<Rightarrow> get_dccp_stats E st fd))"

text \<open>
  What a collection does to any set of statistics: it counts up the id, and the bookkeeping
  of the test itself (the byte counts, the protocol, the links) stays as it was.
\<close>

definition stats_frame :: "tb_prot_stats_t \<Rightarrow> tb_prot_stats_t \<Rightarrow> bool" where
  "stats_frame st st' \<longleftrightarrow>
     st_protocol st' = st_protocol st \<and> st_current_read st' = st_current_read st \<and>
     st_total_bytes st' = st_total_bytes st \<and> st_byte_sec st' = st_byte_sec st \<and>
     st_num_m_seconds st' = st_num_m_seconds st \<and> st_n_stats st' = st_n_stats st \<and>
     st_other_info st' = st_other_info st \<and> st_stat_time st' = st_stat_time st \<and>
     st_peak_byte_sec st' = st_peak_byte_sec st \<and> st_av_byte_sec st' = st_av_byte_sec st"

lemma wp_tb_get_bsd_stats:
  assumes "\<And>w tr a b. Q (st\<lparr>st_w_buff_size := a, st_r_buff_size := b\<rparr>) (s\<lparr>world := w, trace := tr\<rparr>)"
  shows "wp (tb_get_bsd_stats E st fd) Q R s"
proof -
  have "Q st (s\<lparr>world := w, trace := tr\<rparr>)" "Q (st\<lparr>st_w_buff_size := a\<rparr>) (s\<lparr>world := w, trace := tr\<rparr>)"
      "Q (st\<lparr>st_r_buff_size := b\<rparr>) (s\<lparr>world := w, trace := tr\<rparr>)" for w tr a b
    using assms [where a = "st_w_buff_size st" and b = "st_r_buff_size st"]
      assms [where a = a and b = "st_r_buff_size st"] assms [where a = "st_w_buff_size st" and b = b]
    by simp_all
  with assms show ?thesis
    by (auto simp: tb_get_bsd_stats_def wp_rules Let_def split: prod.splits)
qed

lemma wp_tb_get_stats:
  assumes "\<And>st' w tr. stats_frame st st' \<Longrightarrow> st_id st' = st_id st + 1 \<Longrightarrow> Q st' (s\<lparr>world := w, trace := tr\<rparr>)"
    and "in_int (st_id st + 1)"
  shows "wp (tb_get_stats E st fd) Q R s"
  using assms
  by (auto simp: tb_get_stats_def wp_rules Let_def get_tcp_stats_def get_udp_stats_def
      get_udt_stats_def get_utp_stats_def get_dccp_stats_def stats_frame_def
      split: PROTOCOL.splits prod.splits intro!: wp_tb_get_bsd_stats)


section \<open>Properties\<close>


text \<open>Collecting statistics always returns, counts the collection, and touches nothing that the
  test itself keeps in them, whatever the protocol and whatever the kernel answers.\<close>

theorem get_stats_keeps_accounts:
  assumes "in_int (st_id st + 1)"
  shows "\<exists>st' s'. tb_get_stats E st fd s = Ok st' s' \<and> st_id st' = st_id st + 1 \<and>
    st_current_read st' = st_current_read st \<and> st_total_bytes st' = st_total_bytes st \<and>
    st_num_m_seconds st' = st_num_m_seconds st \<and> st_byte_sec st' = st_byte_sec st \<and>
    st_peak_byte_sec st' = st_peak_byte_sec st \<and> st_n_stats st' = st_n_stats st \<and>
    st_other_info st' = st_other_info st \<and> st_protocol st' = st_protocol st"
proof -
  have "wp (tb_get_stats E st fd) (\<lambda>st' _. stats_frame st st' \<and> st_id st' = st_id st + 1) (\<lambda>_ _. False) s"
    by (rule wp_tb_get_stats [OF _ assms]) simp
  then show ?thesis by (auto simp: wp_returns stats_frame_def)
qed

end
