(* ===== verification/TB_Sock_Opt.thy ===== *)
theory TB_Sock_Opt
  imports TB_Protocol
begin

text \<open>
  The socket options (\<open>src/src/tb_sock_opt.h\<close>, \<open>src/src/tb_sock_opt.c\<close>): the buffer sizes a
  test may ask for, the default each protocol puts where none was asked for, and the calls
  that hand them to the kernel or to libudt. A function that changes the options through its
  pointer returns them with its return code.
\<close>

record tb_options_t =
  o_protocol :: PROTOCOL
  o_l4_r_b_size :: int
  o_l4_s_b_size :: int
  o_l3_r_b_size :: int
  o_l3_s_b_size :: int
  o_control :: CONGESTION_CONTROL

definition UDT_SND_BUFF :: int where "UDT_SND_BUFF = 1024 * 1024 * 10"
definition UDT_RCV_BUFF :: int where "UDT_RCV_BUFF = 1024 * 1024 * 10"
definition UDP_SND_BUFF :: int where "UDP_SND_BUFF = 1024 * 256"
definition UDP_RCV_BUFF :: int where "UDP_RCV_BUFF = 1024 * 1024"
definition TCP_SND_BUFF :: int where "TCP_SND_BUFF = 1024 * 256"
definition TCP_RCV_BUFF :: int where "TCP_RCV_BUFF = 1024 * 1024"
definition uTP_SND_BUFF :: int where "uTP_SND_BUFF = 300 * 200"
definition uTP_RCV_BUFF :: int where "uTP_RCV_BUFF = 300 * 200"
definition DCCP_SND_BUFF :: int where "DCCP_SND_BUFF = 1024 * 256"
definition DCCP_RCV_BUFF :: int where "DCCP_RCV_BUFF = 1024 * 1024"

lemmas buff_defs = UDT_SND_BUFF_def UDT_RCV_BUFF_def UDP_SND_BUFF_def UDP_RCV_BUFF_def
  TCP_SND_BUFF_def TCP_RCV_BUFF_def uTP_SND_BUFF_def uTP_RCV_BUFF_def DCCP_SND_BUFF_def
  DCCP_RCV_BUFF_def

definition tb_set_bsd_sock_opts :: "('w, 'e) env_scheme \<Rightarrow> tb_options_t \<Rightarrow> int \<Rightarrow> (('w, 'z) machine_scheme, int) prog" where
  "tb_set_bsd_sock_opts E opts fd =
     cbind (do_sys E (Posix (Setsockopt fd SO_RCVBUF (o_l3_r_b_size opts)))) (\<lambda>r.
     if a_rc r \<noteq> 0 then cret (- 1)
     else cbind (do_sys E (Posix (Setsockopt fd SO_SNDBUF (o_l3_s_b_size opts)))) (\<lambda>w.
       if a_rc w \<noteq> 0 then cret (- 1)
       else cdo [cvoid (do_sys E (Posix (Getsockopt fd SO_SNDBUF))),
                 cvoid (do_sys E (Posix (Getsockopt fd SO_RCVBUF)))]
         (cbind (do_sys E (Posix (Setsockopt fd SO_REUSEADDR 1))) (\<lambda>u.
          cret (if a_rc u \<noteq> 0 then - 1 else 0)))))"

definition tb_set_tcp_opts :: "('w, 'e) env_scheme \<Rightarrow> tb_options_t \<Rightarrow> int \<Rightarrow> (('w, 'z) machine_scheme, int \<times> tb_options_t) prog" where
  "tb_set_tcp_opts E o0 fd =
     (let o1 = (if o_l3_r_b_size o0 = 0 then o0\<lparr>o_l3_r_b_size := TCP_RCV_BUFF\<rparr> else o0);
          o2 = (if o_l3_s_b_size o1 = 0 then o1\<lparr>o_l3_s_b_size := TCP_SND_BUFF\<rparr> else o1)
      in cbind (tb_set_bsd_sock_opts E o2 fd) (\<lambda>rc. cret (rc, o2)))"

definition tb_set_udp_opts :: "('w, 'e) env_scheme \<Rightarrow> tb_options_t \<Rightarrow> int \<Rightarrow> (('w, 'z) machine_scheme, int \<times> tb_options_t) prog" where
  "tb_set_udp_opts E o0 fd =
     (let o1 = (if o_l3_r_b_size o0 = 0 then o0\<lparr>o_l3_r_b_size := UDP_RCV_BUFF\<rparr> else o0);
          o2 = (if o_l3_s_b_size o1 = 0 then o1\<lparr>o_l3_s_b_size := UDP_SND_BUFF\<rparr> else o1)
      in cbind (tb_set_bsd_sock_opts E o2 fd) (\<lambda>rc. cret (rc, o2)))"

text \<open>The last call hands libudt \<open>l3_r_b_size\<close> as the size of the UDP send buffer.\<close>

definition tb_set_udt_opts :: "('w, 'e) env_scheme \<Rightarrow> tb_options_t \<Rightarrow> int \<Rightarrow> (('w, 'z) machine_scheme, int \<times> tb_options_t) prog" where
  "tb_set_udt_opts E o0 fd =
     (let o1 = (if o_l4_r_b_size o0 = 0 then o0\<lparr>o_l4_r_b_size := UDT_RCV_BUFF\<rparr> else o0);
          o2 = (if o_l4_s_b_size o1 = 0 then o1\<lparr>o_l4_s_b_size := UDT_SND_BUFF\<rparr> else o1);
          o3 = (if o_l3_r_b_size o2 = 0 then o2\<lparr>o_l3_r_b_size := UDP_RCV_BUFF\<rparr> else o2);
          o4 = (if o_l3_s_b_size o3 = 0 then o3\<lparr>o_l3_s_b_size := UDP_SND_BUFF\<rparr> else o3)
      in cbind (do_sys E (Udt (Udt_setsockopt fd UDT_RCVBUF (o_l4_r_b_size o4)))) (\<lambda>a.
         if a_rc a = - 1 then cret (- 1, o4)
         else cbind (do_sys E (Udt (Udt_setsockopt fd UDT_SNDBUF (o_l4_s_b_size o4)))) (\<lambda>b.
         if a_rc b = - 1 then cret (- 1, o4)
         else cbind (do_sys E (Udt (Udt_setsockopt fd UDP_RCVBUF (o_l3_r_b_size o4)))) (\<lambda>c.
         if a_rc c = - 1 then cret (- 1, o4)
         else cbind (do_sys E (Udt (Udt_setsockopt fd UDP_SNDBUF (o_l3_r_b_size o4)))) (\<lambda>d.
         if a_rc d = - 1 then cret (- 1, o4) else cret (0, o4))))))"

definition tb_set_audt_opts :: "('w, 'e) env_scheme \<Rightarrow> tb_options_t \<Rightarrow> int \<Rightarrow> (('w, 'z) machine_scheme, int \<times> tb_options_t) prog" where
  "tb_set_audt_opts E o0 fd = cret (0, o0)"

definition tb_set_utp_opts :: "('w, 'e) env_scheme \<Rightarrow> tb_options_t \<Rightarrow> int \<Rightarrow> (('w, 'z) machine_scheme, int \<times> tb_options_t) prog" where
  "tb_set_utp_opts E o0 fd =
     (let o1 = (if o_l4_r_b_size o0 = 0 then o0\<lparr>o_l4_r_b_size := uTP_RCV_BUFF\<rparr> else o0);
          o2 = (if o_l4_s_b_size o1 = 0 then o1\<lparr>o_l4_s_b_size := uTP_SND_BUFF\<rparr> else o1);
          o3 = (if o_l3_r_b_size o2 = 0 then o2\<lparr>o_l3_r_b_size := UDP_RCV_BUFF\<rparr> else o2);
          o4 = (if o_l3_s_b_size o3 = 0 then o3\<lparr>o_l3_s_b_size := UDP_SND_BUFF\<rparr> else o3)
      in cret (0, o4))"

definition tb_set_eudp_opts :: "('w, 'e) env_scheme \<Rightarrow> tb_options_t \<Rightarrow> int \<Rightarrow> (('w, 'z) machine_scheme, int \<times> tb_options_t) prog" where
  "tb_set_eudp_opts E o0 fd = tb_set_udp_opts E o0 fd"

definition tb_set_dccp_opts :: "('w, 'e) env_scheme \<Rightarrow> tb_options_t \<Rightarrow> int \<Rightarrow> (('w, 'z) machine_scheme, int \<times> tb_options_t) prog" where
  "tb_set_dccp_opts E o0 fd =
     (let o1 = (if o_l3_r_b_size o0 = 0 then o0\<lparr>o_l3_r_b_size := DCCP_RCV_BUFF\<rparr> else o0);
          o2 = (if o_l3_s_b_size o1 = 0 then o1\<lparr>o_l3_s_b_size := DCCP_SND_BUFF\<rparr> else o1)
      in cbind (tb_set_bsd_sock_opts E o2 fd) (\<lambda>rc. cret (rc, o2)))"

definition tb_set_sock_opt :: "('w, 'e) env_scheme \<Rightarrow> tb_options_t \<Rightarrow> int \<Rightarrow> (('w, 'z) machine_scheme, int \<times> tb_options_t) prog" where
  "tb_set_sock_opt E opts fd =
     (case o_protocol opts of
        TCP \<Rightarrow> tb_set_tcp_opts E opts fd
      | UDP \<Rightarrow> tb_set_udp_opts E opts fd
      | UDT \<Rightarrow> tb_set_udt_opts E opts fd
      | aUDT \<Rightarrow> tb_set_audt_opts E opts fd
      | uTP \<Rightarrow> tb_set_utp_opts E opts fd
      | eUDP \<Rightarrow> tb_set_eudp_opts E opts fd
      | DCCP \<Rightarrow> tb_set_dccp_opts E opts fd)"

lemmas sock_opt_defs = tb_set_sock_opt_def tb_set_tcp_opts_def tb_set_udp_opts_def
  tb_set_udt_opts_def tb_set_audt_opts_def tb_set_utp_opts_def tb_set_eudp_opts_def
  tb_set_dccp_opts_def tb_set_bsd_sock_opts_def


section \<open>What the options come to\<close>

text \<open>
  The contract in one place: a size that was asked for is kept, a size left at 0 becomes the
  default of the protocol, and the sizes the protocol does not use are left alone.
\<close>

definition or_default :: "int \<Rightarrow> int \<Rightarrow> int" where
  "or_default d n = (if n = 0 then d else n)"

definition opts_spec :: "tb_options_t \<Rightarrow> tb_options_t" where
  "opts_spec opts =
     (let l3 = (\<lambda>r s o1. o1\<lparr>o_l3_r_b_size := or_default r (o_l3_r_b_size o1),
                            o_l3_s_b_size := or_default s (o_l3_s_b_size o1)\<rparr>);
          l4 = (\<lambda>r s o1. o1\<lparr>o_l4_r_b_size := or_default r (o_l4_r_b_size o1),
                            o_l4_s_b_size := or_default s (o_l4_s_b_size o1)\<rparr>)
      in case o_protocol opts of
           TCP \<Rightarrow> l3 1048576 262144 opts
         | UDP \<Rightarrow> l3 1048576 262144 opts
         | eUDP \<Rightarrow> l3 1048576 262144 opts
         | DCCP \<Rightarrow> l3 1048576 262144 opts
         | UDT \<Rightarrow> l3 1048576 262144 (l4 10485760 10485760 opts)
         | uTP \<Rightarrow> l3 1048576 262144 (l4 60000 60000 opts)
         | aUDT \<Rightarrow> opts)"

lemma or_default_idem [simp]: "or_default d (or_default d n) = or_default d n"
  by (simp add: or_default_def)

lemma opts_spec_protocol [simp]: "o_protocol (opts_spec opts) = o_protocol opts"
  by (simp add: opts_spec_def Let_def split: PROTOCOL.splits)

lemma opts_spec_idem: "opts_spec (opts_spec opts) = opts_spec opts"
  by (cases "o_protocol opts") (simp_all add: opts_spec_def Let_def or_default_def)

lemma fill_default [simp]:
  "(if o_l4_r_b_size x = 0 then x\<lparr>o_l4_r_b_size := d\<rparr> else x) = x\<lparr>o_l4_r_b_size := or_default d (o_l4_r_b_size x)\<rparr>"
  "(if o_l4_s_b_size x = 0 then x\<lparr>o_l4_s_b_size := d\<rparr> else x) = x\<lparr>o_l4_s_b_size := or_default d (o_l4_s_b_size x)\<rparr>"
  "(if o_l3_r_b_size x = 0 then x\<lparr>o_l3_r_b_size := d\<rparr> else x) = x\<lparr>o_l3_r_b_size := or_default d (o_l3_r_b_size x)\<rparr>"
  "(if o_l3_s_b_size x = 0 then x\<lparr>o_l3_s_b_size := d\<rparr> else x) = x\<lparr>o_l3_s_b_size := or_default d (o_l3_s_b_size x)\<rparr>"
  by (simp_all add: or_default_def)

lemma wp_tb_set_bsd_sock_opts:
  assumes "\<And>rc w tr. rc = 0 \<or> rc = - 1 \<Longrightarrow> Q rc (s\<lparr>world := w, trace := tr\<rparr>)"
  shows "wp (tb_set_bsd_sock_opts E opts fd) Q R s"
  using assms by (auto simp: tb_set_bsd_sock_opts_def wp_rules split: prod.splits)

text \<open>
  The protocols on BSD sockets only differ in their defaults, and the uTP options are only
  written down: with the contract, every case is one equation.
\<close>

lemma tb_set_sock_opt_bsd:
  "o_protocol opts \<in> {TCP, UDP, eUDP, DCCP} \<Longrightarrow>
   tb_set_sock_opt E opts fd =
     cbind (tb_set_bsd_sock_opts E (opts_spec opts) fd) (\<lambda>rc. cret (rc, opts_spec opts))"
  by (auto simp: tb_set_sock_opt_def tb_set_tcp_opts_def tb_set_udp_opts_def tb_set_eudp_opts_def
      tb_set_dccp_opts_def opts_spec_def buff_defs Let_def)

lemma tb_set_sock_opt_utp:
  "o_protocol opts \<in> {uTP, aUDT} \<Longrightarrow> tb_set_sock_opt E opts fd = cret (0, opts_spec opts)"
  by (auto simp: tb_set_sock_opt_def tb_set_utp_opts_def tb_set_audt_opts_def opts_spec_def buff_defs Let_def)

definition udt_setsockopts :: "tb_options_t \<Rightarrow> int \<Rightarrow> syscall list" where
  "udt_setsockopts o4 fd =
     [Udt (Udt_setsockopt fd UDT_RCVBUF (o_l4_r_b_size o4)), Udt (Udt_setsockopt fd UDT_SNDBUF (o_l4_s_b_size o4)),
      Udt (Udt_setsockopt fd UDP_RCVBUF (o_l3_r_b_size o4)), Udt (Udt_setsockopt fd UDP_SNDBUF (o_l3_r_b_size o4))]"

lemma wp_tb_set_udt_opts:
  assumes "o_protocol opts = UDT"
    and "\<And>rc w cs. rc = 0 \<or> rc = - 1 \<Longrightarrow> rc = 0 \<Longrightarrow> map fst cs = rev (udt_setsockopts (opts_spec opts) fd) \<Longrightarrow>
           Q (rc, opts_spec opts) (s\<lparr>world := w, trace := cs @ trace s\<rparr>)"
    and "\<And>w cs. Q (- 1, opts_spec opts) (s\<lparr>world := w, trace := cs @ trace s\<rparr>)"
  shows "wp (tb_set_sock_opt E opts fd) Q R s"
proof -
  note ok = assms(2) [where rc = 0 and cs = "[(_, _), (_, _), (_, _), (_, _)]"]
  note err = assms(3) [where cs = "[(_, _)]"] assms(3) [where cs = "[(_, _), (_, _)]"]
    assms(3) [where cs = "[(_, _), (_, _), (_, _)]"] assms(3) [where cs = "[(_, _), (_, _), (_, _), (_, _)]"]
  show ?thesis
    using ok err assms(1)
    by (simp add: tb_set_sock_opt_def tb_set_udt_opts_def opts_spec_def buff_defs wp_rules Let_def
        udt_setsockopts_def split: prod.splits)
qed

text \<open>Whatever the kernel and libudt answer, the options come out as specified.\<close>

lemma wp_tb_set_sock_opt:
  assumes "\<And>rc w tr. rc = 0 \<or> rc = - 1 \<Longrightarrow> Q (rc, opts_spec opts) (s\<lparr>world := w, trace := tr\<rparr>)"
  shows "wp (tb_set_sock_opt E opts fd) Q R s"
proof -
  have "Q (0, opts_spec opts) s"
    using assms [where rc = 0 and w = "world s" and tr = "trace s"] by simp
  with assms show ?thesis
    by (cases "o_protocol opts")
      (auto simp: tb_set_sock_opt_bsd tb_set_sock_opt_utp wp_rules
        intro!: wp_tb_set_bsd_sock_opts wp_tb_set_udt_opts)
qed


section \<open>Properties\<close>

text \<open>C32: setting the options of any protocol always returns, with 0 or -1, and leaves the
  options as the contract says: sizes asked for are kept, sizes left at 0 become the defaults
  of the protocol, and doing it again changes nothing.\<close>

theorem sock_opt_contract:
  "\<exists>rc s'. tb_set_sock_opt E opts fd s = Ok (rc, opts_spec opts) s' \<and> (rc = 0 \<or> rc = - 1) \<and>
     (\<exists>rc2 s''. tb_set_sock_opt E (opts_spec opts) fd s' = Ok (rc2, opts_spec opts) s'')"
proof -
  have ret: "\<exists>rc s'. tb_set_sock_opt E o1 fd t = Ok (rc, opts_spec o1) s' \<and> (rc = 0 \<or> rc = - 1)" for o1 t
    using wp_tb_set_sock_opt [where Q = "\<lambda>x _. snd x = opts_spec o1 \<and> (fst x = 0 \<or> fst x = - 1)" and R = "\<lambda>_ _. False"]
    unfolding wp_returns by (metis prod.collapse prod.sel)
  from ret [of opts s] obtain rc s' where "tb_set_sock_opt E opts fd s = Ok (rc, opts_spec opts) s'" "rc = 0 \<or> rc = - 1"
    by blast
  with ret [of "opts_spec opts" s'] show ?thesis by (auto simp: opts_spec_idem)
qed

text \<open>When the options of a UDT socket are set without error, the four calls libudt sees are
  these, in this order; the size it is given for the UDP send buffer is the size of the
  receive buffer, and the send size that was asked for or defaulted is not passed on.\<close>

theorem udt_options_calls:
  assumes "o_protocol opts = UDT" and "tb_set_sock_opt E opts fd s = Ok (0, o') s'"
  shows "\<exists>cs. trace s' = cs @ trace s \<and>
    map fst (rev cs) = [Udt (Udt_setsockopt fd UDT_RCVBUF (or_default 10485760 (o_l4_r_b_size opts))),
      Udt (Udt_setsockopt fd UDT_SNDBUF (or_default 10485760 (o_l4_s_b_size opts))),
      Udt (Udt_setsockopt fd UDP_RCVBUF (or_default 1048576 (o_l3_r_b_size opts))),
      Udt (Udt_setsockopt fd UDP_SNDBUF (or_default 1048576 (o_l3_r_b_size opts)))]"
proof -
  have "wp (tb_set_sock_opt E opts fd) (\<lambda>x s'. fst x = 0 \<longrightarrow>
      (\<exists>cs. trace s' = cs @ trace s \<and> map fst cs = rev (udt_setsockopts (opts_spec opts) fd))) (\<lambda>_ _. True) s"
    using assms(1) by (rule wp_tb_set_udt_opts) auto
  then have "\<exists>cs. trace s' = cs @ trace s \<and> map fst cs = rev (udt_setsockopts (opts_spec opts) fd)"
    using assms(2) by (simp add: wp_def)
  then show ?thesis
    using assms(1) by (auto simp: rev_map [symmetric] udt_setsockopts_def opts_spec_def Let_def)
qed

end
