(* ===== verification/TB_Session.thy ===== *)
theory TB_Session
  imports TB_Sock_Opt
begin

text \<open>
  Sessions (\<open>src/src/tb_session.h\<close>, \<open>src/src/tb_session.c\<close>): one per connection of a test.
  Sessions and their statistics are separate heap blocks; the list of sessions and the list
  of their statistics are threaded through them. The heap maps addresses to blocks, \<open>None\<close>
  where nothing is allocated; addresses are never used again, so a use after \<open>free\<close> is
  always seen.
\<close>

section \<open>State\<close>

datatype tb_session_status = SESSION_CREATED | SESSION_ADDR_RES | SESSION_CONNECTED
  | SESSION_COMPLETE | SESSION_DISCONNECTED

text \<open>Pointers into the listener that sessions and their list hold.\<close>

datatype listener_ref = Ref_status | Ref_txrx | Ref_command | Ref_session_list

text \<open>
  \<open>s_thread\<close> holds either a block the creation of the session allocated, or the handle of a
  thread that was started.
\<close>

datatype pthread = Thread_Block | Thread_Id int

record tb_session_t =
  s_id :: int
  s_address :: "string option"
  s_port :: "string option"
  s_addr_in :: "sockaddr_storage option"
  s_addr_len :: int
  s_addr_info :: "addrinfo option"
  s_addr_hints :: "(int \<times> int) option"
  s_sock_d :: int
  s_pack_size :: int
  s_file_name :: "string option"
  s_data :: "byte list option"
  s_data_size :: int
  s_int_data :: int
  s_last_trans :: int
  s_total_bytes :: int
  s_stats :: "nat option"
  s_status :: tb_session_status
  s_l_status :: "listener_ref option"
  s_l_txrx :: "listener_ref option"
  s_thread :: "pthread option"
  s_stat_lock :: bool
  s_n_session :: "nat option"
  s_transfer_t :: "tb_time_t option"
  s_connect_t :: "tb_time_t option"
  s_log_enabled :: int
  s_log_info :: "tb_log_t option"
  s_info :: "nat option"
  s_other_info :: "listener_ref option"

record tb_session_list_t =
  sl_current_max_id :: int
  sl_num_sessions :: int
  sl_start :: "nat option"
  sl_end :: "nat option"
  sl_num_active_conn :: int
  sl_nac_lock :: bool
  sl_userdata :: "listener_ref option"

text \<open>The environment also says what \<open>malloc\<close>ed blocks hold before they are filled.\<close>

record 'w senv = "'w env" +
  mem_session :: tb_session_t
  mem_time :: tb_time_t
  mem_addr :: sockaddr_storage

record 'w tb_heap = "'w machine" +
  sess :: "nat \<Rightarrow> tb_session_t option"
  sstats :: "nat \<Rightarrow> tb_prot_stats_t option"
  brk :: nat

definition load_session :: "nat option \<Rightarrow> (('w, 'z) tb_heap_scheme, tb_session_t) prog" where
  "load_session p = cbind (cderef Null_Deref p) (\<lambda>a.
     cbind (cget (\<lambda>s. sess s a)) (\<lambda>b. cderef Use_After_Free b))"

definition store_session :: "nat option \<Rightarrow> (tb_session_t \<Rightarrow> tb_session_t) \<Rightarrow> (('w, 'z) tb_heap_scheme, unit) prog" where
  "store_session p f = cbind (load_session p) (\<lambda>r. cmod (\<lambda>s. s\<lparr>sess := (sess s)(the p \<mapsto> f r)\<rparr>))"

definition load_stats :: "nat option \<Rightarrow> (('w, 'z) tb_heap_scheme, tb_prot_stats_t) prog" where
  "load_stats p = cbind (cderef Null_Deref p) (\<lambda>a.
     cbind (cget (\<lambda>s. sstats s a)) (\<lambda>b. cderef Use_After_Free b))"

definition store_stats :: "nat option \<Rightarrow> (tb_prot_stats_t \<Rightarrow> tb_prot_stats_t) \<Rightarrow> (('w, 'z) tb_heap_scheme, unit) prog" where
  "store_stats p f = cbind (load_stats p) (\<lambda>r. cmod (\<lambda>s. s\<lparr>sstats := (sstats s)(the p \<mapsto> f r)\<rparr>))"

definition alloc_session :: "tb_session_t \<Rightarrow> (('w, 'z) tb_heap_scheme, nat) prog" where
  "alloc_session r = (\<lambda>s. Ok (brk s) (s\<lparr>sess := (sess s)(brk s \<mapsto> r), brk := brk s + 1\<rparr>))"

definition alloc_stats :: "tb_prot_stats_t \<Rightarrow> (('w, 'z) tb_heap_scheme, nat) prog" where
  "alloc_stats r = (\<lambda>s. Ok (brk s) (s\<lparr>sstats := (sstats s)(brk s \<mapsto> r), brk := brk s + 1\<rparr>))"

lemma wp_load_session [wp_rules]:
  "wp (load_session p) Q R s = (case p of None \<Rightarrow> R (Undefined Null_Deref) s
     | Some a \<Rightarrow> (case sess s a of None \<Rightarrow> R (Undefined Use_After_Free) s | Some r \<Rightarrow> Q r s))"
  by (simp add: load_session_def wp_rules split: option.splits)

lemma wp_store_session [wp_rules]:
  "wp (store_session p f) Q R s = (case p of None \<Rightarrow> R (Undefined Null_Deref) s
     | Some a \<Rightarrow> (case sess s a of None \<Rightarrow> R (Undefined Use_After_Free) s
                  | Some r \<Rightarrow> Q () (s\<lparr>sess := (sess s)(a \<mapsto> f r)\<rparr>)))"
  by (simp add: store_session_def wp_rules split: option.splits)

lemma wp_load_stats [wp_rules]:
  "wp (load_stats p) Q R s = (case p of None \<Rightarrow> R (Undefined Null_Deref) s
     | Some a \<Rightarrow> (case sstats s a of None \<Rightarrow> R (Undefined Use_After_Free) s | Some r \<Rightarrow> Q r s))"
  by (simp add: load_stats_def wp_rules split: option.splits)

lemma wp_store_stats [wp_rules]:
  "wp (store_stats p f) Q R s = (case p of None \<Rightarrow> R (Undefined Null_Deref) s
     | Some a \<Rightarrow> (case sstats s a of None \<Rightarrow> R (Undefined Use_After_Free) s
                  | Some r \<Rightarrow> Q () (s\<lparr>sstats := (sstats s)(a \<mapsto> f r)\<rparr>)))"
  by (simp add: store_stats_def wp_rules split: option.splits)

lemma wp_alloc [wp_rules]:
  "wp (alloc_session r) Q R s = Q (brk s) (s\<lparr>sess := (sess s)(brk s \<mapsto> r), brk := brk s + 1\<rparr>)"
  "wp (alloc_stats st) Q' R s = Q' (brk s) (s\<lparr>sstats := (sstats s)(brk s \<mapsto> st), brk := brk s + 1\<rparr>)"
  by (simp_all add: alloc_session_def alloc_stats_def wp_def)


section \<open>The list of sessions\<close>

definition tb_session_add_to :: "tb_session_list_t \<Rightarrow> nat option \<Rightarrow> (('w, 'z) tb_heap_scheme, tb_session_list_t) prog" where
  "tb_session_add_to l session =
     cbind (if sl_start l = None
            then cret (l\<lparr>sl_start := session, sl_end := session\<rparr>)
            else cdo [store_session (sl_end l) (\<lambda>r. r\<lparr>s_n_session := session\<rparr>),
                      cbind (load_session session) (\<lambda>new.
                      cbind (load_session (sl_end l)) (\<lambda>last.
                      store_stats (s_stats last) (\<lambda>st. st\<lparr>st_n_stats := s_stats new\<rparr>)))]
              (cret (l\<lparr>sl_end := session\<rparr>)))
       (\<lambda>l1. cbind (cint (sl_num_sessions l1 + 1)) (\<lambda>n. cret (l1\<lparr>sl_num_sessions := n\<rparr>)))"

definition tb_session_add :: "tb_session_list_t \<Rightarrow> nat option \<Rightarrow> (('w, 'z) tb_heap_scheme, tb_session_list_t) prog" where
  "tb_session_add l session =
     cbind (cint (sl_current_max_id l + 1)) (\<lambda>i.
     cdo [store_session session (\<lambda>r. r\<lparr>s_id := i\<rparr>)]
       (tb_session_add_to (l\<lparr>sl_current_max_id := i\<rparr>) session))"

text \<open>
  The counter of active connections. \<open>pthread_mutex_trylock\<close> takes the lock if it is free;
  its result is dropped, so the code goes on in either case, and it always unlocks.
\<close>

definition tb_session_list_inc :: "tb_session_list_t \<Rightarrow> ('s, int \<times> tb_session_list_t) prog" where
  "tb_session_list_inc l =
     (let l1 = l\<lparr>sl_nac_lock := True\<rparr> in
      cbind (cint (sl_num_active_conn l1 + 1)) (\<lambda>retval.
      let l2 = l1\<lparr>sl_num_active_conn := retval\<rparr> in
      cret (retval, l2\<lparr>sl_nac_lock := False\<rparr>)))"

definition tb_session_list_dec :: "tb_session_list_t \<Rightarrow> ('s, int \<times> tb_session_list_t) prog" where
  "tb_session_list_dec l =
     (let l1 = l\<lparr>sl_nac_lock := True\<rparr> in
      cbind (cint (sl_num_active_conn l1 - 1)) (\<lambda>retval.
      let l2 = l1\<lparr>sl_num_active_conn := retval\<rparr> in
      cret (retval, l2\<lparr>sl_nac_lock := False\<rparr>)))"

text \<open>The search: the loop condition reads the session it is at.\<close>

definition tb_session_list_search ::
  "nat \<Rightarrow> tb_session_list_t \<Rightarrow> int \<Rightarrow> (('w, 'z) tb_heap_scheme, nat option) prog" where
  "tb_session_list_search fuel l i =
     cwhile fuel
       (\<lambda>curr. if curr = None then cret False
               else cbind (load_session curr) (\<lambda>r. cret (s_id r \<noteq> i)))
       (\<lambda>curr. cbind (load_session curr) (\<lambda>r. cret (s_n_session r)))
       (sl_start l)"


section \<open>The list and what it stands for\<close>

text \<open>
  \<open>slist h g p q ps\<close>: starting at session \<open>p\<close> and at statistics \<open>q\<close>, the two linked lists run
  in step through the pairs \<open>ps\<close> of session and statistics addresses.
\<close>

fun slist :: "(nat \<Rightarrow> tb_session_t option) \<Rightarrow> (nat \<Rightarrow> tb_prot_stats_t option) \<Rightarrow>
    nat option \<Rightarrow> nat option \<Rightarrow> (nat \<times> nat) list \<Rightarrow> bool" where
  "slist h g p q [] = (p = None \<and> q = None)"
| "slist h g p q ((a, b) # ps) =
     (p = Some a \<and> q = Some b \<and>
      (case h a of None \<Rightarrow> False | Some r \<Rightarrow> s_stats r = Some b \<and>
        (case g b of None \<Rightarrow> False | Some st \<Rightarrow> slist h g (s_n_session r) (st_n_stats st) ps)))"

definition first_stats :: "(nat \<times> nat) list \<Rightarrow> nat option" where
  "first_stats ps = (case ps of [] \<Rightarrow> None | (a, b) # _ \<Rightarrow> Some b)"

definition list_ok :: "('w, 'z) tb_heap_scheme \<Rightarrow> tb_session_list_t \<Rightarrow> (nat \<times> nat) list \<Rightarrow> bool" where
  "list_ok s l ps \<longleftrightarrow>
     slist (sess s) (sstats s) (sl_start l) (first_stats ps) ps \<and>
     distinct (map fst ps) \<and> distinct (map snd ps) \<and>
     (ps \<noteq> [] \<longrightarrow> sl_end l = Some (fst (last ps))) \<and>
     sl_num_sessions l = int (length ps)"

definition session_ids :: "('w, 'z) tb_heap_scheme \<Rightarrow> (nat \<times> nat) list \<Rightarrow> int list" where
  "session_ids s ps = map (\<lambda>(a, b). s_id (the (sess s a))) ps"

text \<open>A session that is not on the list yet: allocated, at the end of nothing, with its own statistics.\<close>

definition fresh_session :: "('w, 'z) tb_heap_scheme \<Rightarrow> (nat \<times> nat) list \<Rightarrow> nat \<Rightarrow> nat \<Rightarrow> bool" where
  "fresh_session s ps a b \<longleftrightarrow> a \<notin> fst ` set ps \<and> b \<notin> snd ` set ps \<and>
     (\<exists>r st. sess s a = Some r \<and> s_n_session r = None \<and> s_stats r = Some b \<and>
             sstats s b = Some st \<and> st_n_stats st = None)"

text \<open>Two states that differ only in how sessions and statistics are linked.\<close>

definition same_but_links :: "('w, 'z) tb_heap_scheme \<Rightarrow> ('w, 'z) tb_heap_scheme \<Rightarrow> bool" where
  "same_but_links s s' \<longleftrightarrow> s' = s\<lparr>sess := sess s', sstats := sstats s'\<rparr> \<and>
     (\<forall>c. map_option (s_n_session_update (\<lambda>_. None)) (sess s' c) = map_option (s_n_session_update (\<lambda>_. None)) (sess s c)) \<and>
     (\<forall>c. map_option (st_n_stats_update (\<lambda>_. None)) (sstats s' c) = map_option (st_n_stats_update (\<lambda>_. None)) (sstats s c))"

lemma same_but_links_refl [simp]: "same_but_links s s"
  by (simp add: same_but_links_def)

lemma slist_frame_session: "slist h g p q ps \<Longrightarrow> a \<notin> fst ` set ps \<Longrightarrow> slist (h(a := x)) g p q ps"
  by (induction h g p q ps rule: slist.induct) (auto split: option.splits)

lemma slist_frame_stats: "slist h g p q ps \<Longrightarrow> b \<notin> snd ` set ps \<Longrightarrow> slist h (g(b := y)) p q ps"
  by (induction h g p q ps rule: slist.induct) (auto split: option.splits)

lemma slist_start: "slist h g p q ps \<Longrightarrow> (p = None) = (ps = []) \<and> (q = None) = (ps = [])"
  by (cases ps) auto

lemma slist_mem: "slist h g p q ps \<Longrightarrow> (a, b) \<in> set ps \<Longrightarrow>
    \<exists>r st. h a = Some r \<and> s_stats r = Some b \<and> g b = Some st"
  by (induction h g p q ps rule: slist.induct) (auto split: option.splits)

lemma slist_append:
  assumes "slist h g p q (ps @ [(x, y)])" and "distinct (map fst (ps @ [(x, y)]))"
    and "distinct (map snd (ps @ [(x, y)]))"
    and "a \<notin> fst ` set (ps @ [(x, y)])" and "b \<notin> snd ` set (ps @ [(x, y)])"
    and "h x = Some rx" and "g y = Some sy"
    and "h a = Some ra" and "s_n_session ra = None" and "s_stats ra = Some b"
    and "g b = Some sb" and "st_n_stats sb = None"
  shows "slist (h(x \<mapsto> rx\<lparr>s_n_session := Some a\<rparr>)) (g(y \<mapsto> sy\<lparr>st_n_stats := Some b\<rparr>)) p q (ps @ [(x, y), (a, b)])"
  using assms
proof (induction ps arbitrary: p q)
  case Nil
  then show ?case by (auto split: option.splits)
next
  case (Cons c ps)
  obtain u v where c: "c = (u, v)" by force
  with Cons.prems(1) obtain ru sv where
    u: "h u = Some ru" "s_stats ru = Some v" "g v = Some sv" "p = Some u" "q = Some v"
      "slist h g (s_n_session ru) (st_n_stats sv) (ps @ [(x, y)])"
    by (auto split: option.splits)
  have "slist (h(x \<mapsto> rx\<lparr>s_n_session := Some a\<rparr>)) (g(y \<mapsto> sy\<lparr>st_n_stats := Some b\<rparr>))
      (s_n_session ru) (st_n_stats sv) (ps @ [(x, y), (a, b)])"
    using Cons.prems u by (intro Cons.IH) auto
  moreover have "u \<noteq> x" "v \<noteq> y" using Cons.prems(2,3) c by auto
  ultimately show ?case using u c by (simp add: fun_upd_def)
qed

text \<open>Adding a fresh session appends it.\<close>

lemma wp_tb_session_add_to:
  assumes ok: "list_ok s l ps" and fresh: "fresh_session s ps a b"
    and room: "in_int (sl_num_sessions l + 1)"
    and post: "\<And>l' s'. list_ok s' l' (ps @ [(a, b)]) \<Longrightarrow>
        sl_current_max_id l' = sl_current_max_id l \<Longrightarrow> sl_num_active_conn l' = sl_num_active_conn l \<Longrightarrow>
        sl_userdata l' = sl_userdata l \<Longrightarrow> session_ids s' (ps @ [(a, b)]) = session_ids s (ps @ [(a, b)]) \<Longrightarrow>
        same_but_links s s' \<Longrightarrow>
        Q l' s'"
  shows "wp (tb_session_add_to l (Some a)) Q R s"
proof -
  from fresh obtain r st where new: "sess s a = Some r" "s_n_session r = None" "s_stats r = Some b"
      "sstats s b = Some st" "st_n_stats st = None" "a \<notin> fst ` set ps" "b \<notin> snd ` set ps"
    by (auto simp: fresh_session_def)
  show ?thesis
  proof (cases ps rule: rev_cases)
    case Nil
    then have "sl_start l = None" using ok by (auto simp: list_ok_def)
    with Nil ok new room show ?thesis
      by (auto simp: tb_session_add_to_def wp_rules list_ok_def first_stats_def intro!: post)
  next
    case (snoc ps' c)
    obtain x y where c: "c = (x, y)" by force
    from ok have sl: "slist (sess s) (sstats s) (sl_start l) (first_stats ps) ps" by (simp add: list_ok_def)
    from slist_mem [OF sl, of x y] snoc c obtain rx sy where
      xy: "sess s x = Some rx" "s_stats rx = Some y" "sstats s y = Some sy" by auto
    have ne: "x \<noteq> a" "y \<noteq> b" using new snoc c by auto
    have st: "sl_start l \<noteq> None" "sl_end l = Some x"
      using slist_start [OF sl] ok snoc c by (auto simp: list_ok_def)
    have app: "slist ((sess s)(x \<mapsto> rx\<lparr>s_n_session := Some a\<rparr>)) ((sstats s)(y \<mapsto> sy\<lparr>st_n_stats := Some b\<rparr>))
        (sl_start l) (first_stats ps) (ps @ [(a, b)])"
      using slist_append [of "sess s" "sstats s" "sl_start l" "first_stats ps" ps' x y a b rx sy r st]
        sl ok snoc c new xy by (simp add: list_ok_def)
    have fs: "first_stats (ps @ [(a, b)]) = first_stats ps"
      using snoc c by (cases ps') (auto simp: first_stats_def)
    have ids: "session_ids (s\<lparr>sess := (sess s)(x \<mapsto> rx\<lparr>s_n_session := Some a\<rparr>),
          sstats := (sstats s)(y \<mapsto> sy\<lparr>st_n_stats := Some b\<rparr>)\<rparr>) (ps @ [(a, b)]) = session_ids s (ps @ [(a, b)])"
      using xy by (auto simp: session_ids_def)
    let ?s' = "s\<lparr>sess := (sess s)(x \<mapsto> rx\<lparr>s_n_session := Some a\<rparr>),
        sstats := (sstats s)(y \<mapsto> sy\<lparr>st_n_stats := Some b\<rparr>)\<rparr>"
    let ?l' = "l\<lparr>sl_end := Some a, sl_num_sessions := sl_num_sessions l + 1\<rparr>"
    have d: "distinct (map fst (ps @ [(a, b)]))" "distinct (map snd (ps @ [(a, b)]))"
      using ok new by (auto simp: list_ok_def)
    have "list_ok ?s' ?l' (ps @ [(a, b)])"
      unfolding list_ok_def using app fs ok d by (simp add: list_ok_def)
    then have "Q ?l' ?s'"
      by (rule post) (use ids xy in \<open>auto simp: same_but_links_def\<close>)
    then show ?thesis
      using st new xy ne room by (auto simp: tb_session_add_to_def wp_rules)
  qed
qed


text \<open>
  A list on which sessions were only put by \<open>tb_session_add\<close>, which numbers them from 0.
\<close>

definition registered :: "('w, 'z) tb_heap_scheme \<Rightarrow> tb_session_list_t \<Rightarrow> (nat \<times> nat) list \<Rightarrow> bool" where
  "registered s l ps \<longleftrightarrow> list_ok s l ps \<and> session_ids s ps = map int [0..<length ps] \<and>
     sl_current_max_id l = int (length ps) - 1"

lemma session_ids_append: "session_ids s (ps @ qs) = session_ids s ps @ session_ids s qs"
  by (simp add: session_ids_def)

lemma session_ids_frame: "a \<notin> fst ` set ps \<Longrightarrow> session_ids (s\<lparr>sess := (sess s)(a := x)\<rparr>) ps = session_ids s ps"
  by (force simp: session_ids_def)

lemma wp_tb_session_add:
  assumes reg: "registered s l ps" and fresh: "fresh_session s ps a b"
    and room: "in_int (int (length ps) + 1)"
    and post: "\<And>l' s' r. registered s' l' (ps @ [(a, b)]) \<Longrightarrow>
        sl_num_active_conn l' = sl_num_active_conn l \<Longrightarrow> sl_userdata l' = sl_userdata l \<Longrightarrow>
        sess s a = Some r \<Longrightarrow>
        same_but_links (s\<lparr>sess := (sess s)(a \<mapsto> r\<lparr>s_id := int (length ps)\<rparr>)\<rparr>) s' \<Longrightarrow> Q l' s'"
  shows "wp (tb_session_add l (Some a)) Q R s"
proof -
  let ?i = "int (length ps)"
  from fresh obtain r st where new: "sess s a = Some r" "s_n_session r = None" "s_stats r = Some b"
      "sstats s b = Some st" "st_n_stats st = None" "a \<notin> fst ` set ps" "b \<notin> snd ` set ps"
    by (auto simp: fresh_session_def)
  let ?s = "s\<lparr>sess := (sess s)(a \<mapsto> r\<lparr>s_id := ?i\<rparr>)\<rparr>" and ?l = "l\<lparr>sl_current_max_id := ?i\<rparr>"
  have ok: "list_ok ?s ?l ps"
    using reg new by (auto simp: registered_def list_ok_def intro: slist_frame_session)
  have fr: "fresh_session ?s ps a b" using new by (auto simp: fresh_session_def)
  have num: "sl_num_sessions l = ?i" and mx: "sl_current_max_id l = ?i - 1"
    using reg by (auto simp: registered_def list_ok_def)
  have ids: "session_ids ?s (ps @ [(a, b)]) = map int [0..<length (ps @ [(a, b)])]"
    using reg new session_ids_frame [of a ps s] by (simp add: registered_def session_ids_append) (simp add: session_ids_def)
  have "wp (tb_session_add_to ?l (Some a)) Q R ?s"
    by (rule wp_tb_session_add_to [OF ok fr])
      (use room num ids new in \<open>auto simp: registered_def intro!: post\<close>)
  with new mx room show ?thesis by (simp add: tb_session_add_def wp_rules in_int_def)
qed

text \<open>The search finds the first session with the number asked for, and changes nothing.\<close>

lemma search_loop:
  assumes "slist (sess s) (sstats s) p q ps" and "length ps \<le> fuel"
  shows "cwhile fuel
       (\<lambda>curr. if curr = None then cret False else cbind (load_session curr) (\<lambda>r. cret (s_id r \<noteq> i)))
       (\<lambda>curr. cbind (load_session curr) (\<lambda>r. cret (s_n_session r))) p s
     = Ok (map_option fst (find (\<lambda>(a, b). s_id (the (sess s a)) = i) ps)) s"
  using assms
proof (induction ps arbitrary: p q fuel)
  case Nil
  then show ?case by (subst cwhile.simps) (simp add: cbind_def cret_def)
next
  case (Cons c ps)
  obtain a b where c: "c = (a, b)" by force
  from Cons.prems(2) obtain n where n: "fuel = Suc n" "length ps \<le> n" by (cases fuel) auto
  from Cons.prems(1) c obtain r and st :: tb_prot_stats_t where a: "p = Some a" "sess s a = Some r"
      "slist (sess s) (sstats s) (s_n_session r) (st_n_stats st) ps"
    by (auto split: option.splits)
  show ?case
    using a n c Cons.IH [OF a(3) n(2)]
    by (subst cwhile.simps) (simp add: cbind_def cret_def load_session_def cderef_def cget_def)
qed

lemma tb_session_list_search_eq:
  "list_ok s l ps \<Longrightarrow> length ps \<le> fuel \<Longrightarrow> tb_session_list_search fuel l i s =
     Ok (map_option fst (find (\<lambda>(a, b). s_id (the (sess s a)) = i) ps)) s"
  unfolding tb_session_list_search_def list_ok_def
  by (rule search_loop [where q = "first_stats ps"]) auto

section \<open>Creating and destroying sessions\<close>

definition tb_create_server_session :: "('w, 'e) senv_scheme \<Rightarrow> (('w, 'z) tb_heap_scheme, nat) prog" where
  "tb_create_server_session E =
     alloc_session ((mem_session E)\<lparr>s_addr_in := Some (mem_addr E), s_addr_len := 128,
       s_status := SESSION_CREATED, s_thread := None, s_addr_hints := None, s_transfer_t := None,
       s_connect_t := None, s_stats := None, s_n_session := None, s_total_bytes := 0\<rparr>)"

definition tb_create_session :: "('w, 'e) senv_scheme \<Rightarrow> (('w, 'z) tb_heap_scheme, nat) prog" where
  "tb_create_session E =
     cbind (alloc_stats (tb_create_stats\<lparr>st_prot_data := None, st_n_stats := None\<rparr>)) (\<lambda>b.
     alloc_session ((mem_session E)\<lparr>s_addr_in := Some (mem_addr E), s_status := SESSION_CREATED,
       s_addr_info := None, s_addr_hints := None, s_addr_len := 128, s_thread := Some Thread_Block,
       s_stats := Some b, s_stat_lock := False,
       s_transfer_t := Some (tb_create_time (mem_time E) CLOCK_MONOTONIC),
       s_connect_t := Some (tb_create_time (mem_time E) CLOCK_MONOTONIC),
       s_file_name := None, s_n_session := None, s_total_bytes := 0\<rparr>))"

text \<open>
  The frees of the file name, the data, the address information and the statistics are
  commented out in the source; what is freed is the address, the thread block, the two
  timers and the session itself.
\<close>

definition tb_destroy_session :: "nat option \<Rightarrow> (('w, 'z) tb_heap_scheme, unit) prog" where
  "tb_destroy_session p =
     cdo [cassert (p \<noteq> None)]
       (cbind (load_session p) (\<lambda>r.
        case s_thread r of
          Some (Thread_Id _) \<Rightarrow> chalt (Undefined Bad_Free)
        | _ \<Rightarrow> cmod (\<lambda>s. s\<lparr>sess := (sess s)(the p := None)\<rparr>)))"

text \<open>The hints are the address family and the socket type; the address comes from the kernel.\<close>

definition tb_set_addrinfo :: "('w, 'e) senv_scheme \<Rightarrow> nat option \<Rightarrow> int \<Rightarrow> (('w, 'z) tb_heap_scheme, int) prog" where
  "tb_set_addrinfo E p type =
     cbind (load_session p) (\<lambda>r.
     if s_addr_info r = None \<and> 0 < type
     then cdo [store_session p (\<lambda>r. r\<lparr>s_addr_hints := Some (AF_INET, type)\<rparr>)]
       (cbind (cderef Null_Deref (s_address r)) (\<lambda>ad.
        cbind (cderef Null_Deref (s_port r)) (\<lambda>port.
        cbind (do_sys E (Posix (Getaddrinfo ad port type))) (\<lambda>a.
        if a_rc a \<noteq> 0 then cret (- 1)
        else cdo [store_session p (\<lambda>r. r\<lparr>s_addr_info := Some (a_addr a)\<rparr>),
                  store_session p (\<lambda>r. r\<lparr>s_status := SESSION_ADDR_RES\<rparr>)] (cret 0)))))
     else cret (- 1))"

definition tb_create_session_full ::
  "('w, 'e) senv_scheme \<Rightarrow> string \<Rightarrow> string \<Rightarrow> int \<Rightarrow> int \<Rightarrow> (('w, 'z) tb_heap_scheme, nat option) prog" where
  "tb_create_session_full E addr port sock_type data_size =
     cbind (tb_create_session E) (\<lambda>p.
     cdo [store_session (Some p) (\<lambda>r. r\<lparr>s_address := Some addr\<rparr>),
          store_session (Some p) (\<lambda>r. r\<lparr>s_port := Some port\<rparr>)]
       (cbind (tb_set_addrinfo E (Some p) sock_type) (\<lambda>rc.
        if rc = - 1 then cdo [tb_destroy_session (Some p)] (cret None)
        else cdo [cwhen (0 < data_size)
                    (cbind (cmalloc E data_size) (\<lambda>d.
                     store_session (Some p) (\<lambda>r. r\<lparr>s_data := d, s_data_size := data_size, s_int_data := 1\<rparr>)))]
               (cret (Some p)))))"

text \<open>Printing the times reads both timers; the text goes to standard output.\<close>

definition tb_print_times :: "nat option \<Rightarrow> (('w, 'z) tb_heap_scheme, unit) prog" where
  "tb_print_times p =
     cbind (load_session p) (\<lambda>r.
     cbind (cderef Null_Deref (s_connect_t r)) (\<lambda>_.
     cbind (cderef Null_Deref (s_transfer_t r)) (\<lambda>_. cret ())))"

definition tb_gen_log_str :: "int \<Rightarrow> string \<Rightarrow> string" where
  "tb_gen_log_str i info = snprintf 50 (''Session '' @ show_int i @ '': '' @ info)"

definition tb_log_session_info ::
  "('w, 'e) senv_scheme \<Rightarrow> nat option \<Rightarrow> string \<Rightarrow> tb_log_type_t \<Rightarrow> int \<Rightarrow> (('w, 'z) tb_heap_scheme, unit) prog" where
  "tb_log_session_info E p info ty err_no =
     cbind (load_session p) (\<lambda>r.
     let log_str = tb_gen_log_str (s_id r) info in
     case ty of
       LOG_INFO \<Rightarrow> tb_log_info E (s_log_info r) (s_log_enabled r) log_str ty
     | LOG_ACK \<Rightarrow> tb_log_info E (s_log_info r) (s_log_enabled r) log_str ty
     | LOG_ERR \<Rightarrow> tb_log_error_no E (s_log_info r) (s_log_enabled r) log_str err_no)"

text \<open>A timer of a session.\<close>

definition start_timer ::
  "('w, 'e) senv_scheme \<Rightarrow> nat option \<Rightarrow> (tb_session_t \<Rightarrow> tb_time_t option) \<Rightarrow>
   (tb_time_t \<Rightarrow> tb_session_t \<Rightarrow> tb_session_t) \<Rightarrow> (('w, 'z) tb_heap_scheme, unit) prog" where
  "start_timer E p get put =
     cbind (load_session p) (\<lambda>r. cbind (cderef Null_Deref (get r)) (\<lambda>t.
     cbind (tb_start_time E t) (\<lambda>t'. store_session p (put t'))))"

definition finish_timer ::
  "('w, 'e) senv_scheme \<Rightarrow> nat option \<Rightarrow> (tb_session_t \<Rightarrow> tb_time_t option) \<Rightarrow>
   (tb_time_t \<Rightarrow> tb_session_t \<Rightarrow> tb_session_t) \<Rightarrow> (('w, 'z) tb_heap_scheme, unit) prog" where
  "finish_timer E p get put =
     cbind (load_session p) (\<lambda>r. cbind (cderef Null_Deref (get r)) (\<lambda>t.
     cbind (tb_finish_time E t) (\<lambda>t'. store_session p (put t'))))"


section \<open>Properties\<close>

text \<open>C23: the list of sessions is what it should be. Adding an allocated session that is not
  on the list appends it, keeps the two linked lists of sessions and of statistics in step,
  numbers the session with the next number, and touches nothing but the links; the numbers
  are then 0, 1, 2 and so on.\<close>

theorem session_add_appends:
  assumes "registered s l ps" and "fresh_session s ps a b" and "in_int (int (length ps) + 1)"
  shows "\<exists>l' s' r. tb_session_add l (Some a) s = Ok l' s' \<and> registered s' l' (ps @ [(a, b)]) \<and>
    sess s a = Some r \<and>
    same_but_links (s\<lparr>sess := (sess s)(a \<mapsto> r\<lparr>s_id := int (length ps)\<rparr>)\<rparr>) s' \<and>
    sl_num_active_conn l' = sl_num_active_conn l"
proof -
  have "wp (tb_session_add l (Some a)) (\<lambda>l' s'. registered s' l' (ps @ [(a, b)]) \<and>
      (\<exists>r. sess s a = Some r \<and> same_but_links (s\<lparr>sess := (sess s)(a \<mapsto> r\<lparr>s_id := int (length ps)\<rparr>)\<rparr>) s') \<and>
      sl_num_active_conn l' = sl_num_active_conn l) (\<lambda>_ _. False) s"
    by (rule wp_tb_session_add [OF assms]) auto
  then show ?thesis unfolding wp_returns by blast
qed

text \<open>C24: the search returns. On a list of numbered sessions it finds, in at most as many steps
  as the list is long, the session with the number asked for, and answers null exactly for
  the numbers no session has; it changes nothing.\<close>

theorem session_search_finds:
  assumes "registered s l ps" and "length ps \<le> fuel"
  shows "tb_session_list_search fuel l i s =
    Ok (if 0 \<le> i \<and> i < int (length ps) then Some (fst (ps ! nat i)) else None) s"
proof -
  have ok: "list_ok s l ps" and ids: "session_ids s ps = map int [0..<length ps]"
    using assms(1) by (auto simp: registered_def)
  have nth: "s_id (the (sess s (fst (ps ! k)))) = int k" if "k < length ps" for k
  proof -
    have "session_ids s ps ! k = s_id (the (sess s (fst (ps ! k))))"
      using that by (simp add: session_ids_def split_beta)
    with that ids show ?thesis by simp
  qed
  have "find (\<lambda>(a, b). s_id (the (sess s a)) = i) ps =
      (if 0 \<le> i \<and> i < int (length ps) then Some (ps ! nat i) else None)"
  proof (cases "0 \<le> i \<and> i < int (length ps)")
    case True
    then obtain n where n: "i = int n" "n < length ps" by (metis nonneg_int_cases of_nat_less_iff)
    have before: "s_id (the (sess s (fst (ps ! j)))) \<noteq> int n" if "j < n" for j
      using nth [of j] that n by simp
    have "find (\<lambda>(a, b). s_id (the (sess s a)) = i) ps = Some (ps ! n)"
      unfolding find_Some_iff using n nth [of n] before by (intro exI [of _ n]) (simp add: split_beta)
    with n show ?thesis by simp
  next
    case False
    have "find (\<lambda>(a, b). s_id (the (sess s a)) = i) ps = None"
    proof (rule ccontr)
      assume "\<not> ?thesis"
      then obtain k where "k < length ps" "s_id (the (sess s (fst (ps ! k)))) = i"
        by (auto simp: find_Some_iff split_beta)
      with nth [of k] False show False by simp
    qed
    with False show ?thesis by simp
  qed
  then show ?thesis using tb_session_list_search_eq [OF ok assms(2), of i] by simp
qed

text \<open>C37: creating a session with an address never goes wrong in the program itself: it returns
  null when the address does not resolve, with the session freed again, and otherwise a new
  session, with its address resolved, that is ready to be put on a list.\<close>

theorem session_full_creation:
  assumes "0 < sock_type"
  shows "\<exists>q s'. tb_create_session_full E addr port sock_type data_size s = Ok q s' \<and>
    (case q of
       None \<Rightarrow> sess s' (brk s + 1) = None
     | Some p \<Rightarrow> \<exists>r. p = brk s + 1 \<and> sess s' p = Some r \<and> s_status r = SESSION_ADDR_RES \<and>
         s_addr_info r \<noteq> None \<and> s_address r = Some addr \<and> s_port r = Some port \<and>
         s_total_bytes r = 0 \<and> s_n_session r = None \<and> s_stats r = Some (brk s) \<and>
         sstats s' (brk s) = Some tb_create_stats) \<and>
    (\<forall>c. c \<noteq> brk s + 1 \<longrightarrow> sess s' c = sess s c) \<and> (\<forall>c. c \<noteq> brk s \<longrightarrow> sstats s' c = sstats s c)"
proof -
  have "wp (tb_create_session_full E addr port sock_type data_size) (\<lambda>q s'.
    (case q of
       None \<Rightarrow> sess s' (brk s + 1) = None
     | Some p \<Rightarrow> \<exists>r. p = brk s + 1 \<and> sess s' p = Some r \<and> s_status r = SESSION_ADDR_RES \<and>
         s_addr_info r \<noteq> None \<and> s_address r = Some addr \<and> s_port r = Some port \<and>
         s_total_bytes r = 0 \<and> s_n_session r = None \<and> s_stats r = Some (brk s) \<and>
         sstats s' (brk s) = Some tb_create_stats) \<and>
    (\<forall>c. c \<noteq> brk s + 1 \<longrightarrow> sess s' c = sess s c) \<and> (\<forall>c. c \<noteq> brk s \<longrightarrow> sstats s' c = sstats s c)) (\<lambda>_ _. False) s"
    using assms
    by (auto simp: tb_create_session_full_def tb_create_session_def tb_set_addrinfo_def
        tb_destroy_session_def wp_rules tb_create_stats_def split: prod.splits)
  then show ?thesis unfolding wp_returns .
qed

end
