(* ===== verification/TB_Try_Lock.thy ===== *)
theory TB_Try_Lock
  imports TB_Prelude
begin

text \<open>
  Threads step by step, and the locks they share. The program takes most of its locks with
  \<open>pthread_mutex_trylock\<close> and goes on whether it got the lock or not. The locale says what the
  steps of such threads do to a lock, and proves once that in a run in which every try gets the
  lock no two threads are between their lock and their unlock.
\<close>

section \<open>Runs\<close>

fun run :: "('s \<Rightarrow> 'e \<Rightarrow> 's \<Rightarrow> bool) \<Rightarrow> 's \<Rightarrow> 'e list \<Rightarrow> 's \<Rightarrow> bool" where
  "run step s [] s' \<longleftrightarrow> s' = s"
| "run step s (e # es) s' \<longleftrightarrow> (\<exists>t. step s e t \<and> run step t es s')"

lemma run_append: "run step s es t \<Longrightarrow> run step t es' s' \<Longrightarrow> run step s (es @ es') s'"
  by (induction es arbitrary: s) auto

lemma run_Nil: "P s \<Longrightarrow> \<exists>s'. run step s [] s' \<and> P s'"
  by simp

lemma run_Cons: "step s e t \<Longrightarrow> \<exists>s'. run step t es s' \<and> P s' \<Longrightarrow> \<exists>s'. run step s (e # es) s' \<and> P s'"
  by auto

lemma run_keeps:
  assumes "run step s es s'" and "\<forall>e\<in>set es. P e" and "I s"
    and "\<And>s e s'. step s e s' \<Longrightarrow> P e \<Longrightarrow> I s \<Longrightarrow> I s'"
  shows "I s'"
  using assms(1-3) by (induction es arbitrary: s) (auto intro: assms(4))


section \<open>Mutual exclusion\<close>

text \<open>The lock is held exactly while some thread is inside, and then one thread is.\<close>

definition exclusive :: "('s \<Rightarrow> 't \<Rightarrow> bool) \<Rightarrow> ('s \<Rightarrow> bool) \<Rightarrow> 's \<Rightarrow> bool" where
  "exclusive holds locked s \<longleftrightarrow>
     (locked s \<longleftrightarrow> (\<exists>x. holds s x)) \<and> (\<forall>x y. holds s x \<longrightarrow> holds s y \<longrightarrow> y = x)"

lemma exclusiveD:
  assumes "exclusive holds locked s"
  shows "holds s x \<Longrightarrow> locked s" "holds s x \<Longrightarrow> holds s y \<Longrightarrow> y = x"
  using assms by (auto simp: exclusive_def)

text \<open>A step leaves the lock alone, or is that of a thread that takes it, or of one that gives it back.\<close>

definition lock_step :: "('s \<Rightarrow> 't \<Rightarrow> bool) \<Rightarrow> ('s \<Rightarrow> bool) \<Rightarrow> 's \<Rightarrow> 's \<Rightarrow> bool" where
  "lock_step holds locked s s' \<longleftrightarrow>
     (\<forall>x. holds s' x = holds s x) \<and> locked s' = locked s \<or>
     (\<exists>x. \<not> locked s \<and> locked s' \<and> (\<forall>y. holds s' y \<longleftrightarrow> y = x \<or> holds s y)) \<or>
     (\<exists>x. holds s x \<and> \<not> locked s' \<and> (\<forall>y. holds s' y \<longleftrightarrow> y \<noteq> x \<and> holds s y))"

lemma lock_keeps: "\<forall>x. holds s' x \<longleftrightarrow> holds s x \<Longrightarrow> locked s' = locked s \<Longrightarrow> lock_step holds locked s s'"
  by (simp add: lock_step_def)

lemma lock_acquires:
  "\<not> locked s \<Longrightarrow> \<forall>y. holds s' y \<longleftrightarrow> y = x \<or> holds s y \<Longrightarrow> locked s' \<Longrightarrow> lock_step holds locked s s'"
  unfolding lock_step_def by blast

lemma lock_releases:
  "holds s x \<Longrightarrow> \<forall>y. holds s' y \<longleftrightarrow> y \<noteq> x \<and> holds s y \<Longrightarrow> \<not> locked s' \<Longrightarrow> lock_step holds locked s s'"
  unfolding lock_step_def by blast

locale try_lock =
  fixes step :: "'s \<Rightarrow> 'e \<Rightarrow> 's \<Rightarrow> bool"
    and holds :: "'s \<Rightarrow> 't \<Rightarrow> bool"
    and locked :: "'s \<Rightarrow> bool"
    and misses :: "'e \<Rightarrow> bool"
  assumes steps_lock: "step s e s' \<Longrightarrow> \<not> misses e \<Longrightarrow> lock_step holds locked s s'"
begin

lemma step_exclusive:
  assumes "step s e s'" and "\<not> misses e" and "exclusive holds locked s"
  shows "exclusive holds locked s'"
  using steps_lock [OF assms(1,2)] assms(3) unfolding lock_step_def exclusive_def by metis

lemma run_exclusive:
  assumes "run step s es s'" and "\<forall>e\<in>set es. \<not> misses e" and "exclusive holds locked s"
  shows "exclusive holds locked s'"
  using run_keeps [where I = "exclusive holds locked" and P = "\<lambda>e. \<not> misses e"] assms step_exclusive by metis

end

end
