(* ===== verification/TB_Counter.thy ===== *)
theory TB_Counter
  imports TB_Session TB_Try_Lock
begin

text \<open>
  The counter of active connections under concurrency (\<open>tb_session_list_inc\<close> and
  \<open>tb_session_list_dec\<close> in \<open>src/src/tb_session.c\<close>). The threads of the sessions of a
  multi-connection server share the counter and its lock; the last one to count down is to
  tell the listener to exit. Here each function is the sequence of accesses it makes to shared
  memory: try the lock, load the counter, store the changed value, unlock. The result of
  \<open>pthread_mutex_trylock\<close> is dropped, so a thread that does not get the lock goes on all the
  same, and its unlock releases a lock another thread holds.
\<close>

section \<open>Steps\<close>

datatype nac_pc = Idle | Call | Locked | Loaded int | Stored int | Returned int

record nac_state =
  nac_num :: int
  nac_held :: bool
  nac_pc :: "nat \<Rightarrow> nac_pc"

text \<open>What a step did, and whether a try of the lock succeeded.\<close>

datatype nac_event = Ev_trylock nat bool | Ev_load nat | Ev_store nat | Ev_unlock nat

text \<open>\<open>op i\<close> is what thread \<open>i\<close> adds: 1 in \<open>tb_session_list_inc\<close>, -1 in \<open>tb_session_list_dec\<close>.\<close>

inductive nac_step :: "(nat \<Rightarrow> int) \<Rightarrow> nac_state \<Rightarrow> nac_event \<Rightarrow> nac_state \<Rightarrow> bool" for op where
  trylock: "nac_pc s i = Call \<Longrightarrow>
    nac_step op s (Ev_trylock i (\<not> nac_held s)) (s\<lparr>nac_held := True, nac_pc := (nac_pc s)(i := Locked)\<rparr>)"
| load: "nac_pc s i = Locked \<Longrightarrow>
    nac_step op s (Ev_load i) (s\<lparr>nac_pc := (nac_pc s)(i := Loaded (nac_num s))\<rparr>)"
| store: "nac_pc s i = Loaded v \<Longrightarrow> in_int (v + op i) \<Longrightarrow>
    nac_step op s (Ev_store i) (s\<lparr>nac_num := v + op i, nac_pc := (nac_pc s)(i := Stored (v + op i))\<rparr>)"
| unlock: "nac_pc s i = Stored r \<Longrightarrow>
    nac_step op s (Ev_unlock i) (s\<lparr>nac_held := False, nac_pc := (nac_pc s)(i := Returned r)\<rparr>)"

inductive_simps nac_step_simps [simp]:
  "nac_step op s (Ev_trylock i b) s'"
  "nac_step op s (Ev_load i) s'"
  "nac_step op s (Ev_store i) s'"
  "nac_step op s (Ev_unlock i) s'"

abbreviation nac_run :: "(nat \<Rightarrow> int) \<Rightarrow> nac_state \<Rightarrow> nac_event list \<Rightarrow> nac_state \<Rightarrow> bool" where
  "nac_run op \<equiv> run (nac_step op)"

fun misses_try :: "nac_event \<Rightarrow> bool" where
  "misses_try (Ev_trylock i got) = (\<not> got)"
| "misses_try _ = False"

definition uncontended :: "nac_event list \<Rightarrow> bool" where
  "uncontended es \<longleftrightarrow> (\<forall>e\<in>set es. \<not> misses_try e)"

text \<open>\<open>n\<close> connections are counted, and their \<open>n\<close> threads are about to count down.\<close>

definition nac_start :: "nat \<Rightarrow> nac_state" where
  "nac_start n = \<lparr>nac_num = int n, nac_held = False, nac_pc = (\<lambda>i. if i < n then Call else Idle)\<rparr>"

definition nac_dec :: "nat \<Rightarrow> int" where
  "nac_dec i = - 1"


section \<open>The invariant of runs in which the lock is always got\<close>

definition critical :: "nac_pc \<Rightarrow> bool" where
  "critical p \<longleftrightarrow> (case p of Locked \<Rightarrow> True | Loaded _ \<Rightarrow> True | Stored _ \<Rightarrow> True | _ \<Rightarrow> False)"

definition nac_ret :: "nac_pc \<Rightarrow> int option" where
  "nac_ret p = (case p of Stored r \<Rightarrow> Some r | Returned r \<Rightarrow> Some r | _ \<Rightarrow> None)"

definition nac_done :: "nac_state \<Rightarrow> nat set" where
  "nac_done s = {i. nac_ret (nac_pc s i) \<noteq> None}"

text \<open>Mutual exclusion, and what the threads know; and what they have been told.\<close>

abbreviation nac_excl :: "nac_state \<Rightarrow> bool" where
  "nac_excl \<equiv> exclusive (\<lambda>s i. critical (nac_pc s i)) nac_held"

definition nac_known :: "nat \<Rightarrow> nac_state \<Rightarrow> bool" where
  "nac_known n s \<longleftrightarrow> (\<forall>i v. nac_pc s i = Loaded v \<longrightarrow> v = nac_num s) \<and> (\<forall>i. nac_pc s i = Idle \<longleftrightarrow> n \<le> i)"

definition nac_told :: "nat \<Rightarrow> nac_state \<Rightarrow> bool" where
  "nac_told n s \<longleftrightarrow> nac_num s \<le> int n \<and>
     bij_betw (\<lambda>i. the (nac_ret (nac_pc s i))) (nac_done s) {nac_num s..<int n}"

lemma critical_simps [simp]:
  "\<not> critical Idle" "\<not> critical Call" "critical Locked" "critical (Loaded v)" "critical (Stored r)"
  "\<not> critical (Returned r)"
  by (simp_all add: critical_def)

lemma nac_ret_simps [simp]:
  "nac_ret Idle = None" "nac_ret Call = None" "nac_ret Locked = None" "nac_ret (Loaded v) = None"
  "nac_ret (Stored r) = Some r" "nac_ret (Returned r) = Some r"
  by (simp_all add: nac_ret_def)

lemma nac_start_inv: "nac_excl (nac_start n)" "nac_known n (nac_start n)" "nac_told n (nac_start n)"
  by (auto simp: exclusive_def nac_known_def nac_told_def nac_done_def nac_start_def bij_betw_def split: if_splits)

interpretation nac: try_lock "nac_step op" "\<lambda>s i. critical (nac_pc s i)" nac_held misses_try for op
proof
  fix s e s' assume "nac_step op s e s'" and "\<not> misses_try e"
  then show "lock_step (\<lambda>s i. critical (nac_pc s i)) nac_held s s'"
  proof cases
    case (trylock i)
    then show ?thesis using \<open>\<not> misses_try e\<close> by (intro lock_acquires [of _ _ _ _ i]) auto
  next
    case (unlock i r)
    then show ?thesis by (intro lock_releases [of _ _ i]) auto
  qed (auto split: if_splits intro!: lock_keeps)
qed

lemma nac_known_step:
  assumes inv: "nac_known n s" and excl: "nac_excl s" and step: "nac_step nac_dec s e s'"
  shows "nac_known n s'"
proof -
  have known: "n \<le> i \<longleftrightarrow> nac_pc s i = Idle" "nac_pc s i = Loaded v \<Longrightarrow> v = nac_num s" for i v
    using inv by (auto simp: nac_known_def)
  from step show ?thesis
  proof cases
    case (store i v)
    have "nac_pc s j \<noteq> Loaded w" if "j \<noteq> i" for j w using exclusiveD(2) [OF excl, of i j] store that by auto
    then show ?thesis using store by (auto simp: nac_known_def known(1))
  qed (auto simp: nac_known_def known)
qed

lemma nac_told_quiet:
  assumes "nac_told n s" and "nac_ret (nac_pc s i) = nac_ret p"
    and "s' = s\<lparr>nac_held := h, nac_pc := (nac_pc s)(i := p)\<rparr>"
  shows "nac_told n s'"
proof -
  have eq: "nac_ret (nac_pc s' j) = nac_ret (nac_pc s j)" for j using assms(2,3) by simp
  have "nac_num s' = nac_num s" using assms(3) by simp
  with assms(1) show ?thesis by (simp add: nac_told_def nac_done_def eq)
qed

lemma nac_told_step:
  assumes inv: "nac_told n s" and known: "nac_known n s" and step: "nac_step nac_dec s e s'"
  shows "nac_told n s'"
  using step
proof cases
  case (trylock i)
  then show ?thesis by (intro nac_told_quiet [OF inv]) auto
next
  case (load i)
  then show ?thesis by (intro nac_told_quiet [OF inv, of i "Loaded (nac_num s)" s' "nac_held s"]) auto
next
  case (unlock i r)
  then show ?thesis by (intro nac_told_quiet [OF inv, of i "Returned r"]) auto
next
  case (store i v)
  let ?m = "nac_num s" and ?f = "\<lambda>j. the (nac_ret (nac_pc s j))"
  have v: "v = ?m" and le: "?m \<le> int n" and bij: "bij_betw ?f (nac_done s) {?m..<int n}"
    using inv known store by (auto simp: nac_told_def nac_known_def)
  have new: "i \<notin> nac_done s" using store by (simp add: nac_done_def nac_ret_def)
  have "bij_betw (?f(i := ?m - 1)) (insert i (nac_done s)) (insert (?m - 1) {?m..<int n})"
  proof -
    have "bij_betw (?f(i := ?m - 1)) (nac_done s) {?m..<int n}"
      using bij new by (subst bij_betw_cong [where g = ?f]) auto
    then show ?thesis
      using notIn_Un_bij_betw [of i "nac_done s" "?f(i := ?m - 1)" "{?m..<int n}"] new by simp
  qed
  moreover have "insert (?m - 1) {?m..<int n} = {?m - 1..<int n}" using le by auto
  moreover have "nac_done s' = insert i (nac_done s)" using store by (auto simp: nac_done_def nac_ret_def)
  moreover have "(\<lambda>j. the (nac_ret (nac_pc s' j))) = ?f(i := ?m - 1)"
    using store v by (auto simp: nac_ret_def nac_dec_def)
  ultimately show ?thesis
    using store v le by (simp add: nac_told_def nac_dec_def)
qed

lemma nac_inv_run:
  assumes "nac_run nac_dec s es s'" and "uncontended es" and "nac_excl s \<and> nac_known n s \<and> nac_told n s"
  shows "nac_excl s' \<and> nac_known n s' \<and> nac_told n s'"
  using assms unfolding uncontended_def
  by (rule run_keeps) (blast intro: nac.step_exclusive nac_known_step nac_told_step)


section \<open>Properties\<close>

text \<open>One call by itself. When no other thread runs in between, the accesses of the two
  counting functions have the result the functions have as ordinary C functions: the counter
  and the value returned are the old count plus or minus 1, and the lock is free.\<close>

theorem counter_steps_sequential:
  assumes "nac_pc s i = Call" and "nac_num s = sl_num_active_conn l" and "nac_held s = sl_nac_lock l"
    and "in_int (sl_num_active_conn l + 1)" and "in_int (sl_num_active_conn l - 1)"
    and "count = (if inc then tb_session_list_inc else tb_session_list_dec)"
  shows "\<exists>r l' s' b. count l t = Ok (r, l') t \<and>
    nac_run (\<lambda>_. if inc then 1 else - 1) s [Ev_trylock i b, Ev_load i, Ev_store i, Ev_unlock i] s' \<and>
    nac_pc s' i = Returned r \<and> nac_num s' = sl_num_active_conn l' \<and> nac_held s' = sl_nac_lock l' \<and>
    l' = l\<lparr>sl_num_active_conn := r, sl_nac_lock := False\<rparr>"
  using assms
  by (cases inc) (auto simp: tb_session_list_inc_def tb_session_list_dec_def Let_def cbind_def cint_def cret_def)

text \<open>C29: the lock does not lock. Two threads that end the last two connections can both read the
  count 2, both store 1 and both return 1. All calls have returned then, no one has seen 0, so
  no one sets the exit command, and the server waits on.\<close>

theorem counter_lost_update:
  "\<exists>es s'. nac_run nac_dec (nac_start 2) es s' \<and> nac_pc s' 0 = Returned 1 \<and> nac_pc s' 1 = Returned 1 \<and>
     nac_num s' = 1 \<and> (\<forall>i. nac_pc s' i \<noteq> Returned 0)"
  by (rule exI [of _ "[Ev_trylock 0 True, Ev_trylock 1 False, Ev_load 0, Ev_load 1, Ev_store 0,
        Ev_store 1, Ev_unlock 0, Ev_unlock 1]"])
    (auto simp: nac_start_def nac_dec_def in_int_def)

text \<open>C22: as long as every try of the lock succeeds, the counting is right in every interleaving of
  any number of threads: no two are between lock and unlock at once, and when the threads of
  all \<open>n\<close> connections have counted down, the count is 0 and exactly one of them was told so.\<close>

theorem counter_exact_when_uncontended:
  assumes "nac_run nac_dec (nac_start n) es s" and "uncontended es" and "0 < n"
  shows "(\<forall>i j. critical (nac_pc s i) \<and> critical (nac_pc s j) \<longrightarrow> i = j) \<and>
    ((\<forall>i<n. \<exists>r. nac_pc s i = Returned r) \<longrightarrow>
       nac_num s = 0 \<and> (\<exists>!i. i < n \<and> nac_pc s i = Returned 0))"
proof (intro conjI impI)
  have inv: "nac_excl s" "nac_known n s" "nac_told n s"
    using nac_inv_run [OF assms(1,2)] nac_start_inv by blast+
  then show "\<forall>i j. critical (nac_pc s i) \<and> critical (nac_pc s j) \<longrightarrow> i = j"
    unfolding exclusive_def by blast
  assume ret: "\<forall>i<n. \<exists>r. nac_pc s i = Returned r"
  have idle: "n \<le> i \<Longrightarrow> nac_pc s i = Idle" for i using inv by (auto simp: nac_known_def)
  have "i \<in> nac_done s \<longleftrightarrow> i < n" for i
    using ret idle [of i] by (cases "i < n") (auto simp: nac_done_def nac_ret_def)
  then have all: "nac_done s = {..<n}" by auto
  let ?f = "\<lambda>i. the (nac_ret (nac_pc s i))"
  have bij: "bij_betw ?f {..<n} {nac_num s..<int n}" using inv(3) all by (simp add: nac_told_def)
  from bij_betw_same_card [OF bij] assms(3) show zero: "nac_num s = 0" by simp
  have val: "?f i = r \<longleftrightarrow> nac_pc s i = Returned r" if "i < n" for i r
    using ret that by (auto simp: nac_ret_def)
  have "0 \<in> ?f ` {..<n}" using bij zero assms(3) by (simp add: bij_betw_def)
  then obtain i where i: "i < n" "?f i = 0" by auto
  moreover have "j = i" if "j < n" "?f j = 0" for j
    using bij i that by (auto simp: bij_betw_def inj_on_def)
  ultimately show "\<exists>!i. i < n \<and> nac_pc s i = Returned 0" using val by metis
qed


section \<open>Witnesses\<close>

definition one_conn :: tb_session_list_t where
  "one_conn = \<lparr>sl_current_max_id = 0, sl_num_sessions = 1, sl_start = Some 1, sl_end = Some 1,
     sl_num_active_conn = 1, sl_nac_lock = False, sl_userdata = Some Ref_command\<rparr>"

theorem counter_steps_sequential_witness:
  "\<exists>r l' s' b. tb_session_list_dec one_conn () = Ok (r, l') () \<and>
    nac_run (\<lambda>_. - 1) (nac_start 1) [Ev_trylock 0 b, Ev_load 0, Ev_store 0, Ev_unlock 0] s' \<and>
    nac_pc s' 0 = Returned r \<and> nac_num s' = sl_num_active_conn l' \<and> nac_held s' = sl_nac_lock l' \<and>
    l' = one_conn\<lparr>sl_num_active_conn := r, sl_nac_lock := False\<rparr>"
proof -
  have start: "nac_pc (nac_start 1) 0 = Call" "nac_num (nac_start 1) = sl_num_active_conn one_conn"
      "nac_held (nac_start 1) = sl_nac_lock one_conn"
      "in_int (sl_num_active_conn one_conn + 1)" "in_int (sl_num_active_conn one_conn - 1)"
    by (simp_all add: nac_start_def one_conn_def in_int_def)
  show ?thesis
    using counter_steps_sequential [OF start, where inc = False and count = tb_session_list_dec and t = "()"]
    by simp
qed

theorem counter_exact_when_uncontended_witness:
  "\<exists>es s. nac_run nac_dec (nac_start 2) es s \<and> uncontended es \<and> nac_pc s 0 = Returned 1 \<and>
     nac_num s = 0 \<and> (\<exists>!i. i < 2 \<and> nac_pc s i = Returned 0)"
proof -
  let ?es = "[Ev_trylock 0 True, Ev_load 0, Ev_store 0, Ev_unlock 0,
      Ev_trylock 1 True, Ev_load 1, Ev_store 1, Ev_unlock 1]"
  have "\<exists>s. nac_run nac_dec (nac_start 2) ?es s \<and> nac_pc s 0 = Returned 1 \<and> nac_pc s 1 = Returned 0"
    by (simp add: nac_start_def nac_dec_def in_int_def)
  then obtain s where s: "nac_run nac_dec (nac_start 2) ?es s" "nac_pc s 0 = Returned 1" "nac_pc s 1 = Returned 0"
    by blast
  have un: "uncontended ?es" by (simp add: uncontended_def)
  have "\<forall>i<2. \<exists>r. nac_pc s i = Returned r" using s by (auto simp: less_2_cases_iff)
  then have "nac_num s = 0 \<and> (\<exists>!i. i < 2 \<and> nac_pc s i = Returned 0)"
    using conjunct2 [OF counter_exact_when_uncontended [OF s(1) un]] by simp
  then show ?thesis using s un by blast
qed

end
