(* ===== verification/TB_Epoll.thy ===== *)
theory TB_Epoll
  imports TB_Session
begin

text \<open>
  Event polling (\<open>src/src/tb_epoll.h\<close>, \<open>src/src/tb_epoll.c\<close>). An epoll instance holds one
  set of flags and one data block, those of the socket it was created with, and every socket
  that is added is registered with a copy of them; so the callback is given the data block of
  the first socket whichever socket has the event. The callback is an argument of the poll.
\<close>

section \<open>State\<close>

definition EPOLLIN :: int where "EPOLLIN = 1"
definition EPOLLHUP :: int where "EPOLLHUP = 16"
definition EPOLLET :: int where "EPOLLET = - 2147483648"
definition O_NONBLOCK :: int where "O_NONBLOCK = 2048"

definition event_defaults :: int where
  "event_defaults = EPOLLIN OR EPOLLET"

text \<open>The user data of a socket: \<open>data\<close> is the listener, of which there is one.\<close>

record tb_e_data =
  ed_fd :: int

record tb_epoll_t =
  ep_e_id :: int
  ep_w_time :: int
  ep_max_events :: int
  ep_sock_d :: int
  ep_grp_events :: int
  ep_grp_data :: tb_e_data
  ep_events :: "int list"
  ep_f_event :: "func_event option"


section \<open>Operations\<close>

definition tb_destroy_epoll :: "('w, 'e) env_scheme \<Rightarrow> tb_epoll_t \<Rightarrow> (('w, 'z) machine_scheme, unit) prog" where
  "tb_destroy_epoll E ep = cvoid (do_sys E (Posix (Close (ep_e_id ep))))"

definition tb_add_socket :: "('w, 'e) env_scheme \<Rightarrow> tb_epoll_t \<Rightarrow> int \<Rightarrow> (('w, 'z) machine_scheme, int) prog" where
  "tb_add_socket E ep sock_d =
     cbind (do_sys E (Posix (Fcntl_getfl sock_d))) (\<lambda>g.
     if a_rc g = - 1 then cret (- 1)
     else cbind (do_sys E (Posix (Fcntl_setfl sock_d (a_rc g OR O_NONBLOCK)))) (\<lambda>r.
       if a_rc r = - 1 then cret (- 1)
       else cbind (do_sys E (Posix (Epoll_add (ep_e_id ep) sock_d))) (\<lambda>c.
         if a_rc c = - 1 then cret (- 1) else cret 0)))"

text \<open>Fresh memory has contents \<open>m\<close>; the events are zeroed by \<open>calloc\<close>.\<close>

definition tb_create_e_poll ::
  "('w, 'e) env_scheme \<Rightarrow> tb_epoll_t \<Rightarrow> int \<Rightarrow> int \<Rightarrow> int \<Rightarrow> (('w, 'z) machine_scheme, tb_epoll_t option) prog" where
  "tb_create_e_poll E m sock_d max_events grp_events =
     cbind (do_sys E (Posix Epoll_create)) (\<lambda>c.
     if a_rc c = - 1 then cret None
     else let ep = m\<lparr>ep_e_id := a_rc c, ep_max_events := max_events,
                    ep_events := replicate (nat max_events) 0,
                    ep_grp_events := (if grp_events = 0 then event_defaults else 0),
                    ep_grp_data := \<lparr>ed_fd = sock_d\<rparr>\<rparr>
       in cbind (tb_add_socket E ep sock_d) (\<lambda>rc.
          if rc = - 1 then cdo [tb_destroy_epoll E ep] (cret None) else cret (Some ep)))"

text \<open>
  The loop over the \<open>k\<close> events left, from index \<open>i\<close>. The test for a hang-up reads
  \<open>events[1]\<close>, not the event at hand.
\<close>

fun tb_poll_loop ::
  "(int \<Rightarrow> tb_e_data \<Rightarrow> ('s, int) prog) \<Rightarrow> tb_epoll_t \<Rightarrow> nat \<Rightarrow> nat \<Rightarrow> ('s, int) prog" where
  "tb_poll_loop f_event ep i 0 = cret 0"
| "tb_poll_loop f_event ep i (Suc k) =
     (if length (ep_events ep) \<le> i then chalt (Undefined Out_Of_Bounds)
      else if ep_events ep ! i AND EPOLLIN \<noteq> 0
      then cdo [cvoid (f_event (ep_events ep ! i) (ep_grp_data ep))] (tb_poll_loop f_event ep (i + 1) k)
      else if length (ep_events ep) \<le> 1 then chalt (Undefined Out_Of_Bounds)
      else if ep_events ep ! 1 AND EPOLLHUP \<noteq> 0 then cret 1 else cret (- 1))"

definition tb_poll_for_events ::
  "('w, 'e) env_scheme \<Rightarrow> (func_event \<Rightarrow> int \<Rightarrow> tb_e_data \<Rightarrow> (('w, 'z) machine_scheme, int) prog) \<Rightarrow>
   tb_epoll_t \<Rightarrow> (('w, 'z) machine_scheme, int \<times> tb_epoll_t) prog" where
  "tb_poll_for_events E call ep =
     cbind (do_sys E (Posix (Epoll_wait (ep_e_id ep) (ep_max_events ep) (ep_w_time ep)))) (\<lambda>a.
     let ep1 = ep\<lparr>ep_events := overwrite (a_events a) (ep_events ep)\<rparr> in
     cbind (tb_poll_loop (\<lambda>ev d. case ep_f_event ep1 of None \<Rightarrow> chalt (Undefined Null_Call)
                                 | Some f \<Rightarrow> call f ev d) ep1 0 (nat (a_rc a)))
       (\<lambda>rc. cret (rc, ep1)))"


section \<open>What polling does\<close>

text \<open>The callback, run once for each of a list of events, in order.\<close>

fun run_callbacks :: "(int \<Rightarrow> ('s, int) prog) \<Rightarrow> int list \<Rightarrow> ('s, unit) prog" where
  "run_callbacks f [] = cret ()"
| "run_callbacks f (e # es) = cdo [cvoid (f e)] (run_callbacks f es)"

text \<open>The events before the first that cannot be read.\<close>

definition readable :: "int \<Rightarrow> bool" where
  "readable e \<longleftrightarrow> e AND EPOLLIN \<noteq> 0"

definition poll_verdict :: "int list \<Rightarrow> int list \<Rightarrow> int" where
  "poll_verdict evs mem = (if \<forall>e\<in>set evs. readable e then 0
     else if mem ! 1 AND EPOLLHUP \<noteq> 0 then 1 else - 1)"

lemma poll_verdict_readable: "readable e \<Longrightarrow> poll_verdict (e # es) mem = poll_verdict es mem"
  by (simp add: poll_verdict_def)

lemma tb_poll_loop_eq:
  assumes "i + k \<le> length (ep_events ep)" and "2 \<le> length (ep_events ep)"
  shows "tb_poll_loop f ep i k =
    (let evs = take k (drop i (ep_events ep)) in
     cdo [run_callbacks (\<lambda>e. f e (ep_grp_data ep)) (takeWhile readable evs)]
       (cret (poll_verdict evs (ep_events ep))))"
  using assms
proof (induction k arbitrary: i)
  case 0
  then show ?case
    by (simp add: cdo_def cseq.simps cbind_def cret_def poll_verdict_def fun_eq_iff split: result.splits)
next
  case (Suc k)
  let ?e = "ep_events ep ! i"
  have drop: "drop i (ep_events ep) = ?e # drop (Suc i) (ep_events ep)"
    using Suc.prems by (simp add: Cons_nth_drop_Suc)
  show ?case
  proof (cases "readable ?e")
    case True
    have "Suc i + k \<le> length (ep_events ep)" using Suc.prems by simp
    note IH = Suc.IH [OF this Suc.prems(2)]
    show ?thesis
      using True Suc.prems(1)
      by (simp add: drop IH poll_verdict_readable readable_def [symmetric] Let_def cdo_def cseq.simps
          cbind_def cret_def cvoid_def fun_eq_iff split: result.splits)
  next
    case False
    then show ?thesis
      using Suc.prems
      by (simp add: drop readable_def Let_def cdo_def cseq.simps cbind_def cret_def poll_verdict_def fun_eq_iff)
  qed
qed


section \<open>Properties\<close>


text \<open>C28: a poll runs the callback for the events that can be read, in their order, up to the first
  one that cannot, always with the data of the socket the instance was created for. It
  returns 0 when all could be read, otherwise 1 or -1 by the flags of the second event slot,
  whichever event it was that could not be read, even when there was only one.\<close>

theorem poll_dispatches:
  assumes "ep_f_event ep = Some f" and "sys E (Posix (Epoll_wait (ep_e_id ep) (ep_max_events ep) (ep_w_time ep))) (world s) = (a, w)"
    and "a_rc a = int (length (a_events a))" and "length (a_events a) \<le> length (ep_events ep)"
    and "2 \<le> length (ep_events ep)"
  shows "tb_poll_for_events E call ep s =
    cdo [run_callbacks (\<lambda>e. call f e (ep_grp_data ep)) (takeWhile readable (a_events a))]
      (cret (poll_verdict (a_events a) (overwrite (a_events a) (ep_events ep)),
             ep\<lparr>ep_events := overwrite (a_events a) (ep_events ep)\<rparr>))
      (s\<lparr>world := w, trace := (Posix (Epoll_wait (ep_e_id ep) (ep_max_events ep) (ep_w_time ep)), a_rc a) # trace s\<rparr>)"
proof -
  have "take (length (a_events a)) (overwrite (a_events a) (ep_events ep)) = a_events a"
    using assms(4) by (simp add: overwrite_def)
  then show ?thesis
    using assms
    by (simp add: tb_poll_for_events_def do_sys_def tb_poll_loop_eq Let_def cbind_def cret_def cdo_def cseq.simps split: result.splits)
qed

end
