(* ===== verification/TB_Listener.thy ===== *)
theory TB_Listener
  imports TB_Counter TB_Epoll
begin

text \<open>
  The listener (\<open>src/src/tb_listener.h\<close>, \<open>src/src/tb_listener.c\<close>): the context of a test,
  with what every protocol shares, from the creation of the endpoint to the calls that send
  and receive through the protocol's table. The program has one listener, and \<open>lst\<close> of the
  state is its block. Abort and exit (\<open>src/src/tb_testbed.c\<close>) are here as well, since the
  listener calls them through its two function pointers.
\<close>

section \<open>State\<close>

datatype ENDPOINT_TYPE = SERVER | CLIENT | mSERVER | mCLIENT

fun ENDPOINT_TYPE_val :: "ENDPOINT_TYPE \<Rightarrow> int" where
  "ENDPOINT_TYPE_val SERVER = 0"
| "ENDPOINT_TYPE_val CLIENT = 1"
| "ENDPOINT_TYPE_val mSERVER = 2"
| "ENDPOINT_TYPE_val mCLIENT = 3"

datatype STATUS = TB_CREATED | TB_STARTING | TB_CONNECTED | TB_DISCONNECTED | TB_LISTENING
  | TB_EXITING | TB_ABORTING | TB_POLLING

fun STATUS_val :: "STATUS \<Rightarrow> int" where
  "STATUS_val TB_CREATED = 0"
| "STATUS_val TB_STARTING = 1"
| "STATUS_val TB_CONNECTED = 2"
| "STATUS_val TB_DISCONNECTED = 3"
| "STATUS_val TB_LISTENING = 4"
| "STATUS_val TB_EXITING = 5"
| "STATUS_val TB_ABORTING = 6"
| "STATUS_val TB_POLLING = 7"

text \<open>A command is a set of bits, and the loops test them with a mask.\<close>

type_synonym COMMAND = int

definition TB_CONTINUE :: COMMAND where "TB_CONTINUE = 1"
definition TB_ABORT :: COMMAND where "TB_ABORT = 2"
definition TB_EXIT :: COMMAND where "TB_EXIT = 4"
definition TB_E_LOOP :: COMMAND where "TB_E_LOOP = TB_ABORT OR TB_EXIT"

definition leaves_loop :: "COMMAND \<Rightarrow> bool" where
  "leaves_loop c \<longleftrightarrow> c AND TB_E_LOOP \<noteq> 0"

lemma leaves_loop_simps [simp]:
  "\<not> leaves_loop TB_CONTINUE" "leaves_loop TB_ABORT" "leaves_loop TB_EXIT"
  by (simp_all add: leaves_loop_def TB_CONTINUE_def TB_ABORT_def TB_EXIT_def TB_E_LOOP_def)

record tb_test_params_t =
  pr_type :: ENDPOINT_TYPE
  pr_protocol :: PROTOCOL
  pr_control :: CONGESTION_CONTROL
  pr_address :: "string option"
  pr_port :: "string option"
  pr_l4_r_b_size :: int
  pr_l4_w_b_size :: int
  pr_l3_r_b_size :: int
  pr_l3_w_b_size :: int
  pr_d_size :: int
  pr_file_name :: "string option"
  pr_d_on_exit :: int
  pr_monitor :: int
  pr_print_stats :: int
  pr_log_enable :: int
  pr_log_path :: string
  pr_pack_size :: int

datatype funct_l_exit = Fn_tb_exit
datatype funct_l_abort = Fn_tb_abort

text \<open>
  The locks are held or free. \<open>l_f_exit\<close> and \<open>l_f_abort\<close> are \<open>None\<close> while they hold no
  function; the condition variable has no state of its own.
\<close>

record tb_listener_t =
  l_prot_id :: PROTOCOL
  l_thread :: pthread
  l_sys_tid :: int
  l_stat_lock :: bool
  l_status_lock :: bool
  l_num_proc :: int
  l_cpu_affinity :: int
  l_main_cpu_aff :: int
  l_e_type :: ENDPOINT_TYPE
  l_bind_address :: string
  l_bind_port :: string
  l_bufsize :: int
  l_protocol :: tb_protocol_t
  l_sock_d :: int
  l_options :: tb_options_t
  l_addr_info :: "addrinfo option"
  l_file_size :: int
  l_fp :: "int option"
  l_filename :: "string option"
  l_data :: "byte list option"
  l_num_send :: int
  l_total_tx_rx :: int
  l_transfer_time :: tb_time_t
  l_connect_time :: tb_time_t
  l_stats :: tb_prot_stats_t
  l_read :: int
  l_monitor :: int
  l_print_stats :: int
  l_status :: STATUS
  l_command :: COMMAND
  l_s_tx_end :: COMMAND
  l_d_exit :: int
  l_log_enabled :: int
  l_log_info :: "tb_log_t option"
  l_curr_session :: "nat option"
  l_epoll :: "tb_epoll_t option"
  l_session_list :: tb_session_list_t
  l_f_exit :: "funct_l_exit option"
  l_f_abort :: "funct_l_abort option"

text \<open>What fresh blocks hold, and the text of an IPv6 address.\<close>

record 'w lenv = "'w senv" +
  mem_listener :: tb_listener_t
  mem_protocol :: tb_protocol_t
  mem_options :: tb_options_t
  mem_log :: tb_log_t
  mem_epoll :: tb_epoll_t
  mem_cpu_affinity :: int
  ntop6 :: "128 word \<Rightarrow> string"

record 'w tb_state = "'w tb_heap" +
  lst :: tb_listener_t

definition set_l :: "(tb_listener_t \<Rightarrow> tb_listener_t) \<Rightarrow> (('w, 'z) tb_state_scheme, unit) prog" where
  "set_l f = cmod (\<lambda>s. s\<lparr>lst := f (lst s)\<rparr>)"

lemma wp_set_l [wp_rules]: "wp (set_l f) Q R s = Q () (s\<lparr>lst := f (lst s)\<rparr>)"
  by (simp add: set_l_def wp_rules)


section \<open>Signals, logging and the two ways out\<close>

definition sig_action :: "('w, 'e) env_scheme \<Rightarrow> (('w, 'z) tb_state_scheme, unit) prog" where
  "sig_action E =
     cdo [set_l (\<lambda>l. l\<lparr>l_command := TB_EXIT\<rparr>)]
       (cbind (cget lst) (\<lambda>l.
        cwhen (l_e_type l = SERVER \<or> l_e_type l = CLIENT)
          (cvoid (do_sys E (Posix (Shutdown (l_sock_d l)))))))"

text \<open>A read of the command: the handler runs first if the user has interrupted the program.\<close>

definition read_command :: "('w, 'e) env_scheme \<Rightarrow> (('w, 'z) tb_state_scheme, COMMAND) prog" where
  "read_command E =
     cbind (poll_sigint E) (\<lambda>b.
     cdo [cwhen b (sig_action E)] (cget (\<lambda>s. l_command (lst s))))"

definition LOG :: "('w, 'e) env_scheme \<Rightarrow> string \<Rightarrow> tb_log_type_t \<Rightarrow> (('w, 'z) tb_state_scheme, unit) prog" where
  "LOG E info ty =
     cbind (cget lst) (\<lambda>l.
     cwhen (l_log_enabled l \<noteq> 0) (cvoid (tb_write_log E (l_log_info l) info ty)))"

definition tb_error :: "('w, 'e) env_scheme \<Rightarrow> string \<Rightarrow> int \<Rightarrow> (('w, 'z) tb_state_scheme, unit) prog" where
  "tb_error E info err_no =
     cbind (do_sys E (Stdio (Strerror err_no))) (\<lambda>a.
     let log_str = snprintf 50 (info @ a_text a) in
     LOG E log_str LOG_ERR)"

definition tb_address :: "('w, 'e) lenv_scheme \<Rightarrow> string \<Rightarrow> sockaddr_storage \<Rightarrow> (('w, 'z) tb_state_scheme, unit) prog" where
  "tb_address E info store = LOG E (tb_get_address (ntop6 E) store) LOG_INFO"

definition LOG_ADD :: "('w, 'e) lenv_scheme \<Rightarrow> string \<Rightarrow> sockaddr_storage \<Rightarrow> (('w, 'z) tb_state_scheme, unit) prog" where
  "LOG_ADD E info store = cbind (cget lst) (\<lambda>l. cwhen (l_log_enabled l \<noteq> 0) (tb_address E info store))"

text \<open>
  The locks of the listener. \<open>pthread_mutex_lock\<close> on a lock that is held waits; within one
  thread nobody can release it. \<open>pthread_mutex_trylock\<close> returns at once, its result dropped.
\<close>

definition lock_stat :: "(('w, 'z) tb_state_scheme, unit) prog" where
  "lock_stat = cbind (cget (\<lambda>s. l_stat_lock (lst s))) (\<lambda>held.
     if held then chalt Blocked else set_l (\<lambda>l. l\<lparr>l_stat_lock := True\<rparr>))"

definition trylock_stat :: "(('w, 'z) tb_state_scheme, unit) prog" where
  "trylock_stat = set_l (\<lambda>l. l\<lparr>l_stat_lock := True\<rparr>)"

definition unlock_stat :: "(('w, 'z) tb_state_scheme, unit) prog" where
  "unlock_stat = set_l (\<lambda>l. l\<lparr>l_stat_lock := False\<rparr>)"

definition tb_exit :: "('w, 'e) env_scheme \<Rightarrow> (('w, 'z) tb_state_scheme, 'a) prog" where
  "tb_exit E =
     cdo [set_l (\<lambda>l. l\<lparr>l_status := TB_EXITING\<rparr>), LOG E ''Exiting'' LOG_INFO] (chalt Thread_Exit)"

definition tb_abort :: "('w, 'e) env_scheme \<Rightarrow> (('w, 'z) tb_state_scheme, 'a) prog" where
  "tb_abort E =
     cbind (cget lst) (\<lambda>l.
     cdo [cwhen (l_sock_d l \<noteq> - 1)
            (cseq [lock_stat,
              cvoid (call_close E (f_close (l_protocol l)) (l_sock_d l)),
              set_l (\<lambda>l. l\<lparr>l_status := TB_DISCONNECTED\<rparr>),
              unlock_stat]),
          set_l (\<lambda>l. l\<lparr>l_status := TB_ABORTING\<rparr>),
          LOG E ''Aborting'' LOG_ERR] (chalt Thread_Exit))"

text \<open>The call through the listener's pointer.\<close>

definition call_f_abort :: "('w, 'e) env_scheme \<Rightarrow> (('w, 'z) tb_state_scheme, unit) prog" where
  "call_f_abort E =
     cbind (cget (\<lambda>s. l_f_abort (lst s))) (\<lambda>f.
     case f of None \<Rightarrow> chalt (Undefined Null_Call) | Some Fn_tb_abort \<Rightarrow> tb_abort E)"


section \<open>Creation and destruction\<close>

text \<open>
  The fields the source does not set keep what the block held, among them both function
  pointers, the list's \<open>userdata\<close> and the address information.
\<close>

definition tb_create_listener ::
  "('w, 'e) lenv_scheme \<Rightarrow> ENDPOINT_TYPE \<Rightarrow> string \<Rightarrow> string \<Rightarrow> PROTOCOL \<Rightarrow> int \<Rightarrow> (('w, 'z) tb_state_scheme, unit) prog" where
  "tb_create_listener E type addr port protocol bufsize =
     cbind (tb_create_protocol (mem_protocol E) protocol) (\<lambda>prot.
     cdo [set_l (\<lambda>_. (mem_listener E)\<lparr>l_prot_id := protocol, l_thread := Thread_Block,
            l_bind_port := port, l_bind_address := addr, l_e_type := type, l_protocol := prot,
            l_sock_d := - 1, l_curr_session := None, l_fp := None, l_bufsize := bufsize,
            l_total_tx_rx := 0, l_file_size := 0, l_filename := None, l_data := None,
            l_num_send := 1, l_d_exit := 1, l_stat_lock := False, l_status_lock := False,
            l_stats := tb_create_stats\<lparr>st_protocol := protocol,
              st_stat_time := Some (tb_create_time (mem_time E) CLOCK_MONOTONIC),
              st_other_info := Some \<lparr>i_l_status = STATUS_val TB_CREATED, i_sys_tid = - 1,
                i_cpu_affinity = mem_cpu_affinity E\<rparr>, st_id := - 1\<rparr>,
            l_read := 0, l_epoll := None, l_monitor := 1, l_print_stats := 1\<rparr>)]
       (cbind (do_sys E (Posix Get_nprocs)) (\<lambda>np.
        cdo [set_l (\<lambda>l. l\<lparr>l_num_proc := a_rc np, l_cpu_affinity := 0, l_main_cpu_aff := 0,
               l_sys_tid := - 1, l_command := TB_CONTINUE, l_s_tx_end := TB_EXIT,
               l_status := TB_CREATED, l_log_enabled := 1\<rparr>)]
          (cbind (tb_create_flog E (mem_log E) (if type = SERVER then ''log_server'' else ''log_client'') DATE) (\<lambda>lg.
           cdo [set_l (\<lambda>l. l\<lparr>l_log_info := lg,
                  l_options := (mem_options E)\<lparr>o_protocol := protocol, o_l3_r_b_size := 0,
                    o_l3_s_b_size := 0, o_l4_s_b_size := 0, o_l4_r_b_size := 0\<rparr>,
                  l_session_list := (l_session_list (mem_listener E))\<lparr>sl_current_max_id := - 1,
                    sl_start := None, sl_end := None, sl_nac_lock := False,
                    sl_num_active_conn := 0, sl_num_sessions := 0\<rparr>,
                  l_transfer_time := tb_create_time (mem_time E) CLOCK_MONOTONIC,
                  l_connect_time := tb_create_time (mem_time E) CLOCK_MONOTONIC\<rparr>)]
             (cvoid (do_sys E (Posix Sigaction_sigint))))))))"

text \<open>The file size of the parameters is in KB.\<close>

definition tb_create_endpoint ::
  "('w, 'e) lenv_scheme \<Rightarrow> tb_test_params_t \<Rightarrow> (('w, 'z) tb_state_scheme, unit) prog" where
  "tb_create_endpoint E params =
     cdo [cassert (pr_address params \<noteq> None),
          cassert (pr_port params \<noteq> None),
          cassert (ENDPOINT_TYPE_val (pr_type params) \<le> 3 \<and> 0 \<le> ENDPOINT_TYPE_val (pr_type params)),
          cassert (TCP \<le> pr_protocol params \<and> pr_protocol params \<le> DCCP),
          cassert (if pr_file_name params = None then 0 < pr_d_size params else pr_d_size params \<le> 0),
          tb_create_listener E (pr_type params) (the (pr_address params)) (the (pr_port params))
            (pr_protocol params) (pr_pack_size params)]
       (cbind (cint (pr_d_size params * 1024)) (\<lambda>fs.
        cdo [set_l (\<lambda>l. l\<lparr>l_file_size := fs, l_filename := pr_file_name params\<rparr>),
             (if pr_pack_size params = 0
              then cseq [LOG E ''Setting default pack size: 1408'' LOG_INFO, set_l (\<lambda>l. l\<lparr>l_bufsize := 1408\<rparr>)]
              else set_l (\<lambda>l. l\<lparr>l_bufsize := pr_pack_size params\<rparr>)),
             set_l (\<lambda>l. l\<lparr>l_options := (l_options l)\<lparr>o_l3_r_b_size := pr_l3_r_b_size params,
               o_l3_s_b_size := pr_l3_w_b_size params, o_l4_s_b_size := pr_l4_w_b_size params,
               o_l4_r_b_size := pr_l4_r_b_size params, o_control := pr_control params\<rparr>,
               l_print_stats := pr_print_stats params\<rparr>),
             cwhen (pr_log_enable params \<noteq> 0)
               (cbind (tb_create_flog E (mem_log E) (pr_log_path params) DATE) (\<lambda>lg.
                cseq [set_l (\<lambda>l. l\<lparr>l_log_info := lg\<rparr>),
                      cwhen (lg \<noteq> None) (set_l (\<lambda>l. l\<lparr>l_log_enabled := 1\<rparr>))]))]
          (set_l (\<lambda>l. l\<lparr>l_d_exit := 0\<rparr>))))"

definition tb_get_cpu_info :: "('w, 'e) env_scheme \<Rightarrow> (('w, 'z) tb_state_scheme, unit) prog" where
  "tb_get_cpu_info E = cbind (do_sys E (Posix Gettid)) (\<lambda>a. set_l (\<lambda>l. l\<lparr>l_sys_tid := to_int (a_rc a)\<rparr>))"

text \<open>What destruction does beyond giving memory back.\<close>

definition tb_destroy_listener :: "('w, 'e) env_scheme \<Rightarrow> (('w, 'z) tb_state_scheme, unit) prog" where
  "tb_destroy_listener E =
     cbind (cget lst) (\<lambda>l.
     cseq [(case l_epoll l of None \<Rightarrow> cret () | Some ep \<Rightarrow> tb_destroy_epoll E ep),
           (case l_log_info l of None \<Rightarrow> cret () | Some lg \<Rightarrow> tb_destroy_log E lg),
           tb_destroy_protocol E (l_protocol l)])"


section \<open>Statistics\<close>

text \<open>
  The reader of the statistics waits when the last ones have been read and the test is not
  over. The wait gives up the lock, and ends only when another thread collects new ones.
\<close>

definition read_stats :: "('w, 'e) env_scheme \<Rightarrow> bool \<Rightarrow> (('w, 'z) tb_state_scheme, tb_prot_stats_t) prog" where
  "read_stats E count =
     cbind (cget lst) (\<lambda>l.
     cdo [trylock_stat]
       (if l_read l = 1 \<and> l_status l \<noteq> TB_ABORTING \<and> l_status l \<noteq> TB_EXITING
        then cdo [unlock_stat] (chalt Blocked)
        else cbind (cderef Null_Deref (st_stat_time (l_stats l))) (\<lambda>t.
          cbind (if t_started t = 0 then tb_start_time E t else tb_finish_time E t) (\<lambda>t'.
          cbind (if count then cint (st_id (l_stats l) + 1) else cret (st_id (l_stats l))) (\<lambda>i.
          cdo [set_l (\<lambda>l. l\<lparr>l_stats := (l_stats l)\<lparr>st_stat_time := Some t', st_id := i\<rparr>, l_read := 1\<rparr>),
               unlock_stat]
            (cget (\<lambda>s. l_stats (lst s))))))))"

definition tb_ex_get_stats :: "('w, 'e) env_scheme \<Rightarrow> (('w, 'z) tb_state_scheme, tb_prot_stats_t) prog" where
  "tb_ex_get_stats E = read_stats E False"

definition tb_ex_get_stat_cpy :: "('w, 'e) env_scheme \<Rightarrow> (('w, 'z) tb_state_scheme, tb_prot_stats_t) prog" where
  "tb_ex_get_stat_cpy E = read_stats E True"

text \<open>What the collection tells about the listener itself, and that the statistics are new.\<close>

definition publish_stats :: "(('w, 'z) tb_state_scheme, unit) prog" where
  "publish_stats =
     cbind (cget lst) (\<lambda>l.
     cbind (cderef Null_Deref (st_other_info (l_stats l))) (\<lambda>info.
     cseq [set_l (\<lambda>l. l\<lparr>l_stats := (l_stats l)\<lparr>st_other_info :=
             Some (info\<lparr>i_l_status := STATUS_val (l_status l), i_sys_tid := l_sys_tid l\<rparr>)\<rparr>,
             l_read := 0\<rparr>),
           unlock_stat]))"

definition tb_set_l_stats :: "('w, 'e) env_scheme \<Rightarrow> (('w, 'z) tb_state_scheme, unit) prog" where
  "tb_set_l_stats E =
     cdo [trylock_stat,
          set_l (\<lambda>l. l\<lparr>l_stats := (l_stats l)\<lparr>st_current_read := l_total_tx_rx l\<rparr>\<rparr>)]
       (cbind (cget lst) (\<lambda>l.
        cseq [cwhen (l_status l = TB_CONNECTED)
                (cbind (if l_e_type l = SERVER
                        then cbind (load_session (l_curr_session l)) (\<lambda>r. cret (s_sock_d r))
                        else cret (l_sock_d l)) (\<lambda>fd.
                 cbind (tb_get_stats E (l_stats l) fd) (\<lambda>st. set_l (\<lambda>l. l\<lparr>l_stats := st\<rparr>)))),
              publish_stats]))"

text \<open>The sums over the sessions, and the division by their number; C divides towards zero.\<close>

definition add_session_stats :: "tb_prot_stats_t \<Rightarrow> tb_prot_stats_t \<Rightarrow> ('s, tb_prot_stats_t) prog" where
  "add_session_stats st x =
     cbind (cint (st_send_p_loss st + st_send_p_loss x)) (\<lambda>sl.
     cbind (cint (st_recv_p_loss st + st_recv_p_loss x)) (\<lambda>rl.
     cret (st\<lparr>st_rtt := st_rtt st + st_rtt x, st_rtt_var := st_rtt_var st + st_rtt_var x,
       st_send_rate := st_send_rate st + st_send_rate x, st_recv_rate := st_recv_rate st + st_recv_rate x,
       st_send_window := st_send_window st + st_send_window x,
       st_recv_window := st_recv_window st + st_recv_window x,
       st_send_p_loss := sl, st_recv_p_loss := rl\<rparr>)))"

definition zero_session_stats :: "tb_prot_stats_t \<Rightarrow> tb_prot_stats_t" where
  "zero_session_stats st = st\<lparr>st_rtt := 0, st_rtt_var := 0, st_send_rate := 0, st_recv_rate := 0,
     st_send_window := 0, st_recv_window := 0, st_send_p_loss := 0, st_recv_p_loss := 0\<rparr>"

definition average_session_stats :: "int \<Rightarrow> tb_prot_stats_t \<Rightarrow> tb_prot_stats_t" where
  "average_session_stats n st = st\<lparr>st_rtt := st_rtt st / of_int n, st_rtt_var := st_rtt_var st / of_int n,
     st_send_rate := st_send_rate st / of_int n, st_recv_rate := st_recv_rate st / of_int n,
     st_send_window := st_send_window st / of_int n, st_recv_window := st_recv_window st / of_int n,
     st_send_p_loss := st_send_p_loss st sdiv n, st_recv_p_loss := st_recv_p_loss st sdiv n\<rparr>"

text \<open>One turn of the loop over the sessions; \<open>l\<close> holds the session and the number connected so far.\<close>

definition m_stats_session ::
  "('w, 'e) env_scheme \<Rightarrow> nat option \<times> int \<Rightarrow> (('w, 'z) tb_state_scheme, nat option \<times> int) prog" where
  "m_stats_session E l =
     (let session = fst l; num_sessions = snd l in
      cdo [store_session session (\<lambda>r. r\<lparr>s_stat_lock := True\<rparr>)]
        (cbind (load_session session) (\<lambda>r.
         cdo [set_l (\<lambda>l. l\<lparr>l_stats := (l_stats l)\<lparr>st_current_read := st_current_read (l_stats l) + s_total_bytes r\<rparr>,
                l_total_tx_rx := l_total_tx_rx l + s_total_bytes r\<rparr>)]
           (cbind (if s_status r = SESSION_CONNECTED
              then cbind (cint (num_sessions + 1)) (\<lambda>n.
                cbind (load_stats (s_stats r)) (\<lambda>st.
                cbind (tb_get_stats E st (s_sock_d r)) (\<lambda>st'.
                cdo [store_stats (s_stats r) (\<lambda>_. st')]
                  (cbind (cget (\<lambda>s. l_stats (lst s))) (\<lambda>all.
                   cbind (add_session_stats all st') (\<lambda>all'.
                   cdo [set_l (\<lambda>l. l\<lparr>l_stats := all'\<rparr>)] (cret n)))))))
              else cret num_sessions) (\<lambda>n.
            cdo [store_session session (\<lambda>r. r\<lparr>s_stat_lock := False\<rparr>)]
              (cbind (load_session session) (\<lambda>r'. cret (s_n_session r', n))))))))"

definition tb_set_m_stats :: "('w, 'e) env_scheme \<Rightarrow> nat \<Rightarrow> (('w, 'z) tb_state_scheme, unit) prog" where
  "tb_set_m_stats E fuel =
     cdo [trylock_stat,
          set_l (\<lambda>l. l\<lparr>l_stats := zero_session_stats ((l_stats l)\<lparr>st_current_read := 0\<rparr>), l_total_tx_rx := 0\<rparr>)]
       (cbind (cget (\<lambda>s. sl_start (l_session_list (lst s)))) (\<lambda>start.
        cbind (cwhile fuel (\<lambda>l. cret (fst l \<noteq> None)) (m_stats_session E) (start, 0)) (\<lambda>l.
        cseq [cwhen (snd l \<noteq> 0)
                (set_l (\<lambda>t. t\<lparr>l_stats := average_session_stats (snd l) (l_stats t)\<rparr>)),
              publish_stats])))"

definition tb_get_time_stats :: "nat \<Rightarrow> (('w, 'z) tb_state_scheme, unit) prog" where
  "tb_get_time_stats fuel =
     cbind (cget (\<lambda>s. sl_start (l_session_list (lst s)))) (\<lambda>start.
     cdo [cvoid (cwhile fuel
            (\<lambda>session. cret (session \<noteq> None))
            (\<lambda>session. cbind (load_session session) (\<lambda>r.
               cbind (cderef Null_Deref (s_connect_t r)) (\<lambda>ct.
               cbind (cderef Null_Deref (s_transfer_t r)) (\<lambda>tt.
               cdo [store_stats (s_stats r) (\<lambda>st. st\<lparr>st_connect_time := t_n_sec ct\<rparr>),
                    store_stats (s_stats r) (\<lambda>st. st\<lparr>st_transfer_time := t_n_sec tt\<rparr>)]
                 (cret (s_n_session r))))))
            start)]
       (set_l (\<lambda>l. l\<lparr>l_stats := (l_stats l)\<lparr>st_connect_time := t_n_sec (l_connect_time l),
          st_transfer_time := t_n_sec (l_transfer_time l)\<rparr>\<rparr>)))"

end
