(* ===== verification/TB_Net.thy ===== *)
theory TB_Net
  imports TB_Listener
begin

text \<open>
  The second half of \<open>src/src/tb_listener.c\<close>: the calls every protocol makes through its
  table of functions, and what the listener does when they fail. The functions of the table
  return an \<open>int\<close>, so longer results are cut to that type.
\<close>

section \<open>Calls through the table\<close>

text \<open>
  What a call that reads \<open>n\<close> bytes is given; \<open>p\<close> is what is left of a block at the pointer that
  is passed. Reading past the block is undefined. A null pointer stands for no bytes: the
  kernel answers such a call.
\<close>

definition buffer :: "byte list option \<Rightarrow> int \<Rightarrow> byte list" where
  "buffer p n = (case p of None \<Rightarrow> [] | Some bs \<Rightarrow> take (nat n) bs)"

definition cread :: "byte list option \<Rightarrow> int \<Rightarrow> ('s, byte list) prog" where
  "cread p n = (case p of
     None \<Rightarrow> cret []
   | Some bs \<Rightarrow> if n \<le> int (length bs) then cret (take (nat n) bs) else chalt (Undefined Out_Of_Bounds))"

lemma cread_inside: "n \<le> int (length bs) \<Longrightarrow> cread (Some bs) n = cret (take (nat n) bs)"
  by (simp add: cread_def)

definition tb_listen :: "('w, 'e) env_scheme \<Rightarrow> (('w, 'z) tb_state_scheme, int) prog" where
  "tb_listen E =
     cbind (cget lst) (\<lambda>l.
     cbind (call_listen E (f_listen (l_protocol l)) (l_sock_d l) 10) (\<lambda>a.
     cdo [cwhen (a_rc a = - 1) (cseq [tb_error E ''Error: listen : listen'' (a_errno a), call_f_abort E])]
       (cret (a_rc a))))"

definition tb_accept :: "('w, 'e) senv_scheme \<Rightarrow> (('w, 'z) tb_state_scheme, nat) prog" where
  "tb_accept E =
     cbind (cget lst) (\<lambda>l.
     cbind (tb_create_server_session E) (\<lambda>p.
     cbind (call_accept E (f_accept (l_protocol l)) (l_sock_d l)) (\<lambda>a.
     cdo [store_session (Some p) (\<lambda>r. r\<lparr>s_sock_d := a_rc a\<rparr>),
          (if a_rc a = - 1 then tb_error E ''Error: accept'' (a_errno a)
           else store_session (Some p) (\<lambda>r. r\<lparr>s_addr_in := Some (a_peer a)\<rparr>))]
       (cret p))))"

definition tb_epoll_accept :: "('w, 'e) senv_scheme \<Rightarrow> (('w, 'z) tb_state_scheme, nat) prog" where
  "tb_epoll_accept E = tb_create_server_session E"

text \<open>The resolved address is printed, so it is read.\<close>

definition tb_resolve_address :: "('w, 'e) env_scheme \<Rightarrow> (('w, 'z) tb_state_scheme, int) prog" where
  "tb_resolve_address E =
     cbind (cget lst) (\<lambda>l.
     cbind (do_sys E (Posix (Getaddrinfo (l_bind_address l) (l_bind_port l) (p_type (l_protocol l))))) (\<lambda>a.
     cdo [(if a_rc a \<noteq> 0 then call_f_abort E
           else set_l (\<lambda>l. l\<lparr>l_addr_info := Some (a_addr a)\<rparr>))]
       (cbind (cget (\<lambda>s. l_addr_info (lst s))) (\<lambda>ai.
        cbind (cderef Null_Deref ai) (\<lambda>_. cret 0)))))"

definition tb_create_socket :: "('w, 'e) env_scheme \<Rightarrow> (('w, 'z) tb_state_scheme, int) prog" where
  "tb_create_socket E =
     cbind (cget lst) (\<lambda>l.
     cbind (cderef Null_Deref (l_addr_info l)) (\<lambda>ai.
     cbind (call_sock E (f_sock (l_protocol l)) ai) (\<lambda>a.
     cdo [set_l (\<lambda>l. l\<lparr>l_sock_d := a_rc a\<rparr>),
          cwhen (a_rc a = - 1) (cseq [tb_error E ''Error: socket'' (a_errno a), call_f_abort E])]
       (cret 0))))"

definition tb_connect :: "('w, 'e) env_scheme \<Rightarrow> (('w, 'z) tb_state_scheme, int) prog" where
  "tb_connect E =
     cbind (cget lst) (\<lambda>l.
     cbind (cderef Null_Deref (l_addr_info l)) (\<lambda>ai.
     cbind (call_connect E (f_connect (l_protocol l)) (l_sock_d l) (ai_addr ai)) (\<lambda>a.
     cdo [cwhen (a_rc a = - 1) (cseq [tb_error E ''Error: tb_connect'' (a_errno a), call_f_abort E])]
       (cret 0))))"

definition tb_bind :: "('w, 'e) env_scheme \<Rightarrow> (('w, 'z) tb_state_scheme, int) prog" where
  "tb_bind E =
     cbind (cget lst) (\<lambda>l.
     cbind (cderef Null_Deref (l_addr_info l)) (\<lambda>ai.
     cbind (call_bind E (f_bind (l_protocol l)) (l_sock_d l) (ai_addr ai)) (\<lambda>a.
     cdo [cwhen (a_rc a = - 1) (cseq [tb_error E ''Error: bind'' (a_errno a), call_f_abort E])]
       (cret 0))))"

text \<open>\<open>buff\<close> is what is left of the buffer at the pointer that is passed.\<close>

definition tb_send_data :: "('w, 'e) env_scheme \<Rightarrow> byte list option \<Rightarrow> int \<Rightarrow> (('w, 'z) tb_state_scheme, int) prog" where
  "tb_send_data E buff sz =
     cbind (cget lst) (\<lambda>l.
     cbind (cread buff (to_size sz)) (\<lambda>bs.
     cbind (call_send E (f_send (l_protocol l)) (l_sock_d l) bs) (\<lambda>a.
     let sent_bytes = to_int (a_rc a) in
     if sent_bytes = - 1
     then cbind (call_error (f_error (l_protocol l)) sent_bytes (a_errno a)) (\<lambda>e.
       cdo [cwhen (e \<noteq> 0) (call_f_abort E)] (cret 0))
     else cret sent_bytes)))"

definition tb_recv_data :: "('w, 'e) env_scheme \<Rightarrow> nat option \<Rightarrow> (('w, 'z) tb_state_scheme, int) prog" where
  "tb_recv_data E session =
     cbind (cget lst) (\<lambda>l.
     cbind (load_session session) (\<lambda>r.
     cbind (call_recv E (f_recv (l_protocol l)) (s_sock_d r) (s_data_size r)) (\<lambda>a.
     let last_trans = to_int (a_rc a) in
     cdo [store_session session (\<lambda>r. r\<lparr>s_data := map_option (overwrite (a_bytes a)) (s_data r),
            s_last_trans := last_trans\<rparr>),
          cwhen (last_trans = - 1)
            (cbind (call_error (f_error (l_protocol l)) last_trans (a_errno a)) (\<lambda>e.
             cwhen (e \<noteq> 0) (call_f_abort E)))]
       (cret 0))))"

definition tb_send_to :: "('w, 'e) env_scheme \<Rightarrow> nat option \<Rightarrow> (('w, 'z) tb_state_scheme, int) prog" where
  "tb_send_to E session =
     cbind (cget lst) (\<lambda>l.
     cbind (load_session session) (\<lambda>r.
     cbind (cderef Null_Deref (s_addr_in r)) (\<lambda>ad.
     cbind (cread (s_data r) (s_data_size r)) (\<lambda>bs.
     cbind (call_sendto E (f_sendto (l_protocol l)) (l_sock_d l) bs ad) (\<lambda>a.
     cdo [cwhen (to_int (a_rc a) = - 1) (cseq [tb_error E ''Error: send_to'' (a_errno a), call_f_abort E])]
       (cret 0))))))"

definition tb_recv_from :: "('w, 'e) env_scheme \<Rightarrow> nat option \<Rightarrow> (('w, 'z) tb_state_scheme, int) prog" where
  "tb_recv_from E session =
     cbind (cget lst) (\<lambda>l.
     cbind (load_session session) (\<lambda>r.
     cbind (call_recvfrom E (f_recfrom (l_protocol l)) (l_sock_d l) (to_int (s_data_size r))) (\<lambda>a.
     let last_trans = to_int (a_rc a) in
     cdo [store_session session (\<lambda>r. r\<lparr>s_data := map_option (overwrite (a_bytes a)) (s_data r),
            s_addr_in := (if last_trans = - 1 then s_addr_in r else Some (a_peer a)),
            s_last_trans := last_trans\<rparr>),
          cwhen (last_trans = - 1) (cseq [tb_error E ''Error: recv_from'' (a_errno a), call_f_abort E])]
       (cret 0))))"

definition tb_set_epoll :: "('w, 'e) lenv_scheme \<Rightarrow> (('w, 'z) tb_state_scheme, int) prog" where
  "tb_set_epoll E =
     cbind (cget lst) (\<lambda>l.
     cbind (tb_create_e_poll E (mem_epoll E) (l_sock_d l) 64 0) (\<lambda>ep.
     cdo [set_l (\<lambda>l. l\<lparr>l_epoll := ep\<rparr>), cwhen (ep = None) (call_f_abort E)]
       (cbind (cderef Null_Deref ep) (\<lambda>e.
        cdo [set_l (\<lambda>l. l\<lparr>l_epoll := Some (e\<lparr>ep_f_event := f_ep_event (l_protocol l), ep_w_time := - 1\<rparr>)\<rparr>)]
          (cret 0)))))"

end
