(* ===== verification/TB_Stream.thy ===== *)
theory TB_Stream
  imports TB_Net
begin

text \<open>
  Stream sockets, TCP and DCCP (\<open>src/src/tb_stream.h\<close>, \<open>src/src/tb_stream.c\<close>): the client
  and the server of a single connection, and the client and the server of several
  connections with the thread functions of their sessions. Every loop has its own bound of
  iterations. A function that other threads act upon while it waits takes what they do in
  between as the argument \<open>others\<close>.
\<close>

section \<open>Helpers of the listener's timers and pointers\<close>

definition l_start_transfer :: "('w, 'e) env_scheme \<Rightarrow> (('w, 'z) tb_state_scheme, unit) prog" where
  "l_start_transfer E = cbind (cget lst) (\<lambda>l. cbind (tb_start_time E (l_transfer_time l)) (\<lambda>t.
     set_l (\<lambda>l. l\<lparr>l_transfer_time := t\<rparr>)))"

definition l_finish_transfer :: "('w, 'e) env_scheme \<Rightarrow> (('w, 'z) tb_state_scheme, unit) prog" where
  "l_finish_transfer E = cbind (cget lst) (\<lambda>l. cbind (tb_finish_time E (l_transfer_time l)) (\<lambda>t.
     set_l (\<lambda>l. l\<lparr>l_transfer_time := t\<rparr>)))"

definition l_start_connect :: "('w, 'e) env_scheme \<Rightarrow> (('w, 'z) tb_state_scheme, unit) prog" where
  "l_start_connect E = cbind (cget lst) (\<lambda>l. cbind (tb_start_time E (l_connect_time l)) (\<lambda>t.
     set_l (\<lambda>l. l\<lparr>l_connect_time := t\<rparr>)))"

definition l_finish_connect :: "('w, 'e) env_scheme \<Rightarrow> (('w, 'z) tb_state_scheme, unit) prog" where
  "l_finish_connect E = cbind (cget lst) (\<lambda>l. cbind (tb_finish_time E (l_connect_time l)) (\<lambda>t.
     set_l (\<lambda>l. l\<lparr>l_connect_time := t\<rparr>)))"

abbreviation (input) put_transfer :: "tb_time_t \<Rightarrow> tb_session_t \<Rightarrow> tb_session_t" where
  "put_transfer t r \<equiv> r\<lparr>s_transfer_t := Some t\<rparr>"

abbreviation (input) put_connect :: "tb_time_t \<Rightarrow> tb_session_t \<Rightarrow> tb_session_t" where
  "put_connect t r \<equiv> r\<lparr>s_connect_t := Some t\<rparr>"

text \<open>A pointer into a block, moved by an offset; it may point just behind the block.\<close>

definition ptr_add :: "byte list option \<Rightarrow> int \<Rightarrow> ('s, byte list option) prog" where
  "ptr_add p off = (case p of None \<Rightarrow> cret None
     | Some bs \<Rightarrow> if 0 \<le> off \<and> off \<le> int (length bs) then cret (Some (drop (nat off) bs))
                  else chalt (Undefined Out_Of_Bounds))"


section \<open>The client of one connection\<close>

definition stream_client_body :: "('w, 'e) env_scheme \<Rightarrow> int \<Rightarrow> (('w, 'z) tb_state_scheme, int) prog" where
  "stream_client_body E sz =
     cbind (cget lst) (\<lambda>l.
     let rmbytes = to_int (l_file_size l - l_total_tx_rx l);
         sz' = (if rmbytes < l_bufsize l then rmbytes else sz)
     in cbind (ptr_add (l_data l) (l_total_tx_rx l)) (\<lambda>data.
        cbind (tb_send_data E data sz') (\<lambda>rc.
        cdo [set_l (\<lambda>l. l\<lparr>l_total_tx_rx := l_total_tx_rx l + rc\<rparr>)] (cret sz'))))"

definition tb_stream_client :: "('w, 'e) env_scheme \<Rightarrow> nat \<Rightarrow> (('w, 'z) tb_state_scheme, int) prog" where
  "tb_stream_client E fuel =
     cdo [l_start_connect E,
          cvoid (tb_connect E),
          l_finish_connect E,
          l_start_transfer E,
          set_l (\<lambda>l. l\<lparr>l_status := TB_CONNECTED\<rparr>),
          cbind (cget lst) (\<lambda>l.
            cvoid (cwhile fuel (\<lambda>sz. cget (\<lambda>s. l_total_tx_rx (lst s) < l_file_size (lst s)))
              (stream_client_body E) (l_bufsize l))),
          l_finish_transfer E,
          trylock_stat,
          cbind (cget lst) (\<lambda>l. cvoid (call_close E (f_close (l_protocol l)) (l_sock_d l))),
          set_l (\<lambda>l. l\<lparr>l_sock_d := - 1\<rparr>),
          set_l (\<lambda>l. l\<lparr>l_status := TB_DISCONNECTED\<rparr>),
          unlock_stat]
       (cget (\<lambda>s. to_int (l_total_tx_rx (lst s))))"


section \<open>The server of one connection\<close>

definition stream_recv_step :: "('w, 'e) env_scheme \<Rightarrow> nat \<Rightarrow> (('w, 'z) tb_state_scheme, unit) prog" where
  "stream_recv_step E p =
     cdo [cvoid (tb_recv_data E (Some p)),
          store_session (Some p) (\<lambda>r. r\<lparr>s_total_bytes := s_total_bytes r + s_last_trans r\<rparr>)]
       (cbind (load_session (Some p)) (\<lambda>r.
        set_l (\<lambda>l. l\<lparr>l_total_tx_rx := l_total_tx_rx l + s_last_trans r\<rparr>)))"

definition stream_recv_more :: "('w, 'e) env_scheme \<Rightarrow> nat \<Rightarrow> (('w, 'z) tb_state_scheme, bool) prog" where
  "stream_recv_more E p =
     cbind (load_session (Some p)) (\<lambda>r.
     if s_last_trans r = 0 then cret False
     else cbind (read_command E) (\<lambda>c. cret (\<not> leaves_loop c)))"

text \<open>The turn of the loop once \<open>accept\<close> has returned \<open>rc\<close>; \<open>l\<close> is the listener as it was then.\<close>

definition stream_serve_accepted ::
  "('w, 'e) lenv_scheme \<Rightarrow> nat \<Rightarrow> tb_listener_t \<Rightarrow> nat \<Rightarrow> int \<Rightarrow> (('w, 'z) tb_state_scheme, unit) prog" where
  "stream_serve_accepted E fuel l p rc =
     cseq [l_start_transfer E,
           cwhen (rc = - 1) (tb_abort E),
           cbind (load_session (Some p)) (\<lambda>r.
             cbind (cderef Null_Deref (s_addr_in r)) (\<lambda>ad. LOG_ADD E ''Connected address:'' ad)),
           cbind (cmalloc E (to_size (l_bufsize l))) (\<lambda>d.
             store_session (Some p) (\<lambda>r. r\<lparr>s_data := d\<rparr>)),
           store_session (Some p) (\<lambda>r. r\<lparr>s_data_size := to_size (l_bufsize l)\<rparr>),
           set_l (\<lambda>l. l\<lparr>l_curr_session := Some p\<rparr>),
           set_l (\<lambda>l. l\<lparr>l_status := TB_CONNECTED\<rparr>),
           stream_recv_step E p,
           cvoid (cwhile fuel (\<lambda>_. stream_recv_more E p) (\<lambda>_. stream_recv_step E p) ()),
           l_finish_transfer E,
           trylock_stat,
           set_l (\<lambda>l. l\<lparr>l_status := TB_DISCONNECTED\<rparr>),
           cbind (load_session (Some p)) (\<lambda>r. cvoid (do_sys E (Posix (Close (s_sock_d r))))),
           tb_destroy_session (Some p),
           set_l (\<lambda>l. l\<lparr>l_curr_session := None\<rparr>),
           cbind (load_session (Some p)) (\<lambda>r.
             cvoid (call_close E (f_close (l_protocol l)) (s_sock_d r))),
           unlock_stat,
           set_l (\<lambda>l. l\<lparr>l_command := l_s_tx_end l\<rparr>)]"

definition stream_serve_one :: "('w, 'e) lenv_scheme \<Rightarrow> nat \<Rightarrow> (('w, 'z) tb_state_scheme, unit) prog" where
  "stream_serve_one E fuel =
     cdo [LOG E ''Accepting'' LOG_INFO]
       (cbind (tb_create_server_session E) (\<lambda>p.
        cbind (cget lst) (\<lambda>l.
        cbind (do_sys E (Posix (Accept (l_sock_d l)))) (\<lambda>a.
        cdo [store_session (Some p) (\<lambda>r. r\<lparr>s_sock_d := a_rc a,
               s_addr_in := (if a_rc a = - 1 then s_addr_in r else Some (a_peer a))\<rparr>)]
          (stream_serve_accepted E fuel l p (a_rc a))))))"

definition tb_stream_server :: "('w, 'e) lenv_scheme \<Rightarrow> nat \<Rightarrow> nat \<Rightarrow> (('w, 'z) tb_state_scheme, int) prog" where
  "tb_stream_server E conns fuel =
     cdo [cvoid (tb_listen E),
          set_l (\<lambda>l. l\<lparr>l_status := TB_LISTENING\<rparr>),
          cvoid (cwhile conns (\<lambda>_. cbind (read_command E) (\<lambda>c. cret (\<not> leaves_loop c)))
            (\<lambda>_. stream_serve_one E fuel) ()),
          cbind (cget lst) (\<lambda>l. cvoid (call_close E (f_close (l_protocol l)) (l_sock_d l))),
          set_l (\<lambda>l. l\<lparr>l_sock_d := - 1\<rparr>)]
       (cget (\<lambda>s. to_int (l_total_tx_rx (lst s))))"


section \<open>The server of several connections\<close>

text \<open>The thread of a session: it counts what it receives until the peer ends the connection.\<close>

definition m_server_recv :: "('w, 'e) senv_scheme \<Rightarrow> nat \<Rightarrow> (('w, 'z) tb_state_scheme, int) prog" where
  "m_server_recv E p =
     cbind (load_session (Some p)) (\<lambda>r.
     cbind (do_sys E (Posix (Recv (s_sock_d r) (to_size (s_pack_size r))))) (\<lambda>a.
     let rc = to_int (a_rc a) in
     cdo [store_session (Some p) (\<lambda>r. r\<lparr>s_data := map_option (overwrite (a_bytes a)) (s_data r)\<rparr>),
          cwhen (rc \<noteq> - 1) (store_session (Some p) (\<lambda>r. r\<lparr>s_total_bytes := s_total_bytes r + rc\<rparr>))]
       (cret rc)))"

definition close_session :: "('w, 'e) senv_scheme \<Rightarrow> nat \<Rightarrow> (('w, 'z) tb_state_scheme, unit) prog" where
  "close_session E p =
     cseq [store_session (Some p) (\<lambda>r. r\<lparr>s_stat_lock := True\<rparr>),
           cbind (load_session (Some p)) (\<lambda>r. cvoid (do_sys E (Posix (Close (s_sock_d r))))),
           store_session (Some p) (\<lambda>r. r\<lparr>s_status := SESSION_DISCONNECTED\<rparr>)]"

definition tb_stream_m_server_conn :: "('w, 'e) senv_scheme \<Rightarrow> nat \<Rightarrow> nat \<Rightarrow> (('w, 'z) tb_state_scheme, int) prog" where
  "tb_stream_m_server_conn E fuel p =
     cdo [store_session (Some p) (\<lambda>r. r\<lparr>s_status := SESSION_CONNECTED\<rparr>),
          start_timer E (Some p) s_transfer_t put_transfer]
       (cbind (m_server_recv E p) (\<lambda>rc0.
        cbind (cwhile fuel (\<lambda>rc. cret (rc \<noteq> 0 \<and> rc \<noteq> - 1)) (\<lambda>_. m_server_recv E p) rc0) (\<lambda>rc.
        if rc = - 1
        then cdo [close_session E p, store_session (Some p) (\<lambda>r. r\<lparr>s_stat_lock := False\<rparr>)] (cret (- 1))
        else cdo [finish_timer E (Some p) s_transfer_t put_transfer,
                  tb_print_times (Some p),
                  close_session E p,
                  cbind (load_session (Some p)) (\<lambda>r.
                  cbind (cderef Null_Deref (s_other_info r)) (\<lambda>_.
                  cbind (cget (\<lambda>s. l_session_list (lst s))) (\<lambda>sl.
                  cbind (tb_session_list_dec sl) (\<lambda>(n, sl').
                  cdo [set_l (\<lambda>l. l\<lparr>l_session_list := sl'\<rparr>)]
                    (cwhen (n = 0) (cbind (cderef Null_Deref (sl_userdata sl')) (\<lambda>_.
                       set_l (\<lambda>l. l\<lparr>l_command := TB_EXIT\<rparr>)))))))),
                  store_session (Some p) (\<lambda>r. r\<lparr>s_stat_lock := False\<rparr>)]
               (cret 0))))"

text \<open>The callback of the listening socket: it takes in every connection that waits.\<close>

definition stream_accept_one :: "('w, 'e) senv_scheme \<Rightarrow> (('w, 'z) tb_state_scheme, bool) prog" where
  "stream_accept_one E =
     cbind (tb_create_session E) (\<lambda>p.
     cbind (cget lst) (\<lambda>l.
     cbind (do_sys E (Posix (Accept (l_sock_d l)))) (\<lambda>a.
     cdo [store_session (Some p) (\<lambda>r. r\<lparr>s_sock_d := a_rc a,
            s_addr_in := (if a_rc a = - 1 then s_addr_in r else Some (a_peer a))\<rparr>)]
       (if a_rc a = - 1 then cdo [tb_destroy_session (Some p)] (cret False)
        else cbind (tb_set_sock_opt E (l_options l) (a_rc a)) (\<lambda>(_, opts).
          cdo [set_l (\<lambda>l. l\<lparr>l_options := opts\<rparr>),
               store_session (Some p) (\<lambda>r. r\<lparr>s_pack_size := l_bufsize l\<rparr>),
               cbind (cmalloc E (to_size (l_bufsize l))) (\<lambda>d. store_session (Some p) (\<lambda>r. r\<lparr>s_data := d\<rparr>)),
               cbind (load_session (Some p)) (\<lambda>r.
                 store_stats (s_stats r) (\<lambda>st. st\<lparr>st_protocol := p_protocol (l_protocol l)\<rparr>)),
               cbind (tb_session_add (l_session_list l) (Some p)) (\<lambda>sl.
                 set_l (\<lambda>l. l\<lparr>l_session_list := sl\<rparr>)),
               cbind (cget (\<lambda>s. l_session_list (lst s))) (\<lambda>sl.
                 cbind (tb_session_list_inc sl) (\<lambda>(_, sl'). set_l (\<lambda>l. l\<lparr>l_session_list := sl'\<rparr>))),
               store_session (Some p) (\<lambda>r. r\<lparr>s_other_info := Some Ref_session_list\<rparr>),
               cvoid (do_sys E (Posix (Thread_create Start_tb_stream_m_server_conn p))),
               cwhen (l_status l = TB_LISTENING)
                 (cseq [set_l (\<lambda>l. l\<lparr>l_status := TB_CONNECTED\<rparr>),
                        l_start_transfer E,
                        cbind (load_session (Some p)) (\<lambda>r.
                          set_l (\<lambda>l. l\<lparr>l_stats := (l_stats l)\<lparr>st_n_stats := s_stats r\<rparr>\<rparr>))])]
            (cret True))))))"

definition tb_stream_event :: "('w, 'e) senv_scheme \<Rightarrow> nat \<Rightarrow> int \<Rightarrow> tb_e_data \<Rightarrow> (('w, 'z) tb_state_scheme, int) prog" where
  "tb_stream_event E fuel events e_data =
     cbind (cget lst) (\<lambda>l.
     cdo [cassert (l_sock_d l = ed_fd e_data),
          cvoid (cwhile fuel cret (\<lambda>_. stream_accept_one E) True)]
       (cret 0))"

text \<open>
  The sessions' threads run while the server polls; \<open>others\<close> is what they do between two
  reads of the command.
\<close>

definition tb_stream_m_server ::
  "('w, 'e) lenv_scheme \<Rightarrow> (('w, 'z) tb_state_scheme, unit) prog \<Rightarrow> nat \<Rightarrow> nat \<Rightarrow> (('w, 'z) tb_state_scheme, int) prog" where
  "tb_stream_m_server E others polls fuel =
     cdo [cvoid (tb_listen E),
          set_l (\<lambda>l. l\<lparr>l_status := TB_LISTENING\<rparr>)]
       (cbind (cget lst) (\<lambda>l.
        cbind (tb_create_e_poll E (mem_epoll E) (l_sock_d l) 10 0) (\<lambda>ep0.
        cbind (cderef Null_Deref ep0) (\<lambda>ep.
        cdo [set_l (\<lambda>l. l\<lparr>l_session_list := (l_session_list l)\<lparr>sl_userdata := Some Ref_command\<rparr>\<rparr>),
             cvoid (cwhile polls
               (\<lambda>_. cdo [others] (cbind (read_command E) (\<lambda>c. cret (\<not> leaves_loop c))))
               (\<lambda>ep. cbind (tb_poll_for_events E (\<lambda>_. tb_stream_event E fuel) ep) (\<lambda>(_, ep'). cret ep'))
               (ep\<lparr>ep_f_event := Some Fn_tb_stream_event, ep_w_time := 50\<rparr>)),
             l_finish_transfer E,
             trylock_stat,
             cbind (cget lst) (\<lambda>l. cvoid (do_sys E (Posix (Close (l_sock_d l))))),
             set_l (\<lambda>l. l\<lparr>l_sock_d := - 1\<rparr>),
             set_l (\<lambda>l. l\<lparr>l_status := TB_DISCONNECTED\<rparr>),
             unlock_stat]
          (cget (\<lambda>s. to_int (l_total_tx_rx (lst s))))))))"


section \<open>The client of several connections\<close>

definition num_conn :: int where "num_conn = 4"

text \<open>
  One session of the client, in three pieces: a session for connection \<open>x\<close> is created; it is
  given a socket and its part of the data; it is put on the list and its thread started.
  \<open>l\<close> is the listener as it was before.
\<close>

definition stream_session_start :: "('w, 'e) lenv_scheme \<Rightarrow> tb_listener_t \<Rightarrow> nat \<Rightarrow> (('w, 'z) tb_state_scheme, unit) prog" where
  "stream_session_start E l p =
     cseq [cbind (tb_session_add (l_session_list l) (Some p)) (\<lambda>sl. set_l (\<lambda>l. l\<lparr>l_session_list := sl\<rparr>)),
           store_session (Some p) (\<lambda>r. r\<lparr>s_log_enabled := 1, s_log_info := l_log_info l\<rparr>),
           cbind (do_sys E (Posix (Thread_create Start_tb_stream_connection p))) (\<lambda>t.
             store_session (Some p) (\<lambda>r. r\<lparr>s_thread := Some (Thread_Id (a_val t))\<rparr>)),
           cbind (load_session (Some p)) (\<lambda>r.
             set_l (\<lambda>l. if st_n_stats (l_stats l) = None
                        then l\<lparr>l_stats := (l_stats l)\<lparr>st_n_stats := s_stats r\<rparr>\<rparr> else l))]"

definition stream_session_setup :: "('w, 'e) lenv_scheme \<Rightarrow> tb_listener_t \<Rightarrow> int \<Rightarrow> nat \<Rightarrow> (('w, 'z) tb_state_scheme, unit) prog" where
  "stream_session_setup E l x p =
     cbind (load_session (Some p)) (\<lambda>r.
     cbind (cderef Null_Deref (s_addr_info r)) (\<lambda>ai.
     cbind (do_sys E (Posix (Socket (ai_family ai) (ai_socktype ai) (ai_protocol ai)))) (\<lambda>a.
     cdo [store_session (Some p) (\<lambda>r. r\<lparr>s_sock_d := a_rc a\<rparr>),
          cwhen (a_rc a = - 1) (tb_abort E)]
       (cbind (ptr_add (l_data l) (l_file_size l sdiv num_conn * x)) (\<lambda>data.
        cdo [store_session (Some p) (\<lambda>r. r\<lparr>s_l_status := Some Ref_status, s_l_txrx := Some Ref_txrx,
               s_data := data, s_data_size := to_size (l_file_size l sdiv num_conn)\<rparr>),
             store_stats (s_stats r) (\<lambda>st. st\<lparr>st_protocol := p_protocol (l_protocol l)\<rparr>),
             store_session (Some p) (\<lambda>r. r\<lparr>s_n_session := None, s_pack_size := l_bufsize l\<rparr>)]
          (stream_session_start E l p))))))"

definition stream_client_session :: "('w, 'e) lenv_scheme \<Rightarrow> int \<Rightarrow> (('w, 'z) tb_state_scheme, int) prog" where
  "stream_client_session E x =
     cbind (cget lst) (\<lambda>l.
     cbind (tb_create_session_full E (l_bind_address l) (l_bind_port l) (p_type (l_protocol l)) 0) (\<lambda>q.
     cdo [cwhen (q = None) (tb_abort E)]
       (cbind (cderef Null_Deref q) (\<lambda>p. cdo [stream_session_setup E l x p] (cret (x + 1))))))"

definition stream_client_sessions :: "('w, 'e) lenv_scheme \<Rightarrow> (('w, 'z) tb_state_scheme, int) prog" where
  "stream_client_sessions E = cwhile 4 (\<lambda>x. cret (x < num_conn)) (stream_client_session E) 0"

text \<open>Waiting for a session's thread and closing its connection.\<close>

definition join_session :: "('w, 'e) env_scheme \<Rightarrow> nat option \<Rightarrow> (('w, 'z) tb_state_scheme, nat option) prog" where
  "join_session E cur =
     cbind (load_session cur) (\<lambda>r.
     case s_thread r of
       Some (Thread_Id t) \<Rightarrow>
         cdo [cvoid (do_sys E (Posix (Thread_join t)))]
           (cbind (load_session cur) (\<lambda>r.
            if s_stat_lock r then chalt Blocked
            else cdo [store_session cur (\<lambda>r. r\<lparr>s_stat_lock := True\<rparr>),
                      cvoid (do_sys E (Posix (Close (s_sock_d r)))),
                      store_session cur (\<lambda>r. r\<lparr>s_stat_lock := False\<rparr>)]
                   (cbind (load_session cur) (\<lambda>r. cret (s_n_session r)))))
     | _ \<Rightarrow> chalt (Undefined Uninitialised))"

definition tb_stream_m_client ::
  "('w, 'e) lenv_scheme \<Rightarrow> (('w, 'z) tb_state_scheme, unit) prog \<Rightarrow> nat \<Rightarrow> nat \<Rightarrow> (('w, 'z) tb_state_scheme, int) prog" where
  "tb_stream_m_client E others waits fuel =
     cdo [cvoid (stream_client_sessions E),
          cvoid (cwhile waits
            (\<lambda>_. cdo [others] (cbind (cget (\<lambda>s. sl_start (l_session_list (lst s)))) (\<lambda>st.
                    cbind (load_session st) (\<lambda>r. cret (s_status r = SESSION_CREATED)))))
            (\<lambda>_. cret ()) ()),
          l_start_transfer E,
          set_l (\<lambda>l. l\<lparr>l_status := TB_CONNECTED\<rparr>),
          cbind (cget (\<lambda>s. sl_start (l_session_list (lst s)))) (\<lambda>st.
            cvoid (cwhile fuel (\<lambda>cur. cret (cur \<noteq> None)) (\<lambda>cur. cdo [others] (join_session E cur)) st)),
          l_finish_transfer E,
          set_l (\<lambda>l. l\<lparr>l_status := TB_DISCONNECTED\<rparr>)]
       (cget (\<lambda>s. to_int (l_total_tx_rx (lst s))))"

text \<open>
  The thread of a session. \<open>total_bytes\<close> is compared with the \<open>size_t\<close> \<open>data_size\<close>, and
  what remains is cut to an \<open>int\<close>. The second component of the loop's locals says that a
  send has failed.
\<close>

definition stream_connection_more :: "nat \<Rightarrow> int \<times> bool \<Rightarrow> (('w, 'z) tb_state_scheme, bool) prog" where
  "stream_connection_more p l =
     (if snd l then cret False
      else cbind (load_session (Some p)) (\<lambda>r. cret (to_size (s_total_bytes r) < s_data_size r)))"

definition stream_connection_body ::
  "('w, 'e) senv_scheme \<Rightarrow> nat \<Rightarrow> int \<times> bool \<Rightarrow> (('w, 'z) tb_state_scheme, int \<times> bool) prog" where
  "stream_connection_body E p l =
     cbind (load_session (Some p)) (\<lambda>r.
     let rmbytes = to_int (to_size (s_data_size r - s_total_bytes r));
         sz = (if rmbytes < s_pack_size r then rmbytes else fst l)
     in cbind (ptr_add (s_data r) (s_total_bytes r)) (\<lambda>data.
        cbind (cread data (to_size sz)) (\<lambda>bs.
        cbind (do_sys E (Posix (Send (s_sock_d r) bs))) (\<lambda>a.
        if to_int (a_rc a) = - 1 then cret (sz, True)
        else cdo [store_session (Some p) (\<lambda>r. r\<lparr>s_total_bytes := s_total_bytes r + to_int (a_rc a)\<rparr>)]
               (cret (sz, False))))))"

text \<open>The end of a connection that has sent everything; the transfer; and the whole thread.\<close>

definition stream_connection_end :: "('w, 'e) senv_scheme \<Rightarrow> nat \<Rightarrow> (('w, 'z) tb_state_scheme, int) prog" where
  "stream_connection_end E p =
     cdo [finish_timer E (Some p) s_transfer_t put_transfer,
          tb_log_session_info E (Some p) ''Ended Connection'' LOG_INFO 0,
          store_session (Some p) (\<lambda>r. r\<lparr>s_status := SESSION_COMPLETE\<rparr>),
          tb_print_times (Some p)]
       (cret 0)"

definition stream_connection_transfer :: "('w, 'e) senv_scheme \<Rightarrow> nat \<Rightarrow> nat \<Rightarrow> (('w, 'z) tb_state_scheme, int) prog" where
  "stream_connection_transfer E fuel p =
     cbind (load_session (Some p)) (\<lambda>r.
     cbind (cwhile fuel (stream_connection_more p) (stream_connection_body E p) (s_pack_size r, False)) (\<lambda>l.
     if snd l then cret (- 1) else stream_connection_end E p))"

definition tb_stream_connection :: "('w, 'e) senv_scheme \<Rightarrow> nat \<Rightarrow> nat \<Rightarrow> (('w, 'z) tb_state_scheme, int) prog" where
  "tb_stream_connection E fuel p =
     cdo [tb_log_session_info E (Some p) ''started thread'' LOG_INFO 0,
          start_timer E (Some p) s_connect_t put_connect]
       (cbind (load_session (Some p)) (\<lambda>r.
        cbind (cderef Null_Deref (s_addr_info r)) (\<lambda>ai.
        cbind (do_sys E (Posix (Connect (s_sock_d r) (ai_addr ai)))) (\<lambda>a.
        if a_rc a = - 1 then cret (- 1)
        else cdo [finish_timer E (Some p) s_connect_t put_connect,
                  tb_log_session_info E (Some p) ''Connected'' LOG_INFO 0,
                  store_session (Some p) (\<lambda>r. r\<lparr>s_status := SESSION_CONNECTED\<rparr>),
                  start_timer E (Some p) s_transfer_t put_transfer]
               (stream_connection_transfer E fuel p)))))"

end
