(* ===== verification/TB_Transfer.thy ===== *)
theory TB_Transfer
  imports TB_Net
begin

text \<open>
  What the transfer loops of the protocols share. Each of them sends a block of data piece by
  piece through calls that may take less than they are given, or receives until the connection
  ends; two locales state what such loops rely on, and prove once how they end.
\<close>

section \<open>What a socket has taken\<close>

text \<open>
  The bytes the kernel, or libudt, took from the sends on a socket, in order; the trace is
  newest first. A run uses sockets of one kind, so a number names one socket.
\<close>

fun sent_on :: "int \<Rightarrow> (syscall \<times> int) list \<Rightarrow> byte list" where
  "sent_on fd [] = []"
| "sent_on fd ((c, r) # tr) = sent_on fd tr @
     (case c of Posix (Send f bs) \<Rightarrow> if f = fd then take (nat r) bs else []
      | Udt (Udt_send f bs) \<Rightarrow> if f = fd then take (nat r) bs else []
      | _ \<Rightarrow> [])"

text \<open>
  What \<open>send\<close> promises on a blocking stream socket, and \<open>udt_send\<close> on a blocking UDT socket: an
  error, or that it took at least one byte and no more than it was given.
\<close>

definition send_contract :: "('w, 'e) env_scheme \<Rightarrow> bool" where
  "send_contract E \<longleftrightarrow> (\<forall>fd bs w c. bs \<noteq> [] \<longrightarrow> c = Posix (Send fd bs) \<or> c = Udt (Udt_send fd bs) \<longrightarrow>
     (let r = a_rc (fst (sys E c w)) in r = - 1 \<or> 1 \<le> r \<and> r \<le> int (length bs)))"

lemma send_contractD:
  "send_contract E \<Longrightarrow> bs \<noteq> [] \<Longrightarrow> sys E (Posix (Send fd bs)) w = (a, w') \<Longrightarrow>
    a_rc a = - 1 \<or> 1 \<le> a_rc a \<and> a_rc a \<le> int (length bs)"
  "send_contract E \<Longrightarrow> bs \<noteq> [] \<Longrightarrow> sys E (Udt (Udt_send fd bs)) w = (a, w') \<Longrightarrow>
    a_rc a = - 1 \<or> 1 \<le> a_rc a \<and> a_rc a \<le> int (length bs)"
  unfolding send_contract_def Let_def by (metis fst_conv)+


lemma take_whole: "take (nat t) data = data \<Longrightarrow> 0 \<le> t \<Longrightarrow> t \<le> int (length data) \<Longrightarrow> t = int (length data)"
  by (drule arg_cong [where f = length]) auto


section \<open>Ending a thread\<close>

definition ends_by_abort :: "halt \<Rightarrow> ('w, 'z) tb_state_scheme \<Rightarrow> bool" where
  "ends_by_abort h s \<longleftrightarrow> h \<in> {Thread_Exit, Blocked, Assert_Fail} \<and>
     (h = Thread_Exit \<longrightarrow> l_status (lst s) = TB_ABORTING)"

text \<open>Runs of the outside world in which only the C library is called.\<close>

inductive stdio_run :: "('w, 'e) env_scheme \<Rightarrow> 'w \<Rightarrow> (syscall \<times> int) list \<Rightarrow> 'w \<Rightarrow> (syscall \<times> int) list \<Rightarrow> bool"
  for E w tr where
  stdio_refl: "stdio_run E w tr w tr"
| stdio_step: "stdio_run E w tr w' tr' \<Longrightarrow> sys E (Stdio c) w' = (a, w'') \<Longrightarrow>
    stdio_run E w tr w'' ((Stdio c, a_rc a) # tr')"

lemma stdio_more: "sys E (Stdio c) w' = (a, w'') \<Longrightarrow> a_rc a = r \<Longrightarrow> stdio_run E w tr w' tr' \<Longrightarrow>
    stdio_run E w tr w'' ((Stdio c, r) # tr')"
  using stdio_step [of E w tr w' tr' c a w''] by auto

lemma stdio_run_sent: "stdio_run E w tr w' tr' \<Longrightarrow> \<forall>fd. sent_on fd tr' = sent_on fd tr"
  by (induction rule: stdio_run.induct) auto

lemma wp_LOG:
  assumes Q: "\<And>w tr. stdio_run E (world s) (trace s) w tr \<Longrightarrow> Q () (s\<lparr>world := w, trace := tr\<rparr>)"
    and "R Assert_Fail s"
  shows "wp (LOG E info ty) Q R s"
proof -
  have "Q () s" using Q [OF stdio_refl] by simp
  then show ?thesis using assms(2)
    by (auto simp: LOG_def wp_rules tb_write_log_def Let_def split: option.splits prod.splits
        intro!: Q stdio_more intro: stdio_refl)
qed

lemma wp_tb_error:
  assumes "\<And>w tr. (\<forall>fd. sent_on fd tr = sent_on fd (trace s)) \<Longrightarrow> Q () (s\<lparr>world := w, trace := tr\<rparr>)"
    and "\<And>w tr. (\<forall>fd. sent_on fd tr = sent_on fd (trace s)) \<Longrightarrow> R Assert_Fail (s\<lparr>world := w, trace := tr\<rparr>)"
  shows "wp (tb_error E info e) Q R s"
  using assms by (auto simp: tb_error_def wp_rules Let_def split: prod.splits
      intro!: wp_LOG dest!: stdio_run_sent)

lemma wp_tb_abort:
  assumes "f_close (l_protocol (lst s)) \<noteq> None"
    and "\<And>h s'. ends_by_abort h s' \<Longrightarrow> (\<forall>fd. sent_on fd (trace s') = sent_on fd (trace s)) \<Longrightarrow> R h s'"
  shows "wp (tb_abort E) Q R s"
  using assms(1)
  by (cases "the (f_close (l_protocol (lst s)))")
    (auto simp: tb_abort_def wp_rules lock_stat_def unlock_stat_def ends_by_abort_def
      split: prod.splits intro!: wp_LOG assms(2) dest!: stdio_run_sent)

lemma wp_call_f_abort:
  assumes "f_close (l_protocol (lst s)) \<noteq> None" and "l_f_abort (lst s) \<noteq> None"
    and "\<And>h s'. ends_by_abort h s' \<Longrightarrow> (\<forall>fd. sent_on fd (trace s') = sent_on fd (trace s)) \<Longrightarrow> R h s'"
  shows "wp (call_f_abort E) Q R s"
proof -
  from assms(2) have "l_f_abort (lst s) = Some Fn_tb_abort" by (metis (full_types) funct_l_abort.exhaust option.exhaust)
  then show ?thesis using assms(1,3) by (simp add: call_f_abort_def wp_rules wp_tb_abort)
qed


lemma wp_error_abort:
  assumes "f_close (l_protocol (lst s)) \<noteq> None" and "l_f_abort (lst s) \<noteq> None"
    and R: "\<And>h s'. ends_by_abort h s' \<Longrightarrow> (\<forall>fd. sent_on fd (trace s') = sent_on fd (trace s)) \<Longrightarrow> R h s'"
  shows "wp (tb_error E info e) (\<lambda>_. wp (cseq [call_f_abort E]) Q R) R s"
proof (rule wp_tb_error)
  fix w tr assume tr: "\<forall>fd. sent_on fd tr = sent_on fd (trace s)"
  then show "wp (cseq [call_f_abort E]) Q R (s\<lparr>world := w, trace := tr\<rparr>)"
    unfolding wp_cseq_Cons using assms by (intro wp_call_f_abort) auto
  show "R Assert_Fail (s\<lparr>world := w, trace := tr\<rparr>)"
    using tr by (intro R) (auto simp: ends_by_abort_def)
qed


section \<open>The next piece\<close>

text \<open>
  Every sender cuts the data in the same way: with \<open>t\<close> bytes taken, the next piece has the
  size \<open>sz\<close> of the last one, or what remains when that is less than the packet size \<open>b\<close>. \<open>d\<close> is
  the block of memory the data is the beginning of.
\<close>

lemma next_piece:
  fixes data d :: "byte list"
  assumes t: "0 \<le> t" "t < int (length data)" and len: "in_int (int (length data))" and b: "0 < b" "in_int b"
    and sz: "sz = b \<or> int (length data) - t < b" and d: "data = take (length data) d"
    and z: "z = (if int (length data) - t < b then int (length data) - t else sz)"
    and bs: "bs = take (nat z) (drop (nat t) data)"
  shows "in_int (int (length data) - t)" and "to_size (int (length data) - t) = int (length data) - t"
    and "to_size t = t" and "0 < z" and "z \<le> int (length data) - t" and "in_int z" and "to_size z = z"
    and "z = b \<or> int (length data) - t < b"
    and "length bs = nat z" and "bs \<noteq> []" and "cread (Some (drop (nat t) d)) z = cret bs"
    and "\<And>r. 0 \<le> r \<Longrightarrow> r \<le> z \<Longrightarrow> take (nat (t + r)) data = take (nat t) data @ take (nat r) bs"
proof -
  show rm: "in_int (int (length data) - t)" "to_size (int (length data) - t) = int (length data) - t" "to_size t = t"
    using t len by (auto simp: in_int_def intro!: to_size_id)
  show le: "0 < z" "z \<le> int (length data) - t" "in_int z" "z = b \<or> int (length data) - t < b"
    using t b sz rm(1) by (auto simp: z)
  then show "to_size z = z" by (intro to_size_id) (auto simp: in_int_def)
  show ln: "length bs = nat z" using le t by (simp add: bs)
  then show "bs \<noteq> []" using le by auto
  have "length data \<le> length d" using d by (metis length_take min.cobounded1 min.commute nat_le_linear take_all_iff)
  moreover have "take (nat z) (drop (nat t) d) = bs"
  proof -
    have "nat z \<le> length data - nat t" using le t by linarith
    then have "take (nat z) (drop (nat t) (take (length data) d)) = take (nat z) (drop (nat t) d)"
      by (simp add: drop_take min_absorb1)
    then show ?thesis unfolding bs using d by simp
  qed
  ultimately show "cread (Some (drop (nat t) d)) z = cret bs"
    using le t by (auto simp: cread_def)
  fix r assume r: "0 \<le> r" "r \<le> z"
  then have "nat (t + r) = nat t + nat r" "nat r \<le> nat z" using t by auto
  then show "take (nat (t + r)) data = take (nat t) data @ take (nat r) bs"
    by (simp add: bs take_add min_absorb1)
qed


section \<open>The loop\<close>

text \<open>
  \<open>more\<close> and \<open>body\<close> are the loop's condition and body over its locals, \<open>failed\<close> says that the
  locals record a failure, \<open>quit\<close> that the user has ended the transfer, \<open>sent\<close> is what the
  peer's side of the state has received of \<open>data\<close>, and \<open>stops\<close> how the loop may end the thread
  instead of returning.
\<close>

locale transfer_loop =
  fixes more :: "'l \<Rightarrow> ('s, bool) prog"
    and body :: "'l \<Rightarrow> ('s, 'l) prog"
    and inv :: "'l \<Rightarrow> 's \<Rightarrow> bool"
    and failed :: "'l \<Rightarrow> bool"
    and quit :: "'s \<Rightarrow> bool"
    and sent :: "'s \<Rightarrow> byte list"
    and data :: "byte list"
    and stops :: "halt \<Rightarrow> 's \<Rightarrow> bool"
  assumes sent_prefix: "inv l s \<Longrightarrow> \<exists>rest. data = sent s @ rest"
    and more_goes: "inv l s \<Longrightarrow> wp (more l) (\<lambda>go s'. inv l s' \<and> sent s' = sent s \<and>
      (if go then \<not> failed l \<and> length (sent s) < length data
       else failed l \<or> length (sent s) = length data \<or> quit s')) stops s"
    and body_sends: "inv l s \<Longrightarrow> \<not> failed l \<Longrightarrow> length (sent s) < length data \<Longrightarrow>
      wp (body l) (\<lambda>l' s'. inv l' s' \<and> (failed l' \<or> length (sent s) < length (sent s'))) stops s"
begin

definition left :: "'l \<Rightarrow> 's \<Rightarrow> nat" where
  "left l s = (if failed l then 0 else length data - length (sent s))"

lemma body_decreases:
  assumes "inv l s" and "\<not> failed l" and "length (sent s) < length data"
  shows "wp (body l) (\<lambda>l' s'. inv l' s' \<and> left l' s' < left l s) stops s"
  using body_sends [OF assms] by (rule wp_mono) (use assms(2,3) in \<open>auto simp: left_def\<close>)

lemma all_sent: "inv l s \<Longrightarrow> length (sent s) = length data \<Longrightarrow> sent s = data"
  using sent_prefix [of l s] by auto

lemma loop_ends:
  assumes "inv l s" and "length data \<le> fuel"
  shows "wp (cwhile fuel more body l) (\<lambda>l' s'. inv l' s' \<and> (failed l' \<or> sent s' = data \<or> quit s')) stops s"
proof (rule wp_cwhile [where I = inv and \<mu> = left])
  fix l s assume inv: "inv l s"
  show "wp (more l) (\<lambda>go s'. if go then inv l s' \<and> left l s' \<le> left l s \<and> 0 < left l s' \<and>
        wp (body l) (\<lambda>l'' s''. inv l'' s'' \<and> left l'' s'' < left l s') stops s'
      else inv l s' \<and> (failed l \<or> sent s' = data \<or> quit s')) stops s"
    using more_goes [OF inv]
  proof (rule wp_mono)
    fix go s'
    assume go: "inv l s' \<and> sent s' = sent s \<and> (if go then \<not> failed l \<and> length (sent s) < length data
      else failed l \<or> length (sent s) = length data \<or> quit s')"
    then have eq: "left l s' = left l s" by (simp add: left_def)
    show "if go then inv l s' \<and> left l s' \<le> left l s \<and> 0 < left l s' \<and>
        wp (body l) (\<lambda>l'' s''. inv l'' s'' \<and> left l'' s'' < left l s') stops s'
      else inv l s' \<and> (failed l \<or> sent s' = data \<or> quit s')"
    proof (cases go)
      case True
      with go have "0 < left l s'" by (simp add: left_def)
      moreover have "wp (body l) (\<lambda>l'' s''. inv l'' s'' \<and> left l'' s'' < left l s') stops s'"
        using True go by (intro body_decreases) auto
      ultimately show ?thesis using True go eq by simp
    next
      case False
      with go show ?thesis using all_sent [of l s'] by auto
    qed
  qed auto
qed (use assms in \<open>auto simp: left_def\<close>)

end


section \<open>The loops that receive\<close>

text \<open>
  What every receiving loop of the program does: \<open>over\<close> says that the locals or the state record
  the end of the connection or a failure, \<open>quit\<close> that the user has ended the test, and \<open>left\<close> bounds
  how often a receive can still bring something. The condition does not go on once it is over,
  and a step that does not see the end brings something.
\<close>

locale receive_loop =
  fixes more :: "'l \<Rightarrow> ('s, bool) prog"
    and step :: "'l \<Rightarrow> ('s, 'l) prog"
    and inv :: "'l \<Rightarrow> 's \<Rightarrow> bool"
    and over :: "'l \<Rightarrow> 's \<Rightarrow> bool"
    and quit :: "'s \<Rightarrow> bool"
    and left :: "'s \<Rightarrow> nat"
    and stops :: "halt \<Rightarrow> 's \<Rightarrow> bool"
  assumes more_goes: "inv l s \<Longrightarrow> wp (more l) (\<lambda>go s'. inv l s' \<and> (over l s' \<longleftrightarrow> over l s) \<and> left s' \<le> left s \<and>
      (if go then \<not> over l s else over l s \<or> quit s')) stops s"
    and step_receives: "inv l s \<Longrightarrow> \<not> over l s \<Longrightarrow>
      wp (step l) (\<lambda>l' s'. inv l' s' \<and> (over l' s' \<or> left s' < left s)) stops s"
begin

definition rounds :: "'l \<Rightarrow> 's \<Rightarrow> nat" where
  "rounds l s = (if over l s then 0 else left s + 1)"

lemma loop_ends:
  assumes "inv l s" and "rounds l s \<le> fuel"
  shows "wp (cwhile fuel more step l) (\<lambda>l' s'. inv l' s' \<and> (over l' s' \<or> quit s')) stops s"
proof (rule wp_cwhile [where I = inv and \<mu> = rounds])
  fix l s assume inv: "inv l s"
  show "wp (more l) (\<lambda>go s'. if go then inv l s' \<and> rounds l s' \<le> rounds l s \<and> 0 < rounds l s' \<and>
        wp (step l) (\<lambda>l'' s''. inv l'' s'' \<and> rounds l'' s'' < rounds l s') stops s'
      else inv l s' \<and> (over l s' \<or> quit s')) stops s"
    using more_goes [OF inv]
  proof (rule wp_mono)
    fix go s'
    assume go: "inv l s' \<and> (over l s' \<longleftrightarrow> over l s) \<and> left s' \<le> left s \<and> (if go then \<not> over l s else over l s \<or> quit s')"
    have "wp (step l) (\<lambda>l'' s''. inv l'' s'' \<and> rounds l'' s'' < rounds l s') stops s'" if "\<not> over l s'"
      by (rule wp_mono [OF step_receives]) (use that go in \<open>auto simp: rounds_def\<close>)
    then show "if go then inv l s' \<and> rounds l s' \<le> rounds l s \<and> 0 < rounds l s' \<and>
        wp (step l) (\<lambda>l'' s''. inv l'' s'' \<and> rounds l'' s'' < rounds l s') stops s'
      else inv l s' \<and> (over l s' \<or> quit s')" using go by (auto simp: rounds_def)
  qed auto
qed (use assms in auto)

end

end
