(* ===== verification/TB_Stream_Client.thy ===== *)
theory TB_Stream_Client
  imports TB_Stream TB_Transfer
begin

text \<open>
  Correctness of the stream client: its loop is a transfer loop, so it ends with the whole
  file taken by the kernel, or the thread is aborted with a prefix of it taken.
\<close>

section \<open>The client of one connection\<close>

definition tcp_table :: "tb_protocol_t \<Rightarrow> bool" where
  "tcp_table p \<longleftrightarrow> f_send p = Some Fn_send \<and> f_error p = Some Fn_tb_socket_error \<and>
     f_connect p = Some Fn_connect \<and> f_close p = Some Fn_close"

lemma tb_create_protocol_tcp: "tb_create_protocol m TCP s = Ok p s' \<Longrightarrow> tcp_table p"
  by (auto simp: tb_create_protocol_def cret_def tcp_table_def)

text \<open>A client that is ready to run: its table, its data, its sizes, and the way out.\<close>

definition client_ready :: "int \<Rightarrow> byte list \<Rightarrow> ('w, 'z) tb_state_scheme \<Rightarrow> bool" where
  "client_ready fd data s \<longleftrightarrow> tcp_table (l_protocol (lst s)) \<and> l_f_abort (lst s) \<noteq> None \<and>
     l_data (lst s) = Some data \<and> l_file_size (lst s) = int (length data) \<and> in_int (int (length data)) \<and>
     0 < l_bufsize (lst s) \<and> in_int (l_bufsize (lst s)) \<and> l_sock_d (lst s) = fd \<and> l_addr_info (lst s) \<noteq> None"

definition client_inv :: "('w, 'e) env_scheme \<Rightarrow> int \<Rightarrow> byte list \<Rightarrow> int \<Rightarrow> ('w, 'z) tb_state_scheme \<Rightarrow> bool" where
  "client_inv E fd data sz s \<longleftrightarrow> send_contract E \<and> client_ready fd data s \<and>
     0 \<le> l_total_tx_rx (lst s) \<and> l_total_tx_rx (lst s) \<le> int (length data) \<and>
     sent_on fd (trace s) = take (nat (l_total_tx_rx (lst s))) data \<and>
     (sz = l_bufsize (lst s) \<or> int (length data) - l_total_tx_rx (lst s) < l_bufsize (lst s))"

definition client_stops :: "int \<Rightarrow> byte list \<Rightarrow> halt \<Rightarrow> ('w, 'z) tb_state_scheme \<Rightarrow> bool" where
  "client_stops fd data h s \<longleftrightarrow> ends_by_abort h s \<and> (\<exists>n. sent_on fd (trace s) = take n data)"

lemma wp_tb_send_data:
  fixes s :: "('w, 'z) tb_state_scheme"
  assumes "tcp_table (l_protocol (lst s))" and "l_f_abort (lst s) \<noteq> None" and con: "send_contract E"
    and bs: "cread buff (to_size sz) = (cret bs :: (('w, 'z) tb_state_scheme, byte list) prog)" "bs \<noteq> []" "in_int (int (length bs))"
    and ok: "\<And>r w. 1 \<le> r \<Longrightarrow> r \<le> int (length bs) \<Longrightarrow>
      Q r (s\<lparr>world := w, trace := (Posix (Send (l_sock_d (lst s)) bs), r) # trace s\<rparr>)"
    and bad: "\<And>h s'. ends_by_abort h s' \<Longrightarrow> (\<forall>fd. sent_on fd (trace s') = sent_on fd (trace s)) \<Longrightarrow> R h s'"
  shows "wp (tb_send_data E buff sz) Q R s"
proof -
  let ?c = "Posix (Send (l_sock_d (lst s)) bs)"
  obtain a w where a: "sys E ?c (world s) = (a, w)" by force
  let ?s = "s\<lparr>world := w, trace := (?c, a_rc a) # trace s\<rparr>"
  from send_contractD(1) [OF con bs(2) a]
  consider "a_rc a = - 1" | "1 \<le> a_rc a" "a_rc a \<le> int (length bs)" by blast
  then show ?thesis
  proof cases
    case 1
    have "wp (call_f_abort E) Q' R ?s" for Q'
      using assms(1,2) 1 by (intro wp_call_f_abort bad) (auto simp: tcp_table_def)
    with 1 assms(1) a bs show ?thesis
      by (simp add: tb_send_data_def wp_rules Let_def tcp_table_def tb_socket_error_def to_int_id in_int_def)
  next
    case 2
    then have "to_int (a_rc a) = a_rc a" using bs(3) by (intro to_int_id) (auto simp: in_int_def)
    with 2 assms(1) a bs ok [OF 2, of w] show ?thesis
      by (simp add: tb_send_data_def wp_rules Let_def tcp_table_def)
  qed
qed

lemma stream_client_body_sends:
  assumes inv: "client_inv E fd data sz s" and more: "l_total_tx_rx (lst s) < int (length data)"
  shows "wp (stream_client_body E sz) (\<lambda>sz' s'. client_inv E fd data sz' s' \<and>
      length (sent_on fd (trace s)) < length (sent_on fd (trace s'))) (client_stops fd data) s"
proof -
  let ?l = "lst s" and ?t = "l_total_tx_rx (lst s)"
  let ?rm = "int (length data) - ?t"
  define z where "z = (if ?rm < l_bufsize ?l then ?rm else sz)"
  define bs where "bs = take (nat z) (drop (nat ?t) data)"
  have rdy: "tcp_table (l_protocol ?l)" "l_f_abort ?l \<noteq> None" "l_data ?l = Some data"
      "l_file_size ?l = int (length data)" "in_int (int (length data))" "0 < l_bufsize ?l"
      "in_int (l_bufsize ?l)" "l_sock_d ?l = fd" "0 \<le> ?t" "send_contract E"
      "sent_on fd (trace s) = take (nat ?t) data" "sz = l_bufsize ?l \<or> ?rm < l_bufsize ?l"
    using inv by (auto simp: client_inv_def client_ready_def)
  note piece = next_piece [OF rdy(9) more rdy(5-7,12) take_all [OF order_refl, symmetric] z_def bs_def]
  let ?Q = "\<lambda>sz' s'. client_inv E fd data sz' s' \<and> length (sent_on fd (trace s)) < length (sent_on fd (trace s'))"
  have "wp (tb_send_data E (Some (drop (nat ?t) data)) z)
      (\<lambda>rc. wp (cdo [set_l (\<lambda>l. l\<lparr>l_total_tx_rx := l_total_tx_rx l + rc\<rparr>)] (cret z)) ?Q (client_stops fd data))
      (client_stops fd data) s"
  proof (rule wp_tb_send_data [OF rdy(1,2,10)])
    show "cread (Some (drop (nat ?t) data)) (to_size z) = cret bs" using piece(7,11) by simp
    show "bs \<noteq> []" "in_int (int (length bs))" using piece by auto
    fix r w assume r: "1 \<le> r" "r \<le> int (length bs)"
    then show "wp (cdo [set_l (\<lambda>l. l\<lparr>l_total_tx_rx := l_total_tx_rx l + r\<rparr>)] (cret z)) ?Q
        (client_stops fd data) (s\<lparr>world := w, trace := (Posix (Send (l_sock_d (lst s)) bs), r) # trace s\<rparr>)"
      using inv piece(4,5,8,9) piece(12) [of r] rdy(8,9,11)
      by (auto simp: wp_rules client_inv_def client_ready_def)
  qed (use rdy(11) in \<open>auto simp: client_stops_def\<close>)
  then show ?thesis
    using rdy(3,4,9) to_int_id [OF piece(1)] more unfolding z_def
    by (simp add: stream_client_body_def wp_rules Let_def ptr_add_def split: if_splits)
qed

interpretation stream_client: transfer_loop
  "\<lambda>sz. cget (\<lambda>s. l_total_tx_rx (lst s) < l_file_size (lst s))" "stream_client_body E"
  "client_inv E fd data" "\<lambda>_. False" "\<lambda>_. False" "\<lambda>s. sent_on fd (trace s)" data "client_stops fd data"
  for E :: "('w, 'e) env_scheme" and fd :: int and data :: "byte list"
proof
  fix sz and s :: "('w, 'z) tb_state_scheme"
  assume inv: "client_inv E fd data sz s"
  then have len: "int (length (sent_on fd (trace s))) = l_total_tx_rx (lst s)"
    by (auto simp: client_inv_def)
  show "\<exists>rest. data = sent_on fd (trace s) @ rest"
    using inv by (metis client_inv_def append_take_drop_id)
  show "wp (cget (\<lambda>s. l_total_tx_rx (lst s) < l_file_size (lst s))) (\<lambda>go s'. client_inv E fd data sz s' \<and>
      sent_on fd (trace s') = sent_on fd (trace s) \<and> (if go then \<not> False \<and> length (sent_on fd (trace s)) < length data
       else False \<or> length (sent_on fd (trace s)) = length data \<or> False)) (client_stops fd data) s"
  proof -
    have "l_file_size (lst s) = int (length data)" "l_total_tx_rx (lst s) \<le> int (length data)"
      using inv by (auto simp: client_inv_def client_ready_def)
    then show ?thesis using len inv by (auto simp: wp_cget)
  qed
  assume "length (sent_on fd (trace s)) < length data"
  with len stream_client_body_sends [OF inv]
  show "wp (stream_client_body E sz) (\<lambda>sz' s'. client_inv E fd data sz' s' \<and>
      (False \<or> length (sent_on fd (trace s)) < length (sent_on fd (trace s')))) (client_stops fd data) s"
    by simp
qed

text \<open>The steps before the loop keep the invariant, those after it keep what it has reached.\<close>

definition client_done :: "int \<Rightarrow> byte list \<Rightarrow> ('w, 'z) tb_state_scheme \<Rightarrow> bool" where
  "client_done fd data s \<longleftrightarrow> client_ready fd data s \<and> sent_on fd (trace s) = data \<and>
     l_total_tx_rx (lst s) = int (length data)"

lemma client_inv_done: "client_inv E fd data sz s \<Longrightarrow> sent_on fd (trace s) = data \<Longrightarrow> client_done fd data s"
  using take_whole [of "l_total_tx_rx (lst s)" data] by (simp add: client_inv_def client_done_def)

lemma client_inv_frame:
  "client_inv E fd data sz s \<Longrightarrow> sent_on fd (trace s') = sent_on fd (trace s) \<Longrightarrow>
    lst s' = (lst s)\<lparr>l_status := st, l_transfer_time := t, l_connect_time := t'\<rparr> \<Longrightarrow> client_inv E fd data sz s'"
  by (simp add: client_inv_def client_ready_def)

lemma client_done_frame:
  "client_done fd data s \<Longrightarrow> sent_on fd (trace s') = sent_on fd (trace s) \<Longrightarrow>
    lst s' = (lst s)\<lparr>l_status := st, l_transfer_time := t\<rparr> \<Longrightarrow> client_done fd data s'"
  by (simp add: client_done_def client_ready_def)

lemma client_timers:
  "client_inv E fd data sz s \<Longrightarrow> wp (l_start_connect E) (\<lambda>_. client_inv E fd data sz) R s"
  "client_inv E fd data sz s \<Longrightarrow> wp (l_finish_connect E) (\<lambda>_. client_inv E fd data sz) R s"
  "client_inv E fd data sz s \<Longrightarrow> wp (l_start_transfer E) (\<lambda>_. client_inv E fd data sz) R s"
  "client_done fd data s \<Longrightarrow> wp (l_finish_transfer E) (\<lambda>_. client_done fd data) R s"
  by (auto simp: l_start_connect_def l_finish_connect_def l_start_transfer_def l_finish_transfer_def
      wp_rules client_inv_def client_done_def client_ready_def split: prod.splits)

lemma client_connects:
  assumes inv: "client_inv E fd data sz s"
  shows "wp (tb_connect E) (\<lambda>_. client_inv E fd data sz) (client_stops fd data) s"
proof -
  from inv obtain ai where ai: "l_addr_info (lst s) = Some ai" "f_connect (l_protocol (lst s)) = Some Fn_connect"
      "f_close (l_protocol (lst s)) \<noteq> None" "l_f_abort (lst s) \<noteq> None"
      "\<exists>n. sent_on fd (trace s) = take n data"
    by (auto simp: client_inv_def client_ready_def tcp_table_def)
  obtain a w where a: "sys E (Posix (Connect (l_sock_d (lst s)) (ai_addr ai))) (world s) = (a, w)" by force
  let ?s = "\<lambda>r. s\<lparr>world := w, trace := (Posix (Connect (l_sock_d (lst s)) (ai_addr ai)), r) # trace s\<rparr>"
  have bad: "wp (tb_error E info e) (\<lambda>_. wp (cseq [call_f_abort E]) Q (client_stops fd data)) (client_stops fd data) (?s r)"
    for info e Q r
    using ai(3-5) by (intro wp_error_abort) (auto simp: client_stops_def)
  have good: "client_inv E fd data sz (?s r)" for r using inv by (simp add: client_inv_def client_ready_def)
  show ?thesis
  proof (cases "a_rc a = - 1")
    case True
    then show ?thesis using ai(1,2) a by (simp add: tb_connect_def wp_rules bad)
  next
    case False
    then show ?thesis using ai(1,2) a good by (simp add: tb_connect_def wp_rules)
  qed
qed

lemma wp_tb_stream_client:
  assumes con: "send_contract E" and rdy: "client_ready fd data s"
    and zero: "l_total_tx_rx (lst s) = 0" and none: "sent_on fd (trace s) = []" and fuel: "length data \<le> fuel"
  shows "wp (tb_stream_client E fuel) (\<lambda>rc s'. rc = int (length data) \<and> sent_on fd (trace s') = data \<and>
      l_total_tx_rx (lst s') = int (length data) \<and> l_status (lst s') = TB_DISCONNECTED \<and>
      l_sock_d (lst s') = - 1 \<and> \<not> l_stat_lock (lst s')) (client_stops fd data) s"
proof -
  let ?sz = "l_bufsize (lst s)"
  have start: "client_inv E fd data ?sz s" using con rdy zero none by (simp add: client_inv_def)
  have sz: "client_inv E fd data ?sz t \<Longrightarrow> client_inv E fd data (l_bufsize (lst t)) t" for t
    by (simp add: client_inv_def)
  have loop: "wp (cbind (cget lst) (\<lambda>l. cvoid (cwhile fuel (\<lambda>sz. cget (\<lambda>s. l_total_tx_rx (lst s) < l_file_size (lst s)))
      (stream_client_body E) (l_bufsize l)))) (\<lambda>_. client_done fd data) (client_stops fd data) t"
    if "client_inv E fd data ?sz t" for t
    using stream_client.loop_ends [OF sz [OF that] fuel]
    by (auto simp: wp_rules elim!: wp_mono intro: client_inv_done)
  show ?thesis
    unfolding tb_stream_client_def wp_cdo
    apply (rule wp_step [OF client_timers(1) [OF start]])
    apply (rule wp_step, simp only: wp_cvoid, erule client_connects)
    apply (rule wp_step, erule client_timers)
    apply (rule wp_step, erule client_timers)
    apply (rule wp_step [where I = "client_inv E fd data ?sz"], simp add: wp_rules client_inv_def client_ready_def)
    apply (rule wp_step, erule loop)
    apply (rule wp_step, erule client_timers)
    apply (auto simp: wp_rules trylock_stat_def unlock_stat_def client_done_def client_ready_def tcp_table_def
        to_int_id split: prod.splits)
    done
qed


section \<open>Properties\<close>

text \<open>C1: the stream client sends the file, the whole file, and nothing but the file. Whatever the
  kernel answers, when it takes at least one byte or reports an error, the client either
  returns with exactly the bytes of its data taken on its socket, in order, the count right,
  the socket closed and the status disconnected; or its thread ends through an abort, and
  then what was taken is a beginning of the data. It runs into no undefined behaviour.\<close>

theorem stream_client_sends_file:
  assumes "send_contract E" and "client_ready fd data s"
    and "l_total_tx_rx (lst s) = 0" and "sent_on fd (trace s) = []" and "length data \<le> fuel"
  shows "(\<exists>s'. tb_stream_client E fuel s = Ok (int (length data)) s' \<and> sent_on fd (trace s') = data \<and>
      l_total_tx_rx (lst s') = int (length data) \<and> l_status (lst s') = TB_DISCONNECTED \<and>
      l_sock_d (lst s') = - 1 \<and> \<not> l_stat_lock (lst s')) \<or>
    (\<exists>h s'. tb_stream_client E fuel s = Halt h s' \<and> h \<in> {Thread_Exit, Blocked, Assert_Fail} \<and>
      (h = Thread_Exit \<longrightarrow> l_status (lst s') = TB_ABORTING) \<and> (\<exists>n. sent_on fd (trace s') = take n data))"
  using wp_tb_stream_client [OF assms]
  by (auto simp: wp_def client_stops_def ends_by_abort_def split: result.splits)

end
