(* ===== verification/TB_Stream_Server.thy ===== *)
theory TB_Stream_Server
  imports TB_Stream TB_Transfer
begin

text \<open>
  Correctness of the stream server of one connection: what it counts, and how it ends.
\<close>

section \<open>What the kernel does\<close>

fun received :: "(syscall \<times> int) list \<Rightarrow> int" where
  "received [] = 0"
| "received ((c, r) # tr) = received tr + (case c of Posix (Recv f n) \<Rightarrow> r | _ \<Rightarrow> 0)"

text \<open>
  The peer ends its connection some time: \<open>m\<close> bounds how often a receive can still bring
  bytes. A receive brings an error, nothing, or at most what the buffer holds.
\<close>

definition peer_ends :: "('w, 'e) env_scheme \<Rightarrow> ('w \<Rightarrow> nat) \<Rightarrow> bool" where
  "peer_ends E m \<longleftrightarrow> (\<forall>c w. m (snd (sys E c w)) \<le> m w) \<and> (\<forall>w. m (snd (sigint E w)) \<le> m w) \<and>
     (\<forall>fd n w. 0 < n \<longrightarrow> (let a = fst (sys E (Posix (Recv fd n)) w) in
        - 1 \<le> a_rc a \<and> a_rc a \<le> n \<and> (0 < a_rc a \<longrightarrow> m (snd (sys E (Posix (Recv fd n)) w)) < m w)))"

lemma peer_endsD:
  assumes "peer_ends E m"
  shows "sys E c w = (a, w') \<Longrightarrow> m w' \<le> m w" and "sigint E w = (b, w') \<Longrightarrow> m w' \<le> m w"
    and "0 < n \<Longrightarrow> sys E (Posix (Recv fd n)) w = (a, w') \<Longrightarrow>
      - 1 \<le> a_rc a \<and> a_rc a \<le> n \<and> (0 < a_rc a \<longrightarrow> m w' < m w)"
  using assms unfolding peer_ends_def Let_def by (metis snd_conv fst_conv)+

definition tcp_server_table :: "tb_protocol_t \<Rightarrow> bool" where
  "tcp_server_table p \<longleftrightarrow> f_recv p = Some Fn_recv \<and> f_error p = Some Fn_tb_socket_error \<and>
     f_listen p = Some Fn_listen \<and> f_close p = Some Fn_close"

lemma tb_create_protocol_tcp_server: "tb_create_protocol m TCP s = Ok p s' \<Longrightarrow> tcp_server_table p"
  by (auto simp: tb_create_protocol_def cret_def tcp_server_table_def)


section \<open>Receiving\<close>

definition server_ready :: "('w, 'z) tb_state_scheme \<Rightarrow> bool" where
  "server_ready s \<longleftrightarrow> tcp_server_table (l_protocol (lst s)) \<and> l_f_abort (lst s) \<noteq> None \<and>
     0 < l_bufsize (lst s) \<and> in_int (l_bufsize (lst s))"

text \<open>\<open>k\<close> is what the total was ahead of the receives when the server began.\<close>

definition server_inv :: "nat \<Rightarrow> int \<Rightarrow> ('w, 'z) tb_state_scheme \<Rightarrow> bool" where
  "server_inv p k s \<longleftrightarrow> server_ready s \<and> l_total_tx_rx (lst s) = k + received (trace s) \<and>
     (\<exists>r. sess s p = Some r \<and> s_thread r = None \<and> s_data_size r = l_bufsize (lst s))"

definition last_trans :: "nat \<Rightarrow> ('w, 'z) tb_state_scheme \<Rightarrow> int" where
  "last_trans p s = s_last_trans (the (sess s p))"

lemma stream_recv_step_counts:
  assumes "peer_ends E m" and inv: "server_inv p k s"
  shows "wp (stream_recv_step E p)
    (\<lambda>_ s'. server_inv p k s' \<and> (last_trans p s' = 0 \<and> m (world s') \<le> m (world s) \<or> m (world s') < m (world s)))
    ends_by_abort s"
proof -
  from inv obtain r where r: "sess s p = Some r" "s_thread r = None" "s_data_size r = l_bufsize (lst s)"
      "tcp_server_table (l_protocol (lst s))" "l_f_abort (lst s) \<noteq> None" "0 < l_bufsize (lst s)"
      "in_int (l_bufsize (lst s))" "l_total_tx_rx (lst s) = k + received (trace s)"
    by (auto simp: server_inv_def server_ready_def)
  let ?c = "Posix (Recv (s_sock_d r) (l_bufsize (lst s)))"
  obtain a w where a: "sys E ?c (world s) = (a, w)" by force
  note rc = peer_endsD(3) [OF assms(1) r(6) a] and le = peer_endsD(1) [OF assms(1) a]
  have int: "to_int (a_rc a) = a_rc a" using rc r(7) by (intro to_int_id) (auto simp: in_int_def)
  have fail: "wp (call_f_abort E) Q ends_by_abort (s\<lparr>world := w, trace := (?c, x) # trace s, sess := f\<rparr>)" for Q f x
    using r(4,5) by (intro wp_call_f_abort) (auto simp: tcp_server_table_def)
  show ?thesis
  proof (cases "a_rc a = - 1")
    case True
    then show ?thesis
      using r a fail int
      by (simp add: stream_recv_step_def tb_recv_data_def wp_rules Let_def tcp_server_table_def tb_socket_error_def)
  next
    case False
    then show ?thesis
      using r a int rc le
      by (auto simp: stream_recv_step_def tb_recv_data_def wp_rules Let_def tcp_server_table_def
          server_inv_def server_ready_def last_trans_def)
  qed
qed

lemma wp_read_command_keeps:
  assumes "peer_ends E m" and "server_inv p k s"
  shows "wp (read_command E) (\<lambda>c s'. server_inv p k s' \<and> last_trans p s' = last_trans p s \<and>
      m (world s') \<le> m (world s) \<and> c = l_command (lst s')) R s"
proof -
  obtain b w where b: "sigint E (world s) = (b, w)" by force
  obtain a w' where a: "sys E (Posix (Shutdown (l_sock_d (lst s)))) w = (a, w')" by force
  have "m w \<le> m (world s)" "m w' \<le> m w"
    using peer_endsD(2) [OF assms(1) b] peer_endsD(1) [OF assms(1) a] by auto
  then show ?thesis
    using assms(2) a b
    by (auto simp: read_command_def sig_action_def wp_rules server_inv_def server_ready_def last_trans_def)
qed

interpretation stream_receiving: receive_loop
  "\<lambda>_ :: unit. stream_recv_more E p" "\<lambda>_. stream_recv_step E p" "\<lambda>_ s. peer_ends E m \<and> server_inv p k s"
  "\<lambda>_ s. last_trans p s = 0" "\<lambda>s. leaves_loop (l_command (lst s))" "\<lambda>s. m (world s)" ends_by_abort
  for E :: "('w, 'e) env_scheme" and p m k
proof
  fix s :: "('w, 'z) tb_state_scheme"
  assume inv: "peer_ends E m \<and> server_inv p k s"
  then obtain r where r: "sess s p = Some r" by (auto simp: server_inv_def)
  show "wp (stream_recv_more E p) (\<lambda>go s'. (peer_ends E m \<and> server_inv p k s') \<and> (last_trans p s' = 0 \<longleftrightarrow> last_trans p s = 0) \<and>
      m (world s') \<le> m (world s) \<and> (if go then last_trans p s \<noteq> 0 else last_trans p s = 0 \<or> leaves_loop (l_command (lst s'))))
      ends_by_abort s"
    using inv r by (auto simp: stream_recv_more_def wp_rules last_trans_def intro!: wp_mono [OF wp_read_command_keeps [of E m p k s]])
  show "wp (stream_recv_step E p) (\<lambda>_ s'. (peer_ends E m \<and> server_inv p k s') \<and>
      (last_trans p s' = 0 \<or> m (world s') < m (world s))) ends_by_abort s"
    using inv by (auto intro!: wp_mono [OF stream_recv_step_counts [of E m p k s]])
qed

lemma server_loop:
  assumes "peer_ends E m" and "server_inv p k s" and "m (world s) < fuel"
  shows "wp (cwhile fuel (\<lambda>_. stream_recv_more E p) (\<lambda>_. stream_recv_step E p) ()) (\<lambda>_. server_inv p k) ends_by_abort s"
  by (rule wp_mono [OF stream_receiving.loop_ends]) (use assms in \<open>auto simp: stream_receiving.rounds_def\<close>)


lemma stdio_run_quiet:
  "stdio_run E w tr w' tr' \<Longrightarrow> peer_ends E m \<Longrightarrow> received tr' = received tr \<and> m w' \<le> m w"
  by (induction rule: stdio_run.induct) (auto dest: peer_endsD(1) intro: order_trans)



section \<open>One connection\<close>

definition server_end :: "int \<Rightarrow> halt \<Rightarrow> ('w, 'z) tb_state_scheme \<Rightarrow> bool" where
  "server_end k h s \<longleftrightarrow> ends_by_abort h s \<or>
     (h = Undefined Use_After_Free \<and> l_total_tx_rx (lst s) = k + received (trace s) \<and>
      l_status (lst s) = TB_DISCONNECTED \<and> l_curr_session (lst s) = None \<and> l_stat_lock (lst s) \<and>
      (\<exists>fd rc. hd (trace s) = (Posix (Close fd), rc)))"

text \<open>Before the buffer is there; \<open>n\<close> bounds what the peer still sends.\<close>

definition accepting :: "('w \<Rightarrow> nat) \<Rightarrow> nat \<Rightarrow> int \<Rightarrow> int \<Rightarrow> nat \<Rightarrow> ('w, 'z) tb_state_scheme \<Rightarrow> bool" where
  "accepting m p k b n s \<longleftrightarrow> server_ready s \<and> l_total_tx_rx (lst s) = k + received (trace s) \<and>
     l_bufsize (lst s) = b \<and> m (world s) \<le> n \<and>
     (\<exists>r. sess s p = Some r \<and> s_thread r = None \<and> s_addr_in r \<noteq> None)"

lemma accepting_steps:
  assumes "peer_ends E m" and acc: "accepting m p k b n s"
  shows "wp (l_start_transfer E) (\<lambda>_. accepting m p k b n) R s"
    and "wp (cwhen c (tb_abort E)) (\<lambda>_. accepting m p k b n) (server_end k) s"
    and "wp (cbind (cmalloc E sz) (\<lambda>d. store_session (Some p) (\<lambda>r. r\<lparr>s_data := d\<rparr>)))
      (\<lambda>_. accepting m p k b n) R s"
proof -
  have le: "m w' \<le> n" if "sys E c (world s) = (a, w')" for c a w'
    using peer_endsD(1) [OF assms(1) that] acc by (simp add: accepting_def)
  show "wp (l_start_transfer E) (\<lambda>_. accepting m p k b n) R s"
    using acc le
    by (auto simp: l_start_transfer_def wp_rules accepting_def server_ready_def split: prod.splits)
  show "wp (cwhen c (tb_abort E)) (\<lambda>_. accepting m p k b n) (server_end k) s"
    using acc by (auto simp: wp_cwhen accepting_def server_ready_def tcp_server_table_def server_end_def
        intro!: wp_tb_abort)
  show "wp (cbind (cmalloc E sz) (\<lambda>d. store_session (Some p) (\<lambda>r. r\<lparr>s_data := d\<rparr>)))
      (\<lambda>_. accepting m p k b n) R s"
    using acc le
    by (auto simp: wp_rules accepting_def server_ready_def split: prod.splits)
qed

lemma accepting_LOG_ADD:
  assumes ends: "peer_ends E m" and acc: "accepting m p k b n s"
  shows "wp (cbind (load_session (Some p)) (\<lambda>r. cbind (cderef Null_Deref (s_addr_in r)) (\<lambda>ad. LOG_ADD E i ad)))
      (\<lambda>_. accepting m p k b n) (server_end k) s"
proof -
  have quiet: "received tr = received (trace s) \<and> m w \<le> n" if "stdio_run E (world s) (trace s) w tr" for w tr
    using stdio_run_quiet [OF that ends] acc by (simp add: accepting_def)
  show ?thesis
    using acc quiet
    by (auto simp: wp_rules LOG_ADD_def tb_address_def accepting_def server_ready_def server_end_def
        ends_by_abort_def intro!: wp_LOG)
qed

lemma server_steps:
  assumes "server_inv p k s"
  shows "wp (l_finish_transfer E) (\<lambda>_. server_inv p k) R s"
  using assms by (auto simp: l_finish_transfer_def wp_rules server_inv_def server_ready_def split: prod.splits)

lemma server_closes:
  assumes "server_inv p k s"
  shows "wp (cseq [trylock_stat, set_l (\<lambda>l. l\<lparr>l_status := TB_DISCONNECTED\<rparr>),
      cbind (load_session (Some p)) (\<lambda>r. cvoid (do_sys E (Posix (Close (s_sock_d r))))),
      tb_destroy_session (Some p), set_l (\<lambda>l. l\<lparr>l_curr_session := None\<rparr>),
      cbind (load_session (Some p)) (\<lambda>r. cvoid (call_close E f (s_sock_d r))), m1, m2]) Q (server_end k) s"
  using assms
  by (auto simp: wp_rules trylock_stat_def tb_destroy_session_def server_inv_def server_end_def split: prod.splits)


lemma serve_accepted:
  fixes s :: "('w, 'z) tb_state_scheme" and E :: "('w, 'e) lenv_scheme"
  assumes ends: "peer_ends E m" and acc: "accepting m p k (l_bufsize l) n s" and fuel: "n < fuel"
  shows "wp (stream_serve_accepted E fuel l p c) Q (server_end k) s"
proof -
  have abort: "ends_by_abort h t \<Longrightarrow> server_end k h t" for h and t :: "('w, 'z) tb_state_scheme"
    by (simp add: server_end_def)
  let ?I = "\<lambda>s. server_inv p k s \<and> m (world s) \<le> n" and ?b = "l_bufsize l"
  have size: "wp (store_session (Some p) (\<lambda>r. r\<lparr>s_data_size := to_size ?b\<rparr>)) (\<lambda>_. ?I) R t"
    if "accepting m p k ?b n t" for R and t :: "('w, 'z) tb_state_scheme"
  proof -
    have "to_size ?b = ?b" using that by (intro to_size_id) (auto simp: accepting_def server_ready_def in_int_def)
    with that show ?thesis by (auto simp: wp_rules accepting_def server_inv_def server_ready_def)
  qed
  have first: "wp (stream_recv_step E p) (\<lambda>_. ?I) (server_end k) t" if "?I t" for t :: "('w, 'z) tb_state_scheme"
    by (rule wp_mono [OF stream_recv_step_counts [OF ends conjunct1 [OF that]]]) (use that abort in auto)
  have loop: "wp (cvoid (cwhile fuel (\<lambda>_. stream_recv_more E p) (\<lambda>_. stream_recv_step E p) ()))
      (\<lambda>_. server_inv p k) (server_end k) t" if "?I t" for t :: "('w, 'z) tb_state_scheme"
  proof -
    have "m (world t) < fuel" using that fuel by simp
    from server_loop [OF ends conjunct1 [OF that] this] show ?thesis
      unfolding wp_cvoid by (rule wp_mono) (use abort in auto)
  qed
  show ?thesis
    unfolding stream_serve_accepted_def
    by (rule wp_step, rule accepting_steps [OF ends acc], rule wp_step, erule accepting_steps [OF ends],
        rule wp_step, erule accepting_LOG_ADD [OF ends], rule wp_step, erule accepting_steps [OF ends],
        rule wp_step, erule size,
        rule wp_step [where I = ?I], simp add: wp_rules server_inv_def server_ready_def,
        rule wp_step [where I = ?I], simp add: wp_rules server_inv_def server_ready_def,
        rule wp_step, erule first, rule wp_step, erule loop, rule wp_step, erule server_steps,
        erule server_closes)
qed


lemma wp_stream_serve_one:
  assumes ends: "peer_ends E m" and rdy: "server_ready s"
    and total: "l_total_tx_rx (lst s) = k + received (trace s)" and fuel: "m (world s) < fuel"
  shows "wp (stream_serve_one E fuel) (\<lambda>_ _. False) (server_end k) s"
  unfolding stream_serve_one_def wp_cdo wp_cseq_Cons
proof (rule wp_LOG)
  fix w0 tr0 assume log: "stdio_run E (world s) (trace s) w0 tr0"
  let ?c = "Posix (Accept (l_sock_d (lst s)))"
  obtain a w1 where a: "sys E ?c w0 = (a, w1)" by force
  have acc: "accepting m (brk s) k (l_bufsize (lst s)) (m (world s))
      (s\<lparr>brk := brk s + 1, world := w1, trace := (?c, x) # tr0, sess := (sess s)(brk s \<mapsto> r)\<rparr>)"
    if "s_thread r = None" "s_addr_in r \<noteq> None" for r x
    using stdio_run_quiet [OF log ends] peer_endsD(1) [OF ends a] rdy total that
    by (simp add: accepting_def server_ready_def)
  note accepted = serve_accepted [OF ends acc fuel, where Q = "\<lambda>_ _. False"]
  show "wp (cseq []) (\<lambda>_. wp (cbind (tb_create_server_session E) (\<lambda>p. cbind (cget lst) (\<lambda>l.
        cbind (do_sys E (Posix (Accept (l_sock_d l)))) (\<lambda>a.
        cdo [store_session (Some p) (\<lambda>r. r\<lparr>s_sock_d := a_rc a,
               s_addr_in := (if a_rc a = - 1 then s_addr_in r else Some (a_peer a))\<rparr>)]
          (stream_serve_accepted E fuel l p (a_rc a)))))) (\<lambda>_ _. False) (server_end k))
      (server_end k) (s\<lparr>world := w0, trace := tr0\<rparr>)"
    using a accepted
    by (simp add: wp_rules tb_create_server_session_def)
qed (simp add: server_end_def ends_by_abort_def)



section \<open>The whole server\<close>

definition server_idle :: "('w \<Rightarrow> nat) \<Rightarrow> nat \<Rightarrow> ('w, 'z) tb_state_scheme \<Rightarrow> bool" where
  "server_idle m n s \<longleftrightarrow> server_ready s \<and> l_total_tx_rx (lst s) = 0 \<and> received (trace s) = 0 \<and> m (world s) < n"

lemma server_listens:
  assumes ends: "peer_ends E m" and idle: "server_idle m n s"
  shows "wp (tb_listen E) (\<lambda>_. server_idle m n) (server_end k) s"
proof -
  let ?c = "Posix (Listen (l_sock_d (lst s)) 10)"
  obtain a w where a: "sys E ?c (world s) = (a, w)" by force
  have le: "m w < n" using peer_endsD(1) [OF ends a] idle by (simp add: server_idle_def)
  have rdy: "f_listen (l_protocol (lst s)) = Some Fn_listen" "f_close (l_protocol (lst s)) \<noteq> None"
      "l_f_abort (lst s) \<noteq> None"
    using idle by (auto simp: server_idle_def server_ready_def tcp_server_table_def)
  have bad: "wp (tb_error E info e) (\<lambda>_. wp (cseq [call_f_abort E]) Q (server_end k)) (server_end k)
      (s\<lparr>world := w, trace := (?c, r) # trace s\<rparr>)" for info e Q r
    using rdy(2,3) by (intro wp_error_abort) (auto simp: server_end_def)
  have good: "server_idle m n (s\<lparr>world := w, trace := (?c, r) # trace s\<rparr>)" for r
    using idle le by (simp add: server_idle_def server_ready_def)
  show ?thesis
  proof (cases "a_rc a = - 1")
    case True
    then show ?thesis using rdy(1) a by (simp add: tb_listen_def wp_rules bad)
  next
    case False
    then show ?thesis using rdy(1) a good by (simp add: tb_listen_def wp_rules)
  qed
qed

lemma server_commanded:
  assumes ends: "peer_ends E m" and idle: "server_idle m n s"
  shows "wp (read_command E) (\<lambda>c s'. server_idle m n s' \<and> c = l_command (lst s')) R s"
proof -
  obtain b w where b: "sigint E (world s) = (b, w)" by force
  obtain a w' where a: "sys E (Posix (Shutdown (l_sock_d (lst s)))) w = (a, w')" by force
  have "m w \<le> m (world s)" "m w' \<le> m w" using peer_endsD(2) [OF ends b] peer_endsD(1) [OF ends a] by auto
  then show ?thesis
    using idle a b by (auto simp: read_command_def sig_action_def wp_rules server_idle_def server_ready_def)
qed

lemma server_connections:
  assumes ends: "peer_ends E m" and idle: "server_idle m fuel s" and conns: "0 < conns"
  shows "wp (cwhile conns (\<lambda>_. cbind (read_command E) (\<lambda>c. cret (\<not> leaves_loop c))) (\<lambda>_. stream_serve_one E fuel) ())
    (\<lambda>_ s'. server_idle m fuel s' \<and> leaves_loop (l_command (lst s'))) (server_end 0) s"
proof -
  from conns obtain n where n: "conns = Suc n" by (cases conns) auto
  have serve: "wp (stream_serve_one E fuel) Q (server_end 0) t" if "server_idle m fuel t" for Q t
    by (rule wp_mono [OF wp_stream_serve_one [OF ends, of t 0 fuel]]) (use that in \<open>auto simp: server_idle_def\<close>)
  show ?thesis
    unfolding n
    by (subst cwhile.simps)
      (auto simp: wp_rules intro!: wp_mono [OF server_commanded [OF ends idle]] serve)
qed

lemma wp_tb_stream_server:
  assumes ends: "peer_ends E m" and idle: "server_idle m fuel s" and conns: "0 < conns"
  shows "wp (tb_stream_server E conns fuel)
    (\<lambda>rc s'. rc = 0 \<and> leaves_loop (l_command (lst s')) \<and> received (trace s') = 0) (server_end 0) s"
  unfolding tb_stream_server_def wp_cdo
  apply (rule wp_step, unfold wp_cvoid, rule server_listens [OF ends idle])
  apply (rule wp_step [where I = "server_idle m fuel"], simp add: wp_rules server_idle_def server_ready_def)
  apply (rule wp_step, unfold wp_cvoid, erule server_connections [OF ends _ conns])
  apply (auto simp: wp_rules server_idle_def server_ready_def tcp_server_table_def to_int_id in_int_def
      split: prod.splits)
  done


section \<open>Properties\<close>

text \<open>C13: the stream server counts what it receives, and never gets to serve a second connection.
  When the peer ends its connection some time, the server ends in one of three ways: the user
  interrupted it before the first connection, and it returns 0; an error made it abort; or it
  has served one connection, the total is what the receives returned, the connection is
  closed, the session freed, and the server then reads the freed session to close it again,
  with the statistics locked.\<close>

theorem stream_server_ends:
  assumes "peer_ends E m" and "server_ready s" and "0 < conns" and "m (world s) < fuel"
    and "l_total_tx_rx (lst s) = 0" and "received (trace s) = 0"
  shows "(\<exists>s'. tb_stream_server E conns fuel s = Ok 0 s' \<and> leaves_loop (l_command (lst s')) \<and> received (trace s') = 0) \<or>
    (\<exists>h s'. tb_stream_server E conns fuel s = Halt h s' \<and>
      (ends_by_abort h s' \<or>
       h = Undefined Use_After_Free \<and> l_total_tx_rx (lst s') = received (trace s') \<and>
       l_status (lst s') = TB_DISCONNECTED \<and> l_curr_session (lst s') = None \<and> l_stat_lock (lst s') \<and>
       (\<exists>fd rc. hd (trace s') = (Posix (Close fd), rc))))"
proof -
  have "server_idle m fuel s" using assms by (simp add: server_idle_def)
  from wp_tb_stream_server [OF assms(1) this assms(3)]
  show ?thesis by (auto simp: wp_def server_end_def split: result.splits)
qed

end
