(* ===== verification/TB_Stream_Sessions.thy ===== *)
theory TB_Stream_Sessions
  imports TB_Stream TB_Transfer
begin

text \<open>
  Correctness of the connections of a multi-connection stream client: the thread of a session
  sends the session's part of the data, and the parts make up the file.
\<close>

section \<open>The thread of a session\<close>

definition conn_ready :: "nat \<Rightarrow> int \<Rightarrow> byte list \<Rightarrow> ('w, 'z) tb_state_scheme \<Rightarrow> bool" where
  "conn_ready p fd data s \<longleftrightarrow> (\<exists>r d. sess s p = Some r \<and> s_data r = Some d \<and> s_sock_d r = fd \<and>
     s_data_size r = int (length data) \<and> data = take (length data) d \<and> in_int (int (length data)) \<and>
     0 < s_pack_size r \<and> in_int (s_pack_size r) \<and> s_addr_info r \<noteq> None \<and>
     s_connect_t r \<noteq> None \<and> s_transfer_t r \<noteq> None)"

definition conn_total :: "nat \<Rightarrow> ('w, 'z) tb_state_scheme \<Rightarrow> int" where
  "conn_total p s = s_total_bytes (the (sess s p))"

definition conn_pack :: "nat \<Rightarrow> ('w, 'z) tb_state_scheme \<Rightarrow> int" where
  "conn_pack p s = s_pack_size (the (sess s p))"

definition conn_inv ::
  "('w, 'e) env_scheme \<Rightarrow> nat \<Rightarrow> int \<Rightarrow> byte list \<Rightarrow> int \<times> bool \<Rightarrow> ('w, 'z) tb_state_scheme \<Rightarrow> bool" where
  "conn_inv E p fd data l s \<longleftrightarrow> send_contract E \<and> conn_ready p fd data s \<and>
     0 \<le> conn_total p s \<and> conn_total p s \<le> int (length data) \<and>
     sent_on fd (trace s) = take (nat (conn_total p s)) data \<and>
     (snd l \<or> fst l = conn_pack p s \<or> int (length data) - conn_total p s < conn_pack p s)"

text \<open>
  The bodies of the stream and of the UDT connection differ in the call that sends and in the
  type of its length.
\<close>

definition send_piece ::
  "('w, 'e) env_scheme \<Rightarrow> (int \<Rightarrow> byte list \<Rightarrow> syscall) \<Rightarrow> (int \<Rightarrow> int) \<Rightarrow> nat \<Rightarrow> int \<times> bool \<Rightarrow>
   (('w, 'z) tb_state_scheme, int \<times> bool) prog" where
  "send_piece E call conv p l =
     cbind (load_session (Some p)) (\<lambda>r.
     let rmbytes = to_int (to_size (s_data_size r - s_total_bytes r));
         sz = (if rmbytes < s_pack_size r then rmbytes else fst l)
     in cbind (ptr_add (s_data r) (s_total_bytes r)) (\<lambda>data.
        cbind (cread data (conv sz)) (\<lambda>bs.
        cbind (do_sys E (call (s_sock_d r) bs)) (\<lambda>a.
        if to_int (a_rc a) = - 1 then cret (sz, True)
        else cdo [store_session (Some p) (\<lambda>r. r\<lparr>s_total_bytes := s_total_bytes r + to_int (a_rc a)\<rparr>)]
               (cret (sz, False))))))"

definition send_call :: "(int \<Rightarrow> byte list \<Rightarrow> syscall) \<Rightarrow> (int \<Rightarrow> int) \<Rightarrow> bool" where
  "send_call call conv \<longleftrightarrow> call = (\<lambda>fd bs. Posix (Send fd bs)) \<and> conv = to_size \<or>
     call = (\<lambda>fd bs. Udt (Udt_send fd bs)) \<and> conv = id"

lemma send_piece_sends:
  fixes s :: "('w, 'z) tb_state_scheme"
  assumes call: "send_call call conv"
    and inv: "conn_inv E p fd data l s" and ok: "\<not> snd l" and more: "conn_total p s < int (length data)"
  shows "wp (send_piece E call conv p l) (\<lambda>l' s'. conn_inv E p fd data l' s' \<and>
      (snd l' \<or> length (sent_on fd (trace s)) < length (sent_on fd (trace s')))) R s"
proof -
  from inv obtain r d where rdy: "send_contract E" "sess s p = Some r" "s_data r = Some d" "s_sock_d r = fd"
      "s_data_size r = int (length data)" "data = take (length data) d" "in_int (int (length data))"
      "0 < s_pack_size r" "in_int (s_pack_size r)" "0 \<le> s_total_bytes r"
      "sent_on fd (trace s) = take (nat (s_total_bytes r)) data"
      "fst l = s_pack_size r \<or> int (length data) - s_total_bytes r < s_pack_size r"
    and some: "s_addr_info r \<noteq> None" "s_connect_t r \<noteq> None" "s_transfer_t r \<noteq> None"
    using ok by (auto simp: conn_inv_def conn_ready_def conn_total_def conn_pack_def)
  let ?t = "s_total_bytes r"
  let ?rm = "int (length data) - ?t"
  define z where "z = (if ?rm < s_pack_size r then ?rm else fst l)"
  define bs where "bs = take (nat z) (drop (nat ?t) data)"
  have t: "?t < int (length data)" using more rdy(2) by (simp add: conn_total_def)
  note piece = next_piece [OF rdy(10) t rdy(7-9,12,6) z_def bs_def]
  have le: "length data \<le> length d" using rdy(6) by (metis length_take min.cobounded1 min.commute nat_le_linear take_all_iff)
  have conv: "conv z = z" using call piece(7) by (auto simp: send_call_def)
  let ?s = "\<lambda>w c. s\<lparr>world := w, trace := (call fd bs, c) # trace s\<rparr>"
  have body: "wp (send_piece E call conv p l) Q R s = (case sys E (call fd bs) (world s) of (a, w) \<Rightarrow>
      if to_int (a_rc a) = - 1 then Q (z, True) (?s w (a_rc a))
      else Q (z, False) ((?s w (a_rc a))\<lparr>sess := (sess s)(p \<mapsto> r\<lparr>s_total_bytes := ?t + to_int (a_rc a)\<rparr>)\<rparr>))" for Q
  proof -
    have buf: "cread (Some (drop (nat ?t) d)) z = (cret bs :: (('w, 'z) tb_state_scheme, byte list) prog)"
      by (rule piece)
    show ?thesis
      using rdy(2-5,10) piece(2) conv to_int_id [OF piece(1)] t buf le
      by (simp add: send_piece_def wp_rules Let_def ptr_add_def z_def [symmetric]
          split del: if_split cong del: if_weak_cong split: prod.splits)
  qed
  have taken: "sent_on fd ((call fd bs, c) # tr) = sent_on fd tr @ take (nat c) bs" for c tr
    using call by (auto simp: send_call_def)
  obtain a w where a: "sys E (call fd bs) (world s) = (a, w)" by force
  from call have "call = (\<lambda>fd bs. Posix (Send fd bs)) \<or> call = (\<lambda>fd bs. Udt (Udt_send fd bs))"
    by (auto simp: send_call_def)
  with a send_contractD [OF rdy(1) piece(10)]
  consider "a_rc a = - 1" | "1 \<le> a_rc a" "a_rc a \<le> int (length bs)" by metis
  then show ?thesis
  proof cases
    case 1
    then have "to_int (a_rc a) = - 1" by (simp add: to_int_id in_int_def)
    with 1 rdy some a inv show ?thesis
      by (auto simp: body conn_inv_def conn_ready_def conn_total_def conn_pack_def taken simp del: sent_on.simps)
  next
    case 2
    then have int: "to_int (a_rc a) = a_rc a" using piece(4,6,9) by (intro to_int_id) (auto simp: in_int_def)
    let ?s' = "(?s w (a_rc a))\<lparr>sess := (sess s)(p \<mapsto> r\<lparr>s_total_bytes := ?t + a_rc a\<rparr>)\<rparr>"
    have sent: "sent_on fd (trace ?s') = take (nat (?t + a_rc a)) data"
      using rdy(11) piece(4,9) piece(12) [of "a_rc a"] 2 by (simp add: taken del: sent_on.simps)
    have "conn_inv E p fd data (z, False) ?s'"
      unfolding conn_inv_def sent using 2 rdy(1-10) some piece(4,5,8,9)
      by (auto simp: conn_ready_def conn_total_def conn_pack_def)
    moreover have "length (sent_on fd (trace s)) < length (sent_on fd (trace ?s'))"
      unfolding sent rdy(11) using 2 piece(4,5,9) rdy(10) t by auto
    ultimately show ?thesis using 2 a by (simp add: body int)
  qed
qed

lemma send_piece_loop:
  assumes "send_call call conv"
  shows "transfer_loop (stream_connection_more p) (send_piece E call conv p) (conn_inv E p fd data) snd (\<lambda>_. False)
    (\<lambda>s :: ('w, 'z) tb_state_scheme. sent_on fd (trace s)) data (\<lambda>_ _. False)"
proof
  fix l and s :: "('w, 'z) tb_state_scheme"
  assume inv: "conn_inv E p fd data l s"
  then have len: "int (length (sent_on fd (trace s))) = conn_total p s"
    by (auto simp: conn_inv_def)
  show "\<exists>rest. data = sent_on fd (trace s) @ rest"
    using inv by (metis conn_inv_def append_take_drop_id)
  show "wp (stream_connection_more p l) (\<lambda>go s'. conn_inv E p fd data l s' \<and>
      sent_on fd (trace s') = sent_on fd (trace s) \<and> (if go then \<not> snd l \<and> length (sent_on fd (trace s)) < length data
       else snd l \<or> length (sent_on fd (trace s)) = length data \<or> False)) (\<lambda>_ _. False) s"
  proof -
    from inv obtain r where r: "sess s p = Some r" "s_data_size r = int (length data)"
        "0 \<le> s_total_bytes r" "s_total_bytes r \<le> int (length data)" "in_int (int (length data))"
      by (auto simp: conn_inv_def conn_ready_def conn_total_def)
    have "to_size (s_total_bytes r) = s_total_bytes r"
      using r(3-5) by (intro to_size_id) (auto simp: in_int_def)
    moreover have "s_total_bytes r < int (length data) \<longleftrightarrow> length (sent_on fd (trace s)) < length data"
      using len r(1) by (auto simp: conn_total_def)
    ultimately show ?thesis
      using r len inv by (auto simp: stream_connection_more_def wp_rules conn_total_def)
  qed
  assume "\<not> snd l" "length (sent_on fd (trace s)) < length data"
  with len send_piece_sends [OF assms inv]
  show "wp (send_piece E call conv p l) (\<lambda>l' s'. conn_inv E p fd data l' s' \<and>
      (snd l' \<or> length (sent_on fd (trace s)) < length (sent_on fd (trace s')))) (\<lambda>_ _. False) s"
    by simp
qed

lemma stream_connection_piece:
  "stream_connection_body E = send_piece E (\<lambda>fd bs. Posix (Send fd bs)) to_size"
  by (simp add: fun_eq_iff stream_connection_body_def send_piece_def)

interpretation stream_connection: transfer_loop
  "stream_connection_more p" "stream_connection_body E p"
  "conn_inv E p fd data" snd "\<lambda>_. False" "\<lambda>s. sent_on fd (trace s)" data "\<lambda>_ _. False"
  for E :: "('w, 'e) senv_scheme" and p :: nat and fd :: int and data :: "byte list"
  unfolding stream_connection_piece by (rule send_piece_loop) (simp add: send_call_def)

lemma conn_inv_frame:
  assumes "conn_inv E p fd data l s" and "sess s p = Some r" and "sent_on fd (trace s') = sent_on fd (trace s)"
    and "sess s' p = Some (r\<lparr>s_status := st, s_transfer_t := Some t, s_connect_t := Some t'\<rparr>)"
  shows "conn_inv E p fd data l s'"
  using assms by (auto simp: conn_inv_def conn_ready_def conn_total_def conn_pack_def)

lemma conn_steps:
  assumes inv: "conn_inv E p fd data l s"
  shows "wp (start_timer E (Some p) s_connect_t put_connect) (\<lambda>_. conn_inv E p fd data l) R s"
    and "wp (finish_timer E (Some p) s_connect_t put_connect) (\<lambda>_. conn_inv E p fd data l) R s"
    and "wp (start_timer E (Some p) s_transfer_t put_transfer) (\<lambda>_. conn_inv E p fd data l) R s"
    and "wp (finish_timer E (Some p) s_transfer_t put_transfer) (\<lambda>_. conn_inv E p fd data l) R s"
    and "wp (store_session (Some p) (\<lambda>r. r\<lparr>s_status := st\<rparr>)) (\<lambda>_. conn_inv E p fd data l) R s"
    and "wp (tb_log_session_info E (Some p) info LOG_INFO 0) (\<lambda>_. conn_inv E p fd data l) R s"
    and "wp (tb_print_times (Some p)) (\<lambda>_. conn_inv E p fd data l) R s"
proof -
  from inv obtain r where r: "sess s p = Some r" "s_connect_t r \<noteq> None" "s_transfer_t r \<noteq> None"
    by (auto simp: conn_inv_def conn_ready_def)
  note defs = start_timer_def finish_timer_def tb_print_times_def tb_log_session_info_def tb_log_info_def
    tb_write_log_def wp_rules Let_def
  note inv' = inv [unfolded conn_inv_def conn_ready_def conn_total_def conn_pack_def]
  show "wp (start_timer E (Some p) s_connect_t put_connect) (\<lambda>_. conn_inv E p fd data l) R s"
    and "wp (finish_timer E (Some p) s_connect_t put_connect) (\<lambda>_. conn_inv E p fd data l) R s"
    and "wp (start_timer E (Some p) s_transfer_t put_transfer) (\<lambda>_. conn_inv E p fd data l) R s"
    and "wp (finish_timer E (Some p) s_transfer_t put_transfer) (\<lambda>_. conn_inv E p fd data l) R s"
    and "wp (store_session (Some p) (\<lambda>r. r\<lparr>s_status := st\<rparr>)) (\<lambda>_. conn_inv E p fd data l) R s"
    and "wp (tb_log_session_info E (Some p) info LOG_INFO 0) (\<lambda>_. conn_inv E p fd data l) R s"
    and "wp (tb_print_times (Some p)) (\<lambda>_. conn_inv E p fd data l) R s"
    using r inv'
    by (auto simp: defs conn_inv_def conn_ready_def conn_total_def conn_pack_def split: prod.splits option.splits)
qed

definition conn_result :: "nat \<Rightarrow> int \<Rightarrow> byte list \<Rightarrow> int \<Rightarrow> ('w, 'z) tb_state_scheme \<Rightarrow> bool" where
  "conn_result p fd data rc s \<longleftrightarrow>
     (rc = 0 \<and> sent_on fd (trace s) = data \<and> conn_total p s = int (length data) \<and>
        s_status (the (sess s p)) = SESSION_COMPLETE) \<or>
     (rc = - 1 \<and> (\<exists>n. sent_on fd (trace s) = take n data))"

lemma conn_finishes:
  assumes inv: "conn_inv E p fd data l s" and all: "sent_on fd (trace s) = data"
  shows "wp (stream_connection_end E p) (conn_result p fd data) R s"
proof -
  have total: "conn_total p s = int (length data)"
    using inv all take_whole [of "conn_total p s" data] by (simp add: conn_inv_def)
  obtain r where r: "sess s p = Some r" "s_connect_t r \<noteq> None" "s_transfer_t r \<noteq> None"
      "s_total_bytes r = int (length data)"
    using inv total by (auto simp: conn_inv_def conn_ready_def conn_total_def)
  with all show ?thesis
    by (auto simp: stream_connection_end_def finish_timer_def tb_log_session_info_def tb_log_info_def
        tb_write_log_def tb_print_times_def wp_rules Let_def conn_result_def conn_total_def
        split: prod.splits option.splits)
qed

lemma conn_transfers:
  fixes s :: "('w, 'z) tb_state_scheme" and E :: "('w, 'e) senv_scheme"
  assumes inv: "conn_inv E p fd data (conn_pack p s, False) s" and fuel: "length data \<le> fuel"
  shows "wp (stream_connection_transfer E fuel p) (conn_result p fd data) R s"
proof -
  from inv obtain r where r: "sess s p = Some r" by (auto simp: conn_inv_def conn_ready_def)
  then have inv': "conn_inv E p fd data (s_pack_size r, False) s" using inv by (simp add: conn_pack_def)
  have "wp (if snd l then cret (- 1) else stream_connection_end E p) (conn_result p fd data) R t"
    if "conn_inv E p fd data l t \<and> (snd l \<or> sent_on fd (trace t) = data)" for l and t :: "('w, 'z) tb_state_scheme"
  proof (cases "snd l")
    case True
    then show ?thesis using that by (auto simp: wp_cret conn_result_def conn_inv_def)
  next
    case False
    then show ?thesis using that conn_finishes [of E p fd data l t] by simp
  qed
  then show ?thesis
    using r by (auto simp: stream_connection_transfer_def wp_cbind wp_load_session
        intro!: wp_mono [OF stream_connection.loop_ends [OF inv' fuel]])
qed

lemma wp_tb_stream_connection:
  fixes s :: "('w, 'z) tb_state_scheme" and E :: "('w, 'e) senv_scheme"
  assumes con: "send_contract E" and rdy: "conn_ready p fd data s"
    and zero: "conn_total p s = 0" and none: "sent_on fd (trace s) = []" and fuel: "length data \<le> fuel"
  shows "wp (tb_stream_connection E fuel p) (conn_result p fd data) (\<lambda>_ _. False) s"
proof -
  let ?I = "conn_inv E p fd data (conn_pack p s, False)"
  have start: "?I s" using con rdy zero none by (simp add: conn_inv_def)
  have pack: "?I t \<Longrightarrow> conn_inv E p fd data (conn_pack p t, False) t" for t :: "('w, 'z) tb_state_scheme"
    by (simp add: conn_inv_def)
  have rest: "wp (cdo [finish_timer E (Some p) s_connect_t put_connect,
      tb_log_session_info E (Some p) ''Connected'' LOG_INFO 0,
      store_session (Some p) (\<lambda>r. r\<lparr>s_status := SESSION_CONNECTED\<rparr>),
      start_timer E (Some p) s_transfer_t put_transfer] (stream_connection_transfer E fuel p))
      (conn_result p fd data) (\<lambda>_ _. False) t" if "?I t" for t :: "('w, 'z) tb_state_scheme"
    unfolding wp_cdo
    apply (rule wp_step, rule conn_steps(2) [OF that])
    apply (rule wp_step, erule conn_steps(6))
    apply (rule wp_step, erule conn_steps(5))
    apply (rule wp_step, erule conn_steps(3))
    apply (unfold wp_cseq_Nil)
    apply (rule conn_transfers [OF pack fuel], assumption)
    done
  show ?thesis
    unfolding tb_stream_connection_def wp_cdo
  proof (rule wp_step, rule conn_steps(6) [OF start], rule wp_step, erule conn_steps(1), unfold wp_cseq_Nil)
    fix t :: "('w, 'z) tb_state_scheme" assume t: "?I t"
    then obtain r ai where r: "sess t p = Some r" "s_addr_info r = Some ai" "s_sock_d r = fd"
      by (auto simp: conn_inv_def conn_ready_def)
    obtain a w where a: "sys E (Posix (Connect fd (ai_addr ai))) (world t) = (a, w)" by force
    let ?t = "\<lambda>c. t\<lparr>world := w, trace := (Posix (Connect fd (ai_addr ai)), c) # trace t\<rparr>"
    have t': "?I (?t c)" for c using t by (simp add: conn_inv_def conn_ready_def conn_total_def conn_pack_def)
    have fail: "conn_result p fd data (- 1) (?t c)" for c
      using t by (auto simp: conn_result_def conn_inv_def)
    show "wp (cbind (load_session (Some p)) (\<lambda>r. cbind (cderef Null_Deref (s_addr_info r)) (\<lambda>ai.
        cbind (do_sys E (Posix (Connect (s_sock_d r) (ai_addr ai)))) (\<lambda>a.
        if a_rc a = - 1 then cret (- 1)
        else cdo [finish_timer E (Some p) s_connect_t put_connect,
                  tb_log_session_info E (Some p) ''Connected'' LOG_INFO 0,
                  store_session (Some p) (\<lambda>r. r\<lparr>s_status := SESSION_CONNECTED\<rparr>),
                  start_timer E (Some p) s_transfer_t put_transfer]
               (stream_connection_transfer E fuel p))))) (conn_result p fd data) (\<lambda>_ _. False) t"
      using r a fail rest [OF t'] by (simp add: wp_cbind wp_load_session wp_cderef wp_do_sys wp_cret)
  qed
qed


section \<open>The parts of the file\<close>

definition session_keys :: "('w, 'z) tb_heap_scheme \<Rightarrow> nat \<Rightarrow> (int \<times> nat option \<times> nat option) option" where
  "session_keys s a = map_option (\<lambda>r. (s_id r, s_n_session r, s_stats r)) (sess s a)"

definition stats_keys :: "('w, 'z) tb_heap_scheme \<Rightarrow> nat \<Rightarrow> nat option option" where
  "stats_keys s b = map_option st_n_stats (sstats s b)"

lemma slist_cong:
  assumes k: "session_keys s' = session_keys s" "stats_keys s' = stats_keys s"
  shows "slist (sess s) (sstats s) p q ps \<Longrightarrow> slist (sess s') (sstats s') p q ps"
proof (induction ps arbitrary: p q)
  case (Cons c ps)
  obtain a b where c: "c = (a, b)" by force
  from Cons.prems c obtain r and st :: tb_prot_stats_t where r: "p = Some a" "q = Some b" "sess s a = Some r"
      "s_stats r = Some b" "sstats s b = Some st" "slist (sess s) (sstats s) (s_n_session r) (st_n_stats st) ps"
    by (auto split: option.splits)
  from fun_cong [OF k(1), of a] r(3) obtain r' where r': "sess s' a = Some r'" "s_n_session r' = s_n_session r"
      "s_stats r' = s_stats r"
    by (cases "sess s' a") (auto simp: session_keys_def)
  from fun_cong [OF k(2), of b] r(5) obtain st' where st': "sstats s' b = Some st'" "st_n_stats st' = st_n_stats st"
    by (cases "sstats s' b") (auto simp: stats_keys_def)
  show ?case using Cons.IH [OF r(6)] r r' st' c by simp
qed simp

lemma registered_cong:
  assumes reg: "registered s l ps" and k: "session_keys s' = session_keys s" "stats_keys s' = stats_keys s"
    and l: "sl_start l' = sl_start l" "sl_end l' = sl_end l" "sl_num_sessions l' = sl_num_sessions l"
      "sl_current_max_id l' = sl_current_max_id l"
  shows "registered s' l' ps"
proof -
  have "s_id (the (sess s' a)) = s_id (the (sess s a))" for a
    using fun_cong [OF k(1), of a] by (cases "sess s a"; cases "sess s' a") (auto simp: session_keys_def)
  then have "session_ids s' ps = session_ids s ps" by (simp add: session_ids_def)
  moreover have "slist (sess s) (sstats s) (sl_start l) (first_stats ps) ps" using reg by (simp add: registered_def list_ok_def)
  then have "slist (sess s') (sstats s') (sl_start l') (first_stats ps) ps" using slist_cong [OF k] l(1) by simp
  ultimately show ?thesis using reg l by (simp add: registered_def list_ok_def)
qed

lemma registered_allocated: "registered s l ps \<Longrightarrow> (a, b) \<in> set ps \<Longrightarrow> sess s a \<noteq> None \<and> sstats s b \<noteq> None"
  unfolding registered_def list_ok_def by (blast dest: slist_mem)

text \<open>Nothing is allocated from \<open>brk\<close> on.\<close>

definition heap_ok :: "('w, 'z) tb_heap_scheme \<Rightarrow> bool" where
  "heap_ok s \<longleftrightarrow> (\<forall>a\<ge>brk s. sess s a = None \<and> sstats s a = None)"

text \<open>The data each of the sessions on the list has to send.\<close>

definition session_part :: "('w, 'z) tb_heap_scheme \<Rightarrow> nat \<Rightarrow> byte list" where
  "session_part s a = buffer (s_data (the (sess s a))) (s_data_size (the (sess s a)))"

definition file_part :: "byte list \<Rightarrow> nat \<Rightarrow> byte list" where
  "file_part data i = take (length data div 4) (drop (length data div 4 * i) data)"

definition m_client_inv :: "byte list \<Rightarrow> int \<Rightarrow> ('w, 'z) tb_state_scheme \<Rightarrow> bool" where
  "m_client_inv data x s \<longleftrightarrow> (\<exists>ps. registered s (l_session_list (lst s)) ps \<and> heap_ok s \<and>
     0 \<le> x \<and> x \<le> 4 \<and> length ps = nat x \<and>
     map (\<lambda>(a, b). session_part s a) ps = map (file_part data) [0..<nat x] \<and>
     l_data (lst s) = Some data \<and> l_file_size (lst s) = int (length data) \<and> in_int (int (length data)) \<and>
     0 < p_type (l_protocol (lst s)) \<and> f_close (l_protocol (lst s)) \<noteq> None)"

lemma wp_tb_create_session_full_nodata:
  assumes "0 < sock_type"
    and none: "\<And>w tr. Q None (s\<lparr>sstats := (sstats s)(brk s \<mapsto> tb_create_stats),
        brk := Suc (Suc (brk s)), world := w, trace := tr, sess := (sess s)(Suc (brk s) := None)\<rparr>)"
    and some: "\<And>w tr r. s_n_session r = None \<Longrightarrow> s_stats r = Some (brk s) \<Longrightarrow> s_addr_info r \<noteq> None \<Longrightarrow>
      s_status r = SESSION_ADDR_RES \<Longrightarrow> s_total_bytes r = 0 \<Longrightarrow> s_connect_t r \<noteq> None \<Longrightarrow> s_transfer_t r \<noteq> None \<Longrightarrow>
      Q (Some (Suc (brk s))) (s\<lparr>sstats := (sstats s)(brk s \<mapsto> tb_create_stats),
        brk := Suc (Suc (brk s)), world := w, trace := tr, sess := (sess s)(Suc (brk s) \<mapsto> r)\<rparr>)"
  shows "wp (tb_create_session_full E addr port sock_type 0) Q R s"
proof -
  have eq: "tb_create_stats\<lparr>st_prot_data := None, st_n_stats := None\<rparr> = tb_create_stats" by (simp add: tb_create_stats_def)
  show ?thesis
    using assms(1)
    by (auto simp: tb_create_session_full_def tb_create_session_def tb_set_addrinfo_def eq
        tb_destroy_session_def wp_rules split: prod.splits intro!: none some)
qed


lemma registered_fresh:
  assumes "registered s l ps" and "heap_ok s" and "brk s \<le> p" and "brk s \<le> b"
  shows "p \<notin> fst ` set ps" and "b \<notin> snd ` set ps"
  using registered_allocated [OF assms(1)] assms(2-4) by (force simp: heap_ok_def)+

lemma registered_new:
  assumes "registered s l ps" and "p \<notin> fst ` set ps" and "b \<notin> snd ` set ps"
    and "sess s' = (sess s)(p := y)" and "sstats s' = (sstats s)(b := z)"
  shows "registered s' l ps"
proof -
  have "session_ids s' ps = session_ids s ps" using assms(2,4) by (force simp: session_ids_def)
  with assms show ?thesis
    by (auto simp: registered_def list_ok_def intro!: slist_frame_session slist_frame_stats)
qed

lemma wp_stream_session_start:
  assumes reg: "registered s (l_session_list l) ps" and fresh: "fresh_session s ps p b"
    and room: "in_int (int (length ps) + 1)"
    and post: "\<And>s' r'. registered s' (l_session_list (lst s')) (ps @ [(p, b)]) \<Longrightarrow>
      (\<forall>c. c \<noteq> p \<longrightarrow> map_option (s_n_session_update (\<lambda>_. None)) (sess s' c) = map_option (s_n_session_update (\<lambda>_. None)) (sess s c)) \<Longrightarrow>
      (\<forall>c. sstats s' c = None \<longleftrightarrow> sstats s c = None) \<Longrightarrow>
      sess s' p = Some r' \<Longrightarrow> s_data r' = s_data (the (sess s p)) \<Longrightarrow> s_data_size r' = s_data_size (the (sess s p)) \<Longrightarrow>
      brk s' = brk s \<Longrightarrow> l_data (lst s') = l_data (lst s) \<Longrightarrow> l_file_size (lst s') = l_file_size (lst s) \<Longrightarrow>
      l_protocol (lst s') = l_protocol (lst s) \<Longrightarrow> Q () s'"
  shows "wp (stream_session_start E l p) Q R s"
proof -
  have add: "wp (tb_session_add (l_session_list l) (Some p)) (\<lambda>sl. wp (set_l (\<lambda>l. l\<lparr>l_session_list := sl\<rparr>))
      (\<lambda>_. wp (cseq [store_session (Some p) (\<lambda>r. r\<lparr>s_log_enabled := 1, s_log_info := l_log_info l\<rparr>),
           cbind (do_sys E (Posix (Thread_create Start_tb_stream_connection p))) (\<lambda>t.
             store_session (Some p) (\<lambda>r. r\<lparr>s_thread := Some (Thread_Id (a_val t))\<rparr>)),
           cbind (load_session (Some p)) (\<lambda>r.
             set_l (\<lambda>l. if st_n_stats (l_stats l) = None
                        then l\<lparr>l_stats := (l_stats l)\<lparr>st_n_stats := s_stats r\<rparr>\<rparr> else l))]) Q R) R) R s"
  proof (rule wp_tb_session_add [OF reg fresh room])
    fix l' s' r
    assume l': "registered s' l' (ps @ [(p, b)])" and r: "sess s p = Some r"
      and links: "same_but_links (s\<lparr>sess := (sess s)(p \<mapsto> r\<lparr>s_id := int (length ps)\<rparr>)\<rparr>) s'"
    show "wp (set_l (\<lambda>l. l\<lparr>l_session_list := l'\<rparr>))
      (\<lambda>_. wp (cseq [store_session (Some p) (\<lambda>r. r\<lparr>s_log_enabled := 1, s_log_info := l_log_info l\<rparr>),
           cbind (do_sys E (Posix (Thread_create Start_tb_stream_connection p))) (\<lambda>t.
             store_session (Some p) (\<lambda>r. r\<lparr>s_thread := Some (Thread_Id (a_val t))\<rparr>)),
           cbind (load_session (Some p)) (\<lambda>r.
             set_l (\<lambda>l. if st_n_stats (l_stats l) = None
                        then l\<lparr>l_stats := (l_stats l)\<lparr>st_n_stats := s_stats r\<rparr>\<rparr> else l))]) Q R) R s'"
    proof -
      have "s' = s\<lparr>sess := sess s', sstats := sstats s'\<rparr>"
        using links unfolding same_but_links_def by simp
      then obtain u v where s': "s' = s\<lparr>sess := u, sstats := v\<rparr>" by blast
      have u: "\<forall>c. map_option (s_n_session_update (\<lambda>_. None)) (u c) =
          map_option (s_n_session_update (\<lambda>_. None)) (((sess s)(p \<mapsto> r\<lparr>s_id := int (length ps)\<rparr>)) c)"
        and v: "\<forall>c. map_option (st_n_stats_update (\<lambda>_. None)) (v c) = map_option (st_n_stats_update (\<lambda>_. None)) (sstats s c)"
        using links by (simp_all add: same_but_links_def s')
      from spec [OF u, of p] obtain r1 where r1: "u p = Some r1"
          "r1\<lparr>s_n_session := None\<rparr> = r\<lparr>s_id := int (length ps), s_n_session := None\<rparr>"
        by (cases "u p") auto
      from arg_cong [OF r1(2), of s_data] arg_cong [OF r1(2), of s_data_size]
      have data: "s_data r1 = s_data r" "s_data_size r1 = s_data_size r" by simp_all
      have stats: "v c = None \<longleftrightarrow> sstats s c = None" for c
        using spec [OF v, of c] by (cases "v c"; cases "sstats s c") auto
      show ?thesis
        using r r1(1) u stats data
        by (auto simp: wp_rules s' session_keys_def stats_keys_def fun_eq_iff split: prod.splits
            intro!: post registered_cong [OF l'])
    qed
 qed
  then show ?thesis unfolding stream_session_start_def wp_cseq_Cons wp_cbind .
qed


lemma sdiv_nonneg: "0 \<le> n \<Longrightarrow> n sdiv num_conn = n div 4"
  by (auto simp: num_conn_def signed_divide_int_def sgn_if)

lemma file_part_fits:
  assumes "x < 4"
  shows "length data div 4 * x \<le> length data" and "length (file_part data x) = length data div 4"
proof -
  have "length data div 4 * x + length data div 4 \<le> length data div 4 * 4"
    using assms by (metis add_mult_distrib2 mult.right_neutral mult_le_mono2 Suc_eq_plus1 Suc_leI)
  then have *: "length data div 4 * x + length data div 4 \<le> length data"
    using div_times_less_eq_dividend [of "length data" 4] by (rule order_trans)
  then show "length data div 4 * x \<le> length data" by simp
  from * show "length (file_part data x) = length data div 4" by (simp add: file_part_def)
qed

lemma ptr_add_int: "k \<le> length d \<Longrightarrow> ptr_add (Some d) (int k) = cret (Some (drop k d))"
  by (simp add: ptr_add_def)

lemma session_part_link:
  assumes "map_option (s_n_session_update (\<lambda>_. None)) (sess s' a) = map_option (s_n_session_update (\<lambda>_. None)) (sess s a)"
  shows "session_part s' a = session_part s a"
proof (cases "sess s a")
  case (Some r)
  with assms obtain r' where r': "sess s' a = Some r'" "r'\<lparr>s_n_session := None\<rparr> = r\<lparr>s_n_session := None\<rparr>"
    by auto
  from arg_cong [OF r'(2), of s_data] arg_cong [OF r'(2), of s_data_size] r'(1) Some
  show ?thesis by (simp add: session_part_def)
qed (use assms in \<open>simp add: session_part_def\<close>)

lemma stream_session_setup_part:
  fixes s0 s :: "('w, 'z) tb_state_scheme" and E :: "('w, 'e) lenv_scheme"
  assumes inv: "m_client_inv data x s0" and x: "x < 4"
    and s: "s = s0\<lparr>sstats := (sstats s0)(brk s0 \<mapsto> tb_create_stats), brk := Suc (Suc (brk s0)), world := w,
      trace := tr, sess := (sess s0)(Suc (brk s0) \<mapsto> r)\<rparr>"
    and r: "s_n_session r = None" "s_stats r = Some (brk s0)" "s_addr_info r \<noteq> None"
  shows "wp (stream_session_setup E (lst s0) x (Suc (brk s0))) (\<lambda>_. m_client_inv data (x + 1)) ends_by_abort s"
proof -
  from inv obtain ps where ps: "registered s0 (l_session_list (lst s0)) ps" "heap_ok s0" "0 \<le> x" "length ps = nat x"
      "map (\<lambda>(a, b). session_part s0 a) ps = map (file_part data) [0..<nat x]"
    and l: "l_data (lst s0) = Some data" "l_file_size (lst s0) = int (length data)" "in_int (int (length data))"
      "0 < p_type (l_protocol (lst s0))" "f_close (l_protocol (lst s0)) \<noteq> None"
    by (auto simp: m_client_inv_def)
  let ?p = "Suc (brk s0)" and ?b = "brk s0" and ?q = "length data div 4"
  have new: "?p \<notin> fst ` set ps" "?b \<notin> snd ` set ps" using registered_fresh [OF ps(1,2), of ?p ?b] by simp_all
  have q: "l_file_size (lst s0) sdiv num_conn = int ?q" "to_size (int ?q) = int ?q"
    using l(2,3) by (auto simp: sdiv_nonneg zdiv_int in_int_def intro!: to_size_id)
  have off: "?q * nat x \<le> length data" using x ps(3) by (intro file_part_fits) auto
  have offi: "int ?q * x = int (?q * nat x)" using ps(3) by simp
  have ptr: "ptr_add (l_data (lst s0)) (l_file_size (lst s0) sdiv num_conn * x) = cret (Some (drop (?q * nat x) data))"
    by (simp only: q(1) offi l(1) ptr_add_int [OF off])
  have start: "wp (stream_session_start E (lst s0) ?p) (\<lambda>_. m_client_inv data (x + 1)) ends_by_abort
      (s\<lparr>world := w', trace := tr', sstats := (sstats s0)(?b \<mapsto> st), sess := (sess s0)(?p \<mapsto> r1)\<rparr>)"
    if "s_n_session r1 = None" "s_stats r1 = Some ?b" "s_data r1 = Some (drop (?q * nat x) data)"
      "s_data_size r1 = int ?q" "st_n_stats st = None" for w' tr' r1 st
  proof -
    let ?s = "s\<lparr>world := w', trace := tr', sstats := (sstats s0)(?b \<mapsto> st), sess := (sess s0)(?p \<mapsto> r1)\<rparr>"
    have reg: "registered ?s (l_session_list (lst s0)) ps"
      by (rule registered_new [OF ps(1) new]) (auto simp: s)
    have fresh: "fresh_session ?s ps ?p ?b" using that new by (auto simp: fresh_session_def)
    have room: "in_int (int (length ps) + 1)" using ps(3,4) x by (simp add: in_int_def)
    show ?thesis
    proof (rule wp_stream_session_start [OF reg fresh room])
      fix s' :: "('w, 'z) tb_state_scheme" and r'
      assume s': "registered s' (l_session_list (lst s')) (ps @ [(?p, ?b)])"
        "\<forall>c. c \<noteq> ?p \<longrightarrow> map_option (s_n_session_update (\<lambda>_. None)) (sess s' c) =
            map_option (s_n_session_update (\<lambda>_. None)) (sess ?s c)"
        "\<forall>c. sstats s' c = None \<longleftrightarrow> sstats ?s c = None"
        "sess s' ?p = Some r'" "s_data r' = s_data (the (sess ?s ?p))" "s_data_size r' = s_data_size (the (sess ?s ?p))"
        "brk s' = brk ?s" "l_data (lst s') = l_data (lst ?s)" "l_file_size (lst s') = l_file_size (lst ?s)"
        "l_protocol (lst s') = l_protocol (lst ?s)"
      have s0: "map_option (s_n_session_update (\<lambda>_. None)) (sess s' c) =
          map_option (s_n_session_update (\<lambda>_. None)) (sess s0 c)" if "c \<noteq> ?p" for c
        using s'(2) that by simp
      have heap: "heap_ok s'"
        unfolding heap_ok_def
      proof (intro allI impI conjI)
        fix c assume c: "brk s' \<le> c"
        then have "?p < c" using s'(7) by (simp add: s)
        then show "sess s' c = None" "sstats s' c = None"
          using ps(2) s0 [of c] s'(3) by (auto simp: heap_ok_def)
      qed
      have old: "map (\<lambda>(a, b). session_part s' a) ps = map (\<lambda>(a, b). session_part s0 a) ps"
      proof (rule map_cong [OF refl])
        fix c assume "c \<in> set ps"
        then have "fst c \<noteq> ?p" using new(1) by force
        then show "(case c of (a, b) \<Rightarrow> session_part s' a) = (case c of (a, b) \<Rightarrow> session_part s0 a)"
          using session_part_link [OF s0] by (cases c) simp
      qed
      have mine: "session_part s' ?p = file_part data (nat x)"
        using that s'(4-6) by (simp add: session_part_def buffer_def file_part_def)
      have upto: "[0..<nat (x + 1)] = [0..<nat x] @ [nat x]" using ps(3) by (simp add: nat_add_distrib)
      show "m_client_inv data (x + 1) s'"
        unfolding m_client_inv_def
        using s'(1,8-10) heap old mine ps(3-5) x l
        by (intro exI [of _ "ps @ [(?p, ?b)]"]) (simp add: upto s)
    qed
  qed
  have abort: "wp (tb_abort E) Q ends_by_abort (s\<lparr>world := w', trace := tr', sess := h\<rparr>)" for Q w' tr' h
    using l(5) by (intro wp_tb_abort) (auto simp: s)
  show ?thesis
    using r abort start
    by (auto simp: stream_session_setup_def wp_rules ptr [unfolded q(1)] q s tb_create_stats_def split: prod.splits)
qed


lemma tb_create_protocol_tcp_type: "tb_create_protocol m TCP t = Ok p t' \<Longrightarrow> 0 < p_type p \<and> f_close p \<noteq> None"
  by (auto simp: tb_create_protocol_def cret_def SOCK_STREAM_def)

lemma stream_client_session_part:
  fixes s :: "('w, 'z) tb_state_scheme" and E :: "('w, 'e) lenv_scheme"
  assumes inv: "m_client_inv data x s" and x: "x < 4"
  shows "wp (stream_client_session E x) (\<lambda>x' s'. x' = x + 1 \<and> m_client_inv data x' s') ends_by_abort s"
proof -
  have p: "0 < p_type (l_protocol (lst s))" "f_close (l_protocol (lst s)) \<noteq> None"
    using inv by (auto simp: m_client_inv_def)
  show ?thesis
    unfolding stream_client_session_def wp_cbind wp_cget
    by (rule wp_tb_create_session_full_nodata [OF p(1)])
      (use p(2) in \<open>auto simp: wp_rules intro!: wp_tb_abort wp_mono [OF stream_session_setup_part [OF inv x refl]]\<close>)
qed

lemma stream_client_sessions_parts:
  fixes s :: "('w, 'z) tb_state_scheme" and E :: "('w, 'e) lenv_scheme"
  assumes "m_client_inv data 0 s"
  shows "wp (stream_client_sessions E) (\<lambda>x s'. x = 4 \<and> m_client_inv data 4 s') ends_by_abort s"
  unfolding stream_client_sessions_def
proof (rule wp_cwhile [where I = "\<lambda>x. m_client_inv data x" and \<mu> = "\<lambda>x _. nat (4 - x)"])
  fix x and t :: "('w, 'z) tb_state_scheme" assume inv: "m_client_inv data x t"
  then have bounds: "0 \<le> x" "x \<le> 4" by (auto simp: m_client_inv_def)
  show "wp (cret (x < num_conn)) (\<lambda>go s'. if go then m_client_inv data x s' \<and> nat (4 - x) \<le> nat (4 - x) \<and> 0 < nat (4 - x) \<and>
        wp (stream_client_session E x) (\<lambda>x' s''. m_client_inv data x' s'' \<and> nat (4 - x') < nat (4 - x)) ends_by_abort s'
      else x = 4 \<and> m_client_inv data 4 s') ends_by_abort t"
  proof (cases "x < 4")
    case True
    then show ?thesis
      using inv by (auto simp: wp_cret num_conn_def intro!: wp_mono [OF stream_client_session_part [OF inv True]])
  next
    case False
    with bounds have "x = 4" by simp
    with inv show ?thesis by (simp add: wp_cret num_conn_def)
  qed
qed (use assms in auto)

lemma concat_file_parts:
  "concat (map (file_part data) [0..<n]) = take (length data div 4 * n) data"
proof (induction n)
  case (Suc n)
  then show ?case by (simp add: file_part_def take_add [symmetric] add.commute)
qed simp


section \<open>Properties\<close>


text \<open>C14: the multi-connection client cuts its file into four parts, one for each session. Unless it
  aborts, four sessions are on its list, numbered 0 to 3; session \<open>i\<close> has the \<open>i\<close>-th quarter,
  the quarters in order are a beginning of the file, and what they leave out, and no session
  ever sends, is as many bytes as the size leaves when it is divided by 4.\<close>

theorem m_client_parts_file:
  assumes "registered s (l_session_list (lst s)) []" and "heap_ok s"
    and "l_data (lst s) = Some data" and "l_file_size (lst s) = int (length data)" and "in_int (int (length data))"
    and "tb_create_protocol m TCP t = Ok (l_protocol (lst s)) t"
  shows "(\<exists>s' ps lost. stream_client_sessions E s = Ok 4 s' \<and>
      registered s' (l_session_list (lst s')) ps \<and> length ps = 4 \<and>
      (\<forall>i<4. session_part s' (fst (ps ! i)) = take (length data div 4) (drop (length data div 4 * i) data)) \<and>
      data = concat (map (\<lambda>(a, b). session_part s' a) ps) @ lost \<and> length lost = length data mod 4) \<or>
    (\<exists>h s'. stream_client_sessions E s = Halt h s' \<and> ends_by_abort h s')"
proof -
  have "0 < p_type (l_protocol (lst s)) \<and> f_close (l_protocol (lst s)) \<noteq> None"
    using assms(6) by (rule tb_create_protocol_tcp_type)
  then have "m_client_inv data 0 s" using assms(1-5) by (auto simp: m_client_inv_def)
  note run = stream_client_sessions_parts [OF this, of E]
  show ?thesis
  proof (cases "stream_client_sessions E s")
    case (Ok x s')
    with run obtain ps where x: "x = 4" and ps: "registered s' (l_session_list (lst s')) ps" "length ps = 4"
        "map (\<lambda>(a, b). session_part s' a) ps = map (file_part data) [0..<4]"
      by (auto simp: wp_def m_client_inv_def)
    have nth: "session_part s' (fst (ps ! i)) = file_part data i" if "i < 4" for i
      using arg_cong [OF ps(3), of "\<lambda>xs. xs ! i"] that ps(2) by (simp add: split_beta)
    have "data = concat (map (\<lambda>(a, b). session_part s' a) ps) @ drop (length data div 4 * 4) data"
      unfolding ps(3) concat_file_parts by simp
    moreover have "length (drop (length data div 4 * 4) data) = length data mod 4"
      by (simp add: minus_div_mult_eq_mod)
    ultimately show ?thesis using Ok x ps(1,2) nth unfolding file_part_def by blast
  next
    case (Halt h s')
    with run show ?thesis by (auto simp: wp_def)
  qed
qed

end
