(* ===== verification/TB_Testbed.thy ===== *)
theory TB_Testbed
  imports TB_Stream_Client TB_Stream_Server TB_Stream_Sessions
begin

text \<open>
  The program itself (\<open>src/src/tb_testbed.c\<close>): reading the command line, starting a test and
  monitoring it. The test runs in a thread of its own, next to the main thread that
  monitors; \<open>others\<close> is what that thread, and the threads it starts, do between two reads of
  the main thread. What is printed is not modelled.
\<close>

section \<open>The command line\<close>

text \<open>\<open>argv[argc]\<close> is a null pointer, and nothing is behind it.\<close>

definition argv_at :: "string list \<Rightarrow> nat \<Rightarrow> ('s, string option) prog" where
  "argv_at argv i = (if i < length argv then cret (Some (argv ! i))
     else if i = length argv then cret None else chalt (Undefined Out_Of_Bounds))"

definition str_at :: "string list \<Rightarrow> nat \<Rightarrow> ('s, string) prog" where
  "str_at argv i = cbind (argv_at argv i) (cderef Null_Deref)"

definition ARG_TYPE :: nat where "ARG_TYPE = 1"
definition ARG_ADDRESS :: nat where "ARG_ADDRESS = 2"
definition ARG_PORT :: nat where "ARG_PORT = 3"
definition ARG_PROT :: nat where "ARG_PROT = 4"
definition ARG_BUF_SIZE :: nat where "ARG_BUF_SIZE = 5"
definition ARG_FILE_TYPE :: nat where "ARG_FILE_TYPE = 6"
definition ARG_FILE_NAME :: nat where "ARG_FILE_NAME = 7"

text \<open>\<open>sscanf\<close> with \<open>%d\<close>: blanks, a sign, digits; without digits nothing is stored.\<close>

definition is_digit :: "char \<Rightarrow> bool" where
  "is_digit c \<longleftrightarrow> 48 \<le> (of_char c :: nat) \<and> (of_char c :: nat) \<le> 57"

definition is_space :: "char \<Rightarrow> bool" where
  "is_space c \<longleftrightarrow> (of_char c :: nat) \<in> {9, 10, 11, 12, 13, 32}"

definition digits_val :: "string \<Rightarrow> int" where
  "digits_val ds = foldl (\<lambda>v c. 10 * v + (of_char c - 48)) 0 ds"

definition scan_int :: "string \<Rightarrow> int option" where
  "scan_int txt0 =
     (let t = dropWhile is_space txt0;
          neg = (t \<noteq> [] \<and> hd t = CHR ''-'');
          u = (if t \<noteq> [] \<and> (hd t = CHR ''-'' \<or> hd t = CHR ''+'') then tl t else t);
          ds = takeWhile is_digit u
      in if ds = [] then None else Some (if neg then - digits_val ds else digits_val ds))"

definition parse_type :: "string \<Rightarrow> nat \<Rightarrow> ENDPOINT_TYPE option" where
  "parse_type arg argc =
     (if arg = ''server'' then Some SERVER
      else if arg = ''client'' \<and> argc = 8 then Some CLIENT
      else if arg = ''mserver'' then Some mSERVER
      else if arg = ''mclient'' then Some mCLIENT
      else None)"

definition parse_protocol :: "string \<Rightarrow> PROTOCOL option" where
  "parse_protocol arg =
     (if arg = ''tcp'' then Some TCP
      else if arg = ''udp'' then Some UDP
      else if arg = ''udt'' then Some UDT
      else if arg = ''audt'' then Some aUDT
      else if arg = ''utp'' then Some uTP
      else if arg = ''eudp'' then Some eUDP
      else if arg = ''dccp'' then Some DCCP
      else None)"

definition is_client :: "ENDPOINT_TYPE \<Rightarrow> bool" where
  "is_client t \<longleftrightarrow> t = CLIENT \<or> t = mCLIENT"

text \<open>The file of a client: a size in KB, or a name.\<close>

definition parse_file :: "('w, 'e) lenv_scheme \<Rightarrow> string list \<Rightarrow> (('w, 'z) tb_state_scheme, unit) prog" where
  "parse_file E argv =
     cbind (str_at argv ARG_FILE_TYPE) (\<lambda>ft.
     if ft = ''size''
     then cbind (str_at argv ARG_FILE_NAME) (\<lambda>fn.
          cbind (cget (\<lambda>s. l_file_size (lst s))) (\<lambda>old.
          cbind (case scan_int fn of None \<Rightarrow> cret old | Some n \<Rightarrow> cint n) (\<lambda>n.
          cbind (cint (n * 1024)) (\<lambda>kb. set_l (\<lambda>l. l\<lparr>l_file_size := kb\<rparr>)))))
     else if ft = ''file''
     then cbind (str_at argv ARG_FILE_NAME) (\<lambda>fn. set_l (\<lambda>l. l\<lparr>l_filename := Some fn\<rparr>))
     else tb_abort E)"

text \<open>Everything up to the start of the test.\<close>

definition parse_listener :: "('w, 'e) lenv_scheme \<Rightarrow> string list \<Rightarrow> (('w, 'z) tb_state_scheme, unit) prog" where
  "parse_listener E argv =
     (if length argv < 6 \<or> 8 < length argv then chalt (Process_Exit (- 1))
      else
        cbind (str_at argv ARG_TYPE) (\<lambda>arg.
        case parse_type arg (length argv) of None \<Rightarrow> chalt (Process_Exit (- 1)) | Some ty \<Rightarrow>
        cbind (str_at argv ARG_PROT) (\<lambda>arg.
        case parse_protocol arg of None \<Rightarrow> chalt (Process_Exit (- 1)) | Some prot \<Rightarrow>
        cbind (str_at argv ARG_BUF_SIZE) (\<lambda>arg.
        case scan_int arg of None \<Rightarrow> chalt (Undefined Uninitialised) | Some n \<Rightarrow>
        cbind (cint n) (\<lambda>bufsize.
        cbind (str_at argv ARG_ADDRESS) (\<lambda>addr.
        cbind (str_at argv ARG_PORT) (\<lambda>port.
        cseq [tb_create_listener E ty addr port prot bufsize,
              cwhen (is_client ty) (parse_file E argv),
              set_l (\<lambda>l. if l_bufsize l = 0
                         then l\<lparr>l_bufsize := (if is_client (l_e_type l) then l_file_size l else 1408)\<rparr> else l),
              set_l (\<lambda>l. l\<lparr>l_d_exit := 1, l_f_exit := Some Fn_tb_exit, l_f_abort := Some Fn_tb_abort\<rparr>)])))))))"



section \<open>The monitor\<close>

definition collect_stats :: "('w, 'e) env_scheme \<Rightarrow> nat \<Rightarrow> (('w, 'z) tb_state_scheme, unit) prog" where
  "collect_stats E fuel =
     cbind (cget lst) (\<lambda>l.
     if l_e_type l = CLIENT \<or> l_e_type l = SERVER then tb_set_l_stats E else tb_set_m_stats E fuel)"

text \<open>
  One sample: the rates follow from the bytes transferred since the last one. The samples
  are a tenth of a second apart. Results are the statistics, the bytes and the peak.
\<close>

definition monitor_rates :: "int \<Rightarrow> int \<Rightarrow> tb_prot_stats_t \<Rightarrow> ('s, tb_prot_stats_t \<times> int \<times> int) prog" where
  "monitor_rates prev_bytes peak_bytes st =
     (let byte_sec = to_int (st_current_read st - prev_bytes);
          prev_bytes' = to_int (st_current_read st);
          total = st_total_bytes st + byte_sec;
          num = st_num_m_seconds st + 1;
          av = of_int total / of_int num
      in cbind (cint (byte_sec * 10)) (\<lambda>rate.
         let st1 = st\<lparr>st_byte_sec := rate, st_total_bytes := total, st_num_m_seconds := num,
                      st_av_byte_sec := av * 10\<rparr>
         in cret (if peak_bytes < rate then (st1\<lparr>st_peak_byte_sec := rate\<rparr>, prev_bytes', rate)
                  else (st1, prev_bytes', peak_bytes))))"

definition monitor_sample ::
  "('w, 'e) env_scheme \<Rightarrow> nat \<Rightarrow> int \<times> int \<Rightarrow> (('w, 'z) tb_state_scheme, int \<times> int) prog" where
  "monitor_sample E fuel m =
     cdo [cvoid (do_sys E (Posix (Usleep 100000)))]
       (cbind (cget lst) (\<lambda>l.
        if l_status l = TB_CONNECTED
        then cdo [collect_stats E fuel]
          (cbind (cget (\<lambda>s. l_stats (lst s))) (\<lambda>st.
           cbind (monitor_rates (fst m) (snd m) st) (\<lambda>(st', prev, peak).
           cdo [set_l (\<lambda>l. l\<lparr>l_stats := st'\<rparr>)] (cret (prev, peak)))))
        else cdo [collect_stats E fuel] (cret m)))"

text \<open>
  The first processor of a set, from number \<open>x\<close> on: the loop leaves \<open>x\<close> at the one it found
  or at the number of processors. \<open>num_proc\<close> is compared as unsigned.
\<close>

fun cpu_scan :: "int list \<Rightarrow> nat \<Rightarrow> nat \<Rightarrow> nat \<times> bool" where
  "cpu_scan cpus x 0 = (x, False)"
| "cpu_scan cpus x (Suc k) = (if int x \<in> set cpus then (x, True) else cpu_scan cpus (x + 1) k)"

definition set_cpu_info :: "('w, 'e) env_scheme \<Rightarrow> (('w, 'z) tb_state_scheme, unit) prog" where
  "set_cpu_info E =
     cbind (cget (\<lambda>s. nat (take_bit 32 (l_num_proc (lst s))))) (\<lambda>n.
     cbind (do_sys E (Posix Getaffinity)) (\<lambda>a.
     case cpu_scan (a_events a) 0 n of (x, found) \<Rightarrow>
     cdo [cwhen found (set_l (\<lambda>l. l\<lparr>l_cpu_affinity := int x\<rparr>))]
       (cbind (do_sys E (Posix Getaffinity)) (\<lambda>a.
        case cpu_scan (a_events a) x (n - x) of (y, found) \<Rightarrow>
        cwhen found (set_l (\<lambda>l. l\<lparr>l_main_cpu_aff := int y\<rparr>))))))"

definition tb_monitor ::
  "('w, 'e) env_scheme \<Rightarrow> (('w, 'z) tb_state_scheme, unit) prog \<Rightarrow> nat \<Rightarrow> nat \<Rightarrow> nat \<Rightarrow> (('w, 'z) tb_state_scheme, int) prog" where
  "tb_monitor E others spins samples fuel =
     cdo [cvoid (cwhile spins (\<lambda>_. cdo [others] (cget (\<lambda>s. l_sock_d (lst s) = - 1))) (\<lambda>_. cret ()) ()),
          set_cpu_info E,
          cvoid (cwhile samples
            (\<lambda>_. cdo [others] (cget (\<lambda>s. l_status (lst s) \<noteq> TB_EXITING \<and> l_status (lst s) \<noteq> TB_ABORTING)))
            (monitor_sample E fuel) (0, 0)),
          tb_get_time_stats fuel,
          cbind (cget (\<lambda>s. st_n_stats (l_stats (lst s)))) (\<lambda>q.
            cvoid (cwhile fuel (\<lambda>q. cret (q \<noteq> None)) (\<lambda>q. cbind (load_stats q) (\<lambda>st. cret (st_n_stats st))) q)),
          collect_stats E fuel]
       (cret 0)"


section \<open>Starting a test\<close>

definition tb_start ::
  "('w, 'e) env_scheme \<Rightarrow> (('w, 'z) tb_state_scheme, unit) prog \<Rightarrow> nat \<Rightarrow> nat \<Rightarrow> nat \<Rightarrow> (('w, 'z) tb_state_scheme, unit) prog" where
  "tb_start E others spins samples fuel =
     cdo [LOG E ''Starting'' LOG_INFO]
       (cbind (tb_resolve_address E) (\<lambda>rc.
        cdo [cwhen (rc = - 1) (tb_abort E),
             cbind (cget lst) (\<lambda>l. cwhen (p_protocol (l_protocol l) \<noteq> uTP) (cvoid (tb_create_socket E))),
             cbind (cget lst) (\<lambda>l.
               cbind (tb_set_sock_opt E (l_options l) (l_sock_d l)) (\<lambda>(rc, opts).
               cseq [set_l (\<lambda>l. l\<lparr>l_options := opts\<rparr>), cwhen (rc = - 1) (tb_abort E)])),
             cbind (cget lst) (\<lambda>l.
               cbind (do_sys E (Posix (Thread_create
                 (if l_e_type l = SERVER \<or> l_e_type l = mSERVER then Start_tb_server else Start_tb_client) 0))) (\<lambda>t.
               cseq [set_l (\<lambda>l. l\<lparr>l_thread := Thread_Id (a_val t)\<rparr>),
                     cvoid (do_sys E (Posix (Setaffinity (ENDPOINT_TYPE_val (l_e_type l)))))])),
             cbind (cget lst) (\<lambda>l.
               cwhen (l_monitor l \<noteq> 0)
                 (cseq [cvoid (do_sys E (Posix (Setaffinity (ENDPOINT_TYPE_val (l_e_type l) + 2)))),
                        cvoid (tb_monitor E others spins samples fuel)]))]
          (cbind (cget lst) (\<lambda>l. cwhen (l_d_exit l \<noteq> 0) (tb_destroy_listener E)))))"

definition tb_parse ::
  "('w, 'e) lenv_scheme \<Rightarrow> (('w, 'z) tb_state_scheme, unit) prog \<Rightarrow> nat \<Rightarrow> nat \<Rightarrow> nat \<Rightarrow> string list \<Rightarrow>
   (('w, 'z) tb_state_scheme, int) prog" where
  "tb_parse E others spins samples fuel argv =
     cdo [parse_listener E argv, tb_start E others spins samples fuel] (chalt Thread_Exit)"

end
