(* ===== verification/TB_Stream_M_Server.thy ===== *)
theory TB_Stream_M_Server
  imports TB_Stream_Server "HOL-Library.Multiset"
begin

text \<open>
  The threads of a multi-connection stream server: each receives until its peer ends the
  connection and then counts itself out; the last one is to tell the server to end.
\<close>

section \<open>One session\<close>

text \<open>The bytes receives brought.\<close>

fun brought :: "(syscall \<times> int) list \<Rightarrow> int" where
  "brought [] = 0"
| "brought ((c, r) # tr) = brought tr + (case c of Posix (Recv f n) \<Rightarrow> if r = - 1 then 0 else r | _ \<Rightarrow> 0)"

text \<open>A session as the server's event handler leaves it for its thread.\<close>

definition m_session :: "('w, 'z) tb_state_scheme \<Rightarrow> nat \<Rightarrow> bool" where
  "m_session s p \<longleftrightarrow> (\<exists>r. sess s p = Some r \<and> 0 < s_pack_size r \<and> in_int (s_pack_size r) \<and>
     s_connect_t r \<noteq> None \<and> s_transfer_t r \<noteq> None \<and> s_other_info r \<noteq> None)"

definition m_total :: "('w, 'z) tb_state_scheme \<Rightarrow> nat \<Rightarrow> int" where
  "m_total s p = s_total_bytes (the (sess s p))"

text \<open>The state \<open>s\<close> while the thread of \<open>p\<close> runs that was started in \<open>s0\<close>.\<close>

definition m_running :: "('w \<Rightarrow> nat) \<Rightarrow> nat \<Rightarrow> ('w, 'z) tb_state_scheme \<Rightarrow> ('w, 'z) tb_state_scheme \<Rightarrow> bool" where
  "m_running m p s0 s \<longleftrightarrow> lst s = lst s0 \<and> (\<forall>q. q \<noteq> p \<longrightarrow> sess s q = sess s0 q) \<and> m_session s p \<and> m (world s) \<le> m (world s0) \<and>
     m_total s p - brought (trace s) = m_total s0 p - brought (trace s0)"

lemma m_running_refl: "m_session s p \<Longrightarrow> m_running m p s s"
  by (simp add: m_running_def)

lemma m_running_store:
  assumes "m_running m p s0 s" and "\<And>r. s_pack_size (f r) = s_pack_size r \<and> s_connect_t (f r) = s_connect_t r \<and>
      (s_transfer_t (f r) = None \<longleftrightarrow> s_transfer_t r = None) \<and> s_other_info (f r) = s_other_info r \<and> s_total_bytes (f r) = s_total_bytes r"
    and "\<And>r t. sess s p = Some r \<Longrightarrow> m_running m p s0 t \<Longrightarrow> sess t p = Some (f r) \<Longrightarrow> Q () t"
  shows "wp (store_session (Some p) f) Q R s"
proof -
  from assms(1) obtain r where r: "sess s p = Some r" by (auto simp: m_running_def m_session_def)
  have "m_running m p s0 (s\<lparr>sess := (sess s)(p \<mapsto> f r)\<rparr>)"
    using assms(1) assms(2) [of r] r by (auto simp: m_running_def m_session_def m_total_def)
  then show ?thesis using r assms(3) [OF r] by (simp add: wp_rules)
qed

lemma m_running_quiet:
  assumes "peer_ends E m" and "m_running m p s0 s" and "sys E c (world s) = (a, w)" and "\<forall>f n. c \<noteq> Posix (Recv f n)"
  shows "m_running m p s0 (s\<lparr>world := w, trace := (c, a_rc a) # trace s\<rparr>)"
proof -
  have "brought ((c, a_rc a) # trace s) = brought (trace s)"
    using assms(4) by (cases c) (auto split: posix.splits)
  moreover have "m w \<le> m (world s0)" using peer_endsD(1) [OF assms(1,3)] assms(2) by (auto simp: m_running_def)
  ultimately show ?thesis using assms(2) by (simp add: m_running_def m_session_def m_total_def)
qed

text \<open>One receive.\<close>

lemma wp_m_server_recv:
  assumes ends: "peer_ends E m" and inv: "m_running m p s0 s"
  shows "wp (m_server_recv E p) (\<lambda>rc s'. m_running m p s0 s' \<and> - 1 \<le> rc \<and> m (world s') \<le> m (world s) \<and>
    (0 < rc \<longrightarrow> m (world s') < m (world s))) R s"
proof -
  from inv obtain r where r: "sess s p = Some r" "0 < s_pack_size r" "in_int (s_pack_size r)"
      "s_connect_t r \<noteq> None" "s_transfer_t r \<noteq> None" "s_other_info r \<noteq> None"
    by (auto simp: m_running_def m_session_def)
  have sz: "to_size (s_pack_size r) = s_pack_size r" using r(2,3) by (intro to_size_id) (auto simp: in_int_def)
  obtain a w where a: "sys E (Posix (Recv (s_sock_d r) (s_pack_size r))) (world s) = (a, w)" by force
  note rc = peer_endsD(3) [OF ends r(2) a]
  then have int: "to_int (a_rc a) = a_rc a" using r(3) by (intro to_int_id) (auto simp: in_int_def)
  have "m w \<le> m (world s)" using peer_endsD(1) [OF ends a] .
  then show ?thesis
    using r rc a inv int by (auto simp: m_server_recv_def wp_rules Let_def sz m_running_def m_session_def m_total_def)
qed

interpretation m_server_receiving: receive_loop
  "\<lambda>rc. cret (rc \<noteq> 0 \<and> rc \<noteq> - 1)" "\<lambda>_. m_server_recv E p" "\<lambda>rc s. peer_ends E m \<and> m_running m p s0 s \<and> - 1 \<le> rc"
  "\<lambda>rc _. rc = 0 \<or> rc = - 1" "\<lambda>_. False" "\<lambda>s. m (world s)" R
  for E :: "('w, 'e) senv_scheme" and p m and s0 :: "('w, 'z) tb_state_scheme" and R :: "halt \<Rightarrow> ('w, 'z) tb_state_scheme \<Rightarrow> bool"
proof
  fix rc :: int and s :: "('w, 'z) tb_state_scheme"
  assume inv: "peer_ends E m \<and> m_running m p s0 s \<and> - 1 \<le> rc"
  show "wp (cret (rc \<noteq> 0 \<and> rc \<noteq> - 1)) (\<lambda>go s'. (peer_ends E m \<and> m_running m p s0 s' \<and> - 1 \<le> rc) \<and>
      ((rc = 0 \<or> rc = - 1) \<longleftrightarrow> (rc = 0 \<or> rc = - 1)) \<and> m (world s') \<le> m (world s) \<and>
      (if go then \<not> (rc = 0 \<or> rc = - 1) else (rc = 0 \<or> rc = - 1) \<or> False)) R s"
    using inv by (auto simp: wp_cret)
  show "wp (m_server_recv E p) (\<lambda>rc' s'. (peer_ends E m \<and> m_running m p s0 s' \<and> - 1 \<le> rc') \<and>
      ((rc' = 0 \<or> rc' = - 1) \<or> m (world s') < m (world s))) R s"
    using inv by (auto intro!: wp_mono [OF wp_m_server_recv [of E m p s0 s]])
qed

lemma wp_m_server_loop:
  fixes s :: "('w, 'z) tb_state_scheme"
  assumes "peer_ends E m" and "m_running m p s0 s" and "- 1 \<le> rc" and "m (world s) < fuel"
  shows "wp (cwhile fuel (\<lambda>rc. cret (rc \<noteq> 0 \<and> rc \<noteq> - 1)) (\<lambda>_. m_server_recv E p) rc)
    (\<lambda>rc' s'. m_running m p s0 s' \<and> (rc' = 0 \<or> rc' = - 1)) R s"
  by (rule wp_mono [OF m_server_receiving.loop_ends]) (use assms in \<open>auto simp: m_server_receiving.rounds_def\<close>)


text \<open>The timers of a session.\<close>

lemma m_running_timers:
  assumes ends: "peer_ends E m" and inv: "m_running m p s0 s"
  shows "wp (start_timer E (Some p) s_transfer_t put_transfer) (\<lambda>_. m_running m p s0) R s"
    and "wp (finish_timer E (Some p) s_transfer_t put_transfer) (\<lambda>_. m_running m p s0) R s"
proof -
  from inv obtain r t where r: "sess s p = Some r" "s_transfer_t r = Some t"
    by (auto simp: m_running_def m_session_def)
  obtain a w where a: "sys E (Posix (Clock_gettime (t_clk_id t))) (world s) = (a, w)" by force
  have quiet: "m_running m p s0 (s\<lparr>world := w, trace := (Posix (Clock_gettime (t_clk_id t)), a_rc a) # trace s\<rparr>)"
    by (rule m_running_quiet [OF ends inv a]) simp
  then have store: "m_running m p s0 (s\<lparr>world := w, trace := (Posix (Clock_gettime (t_clk_id t)), a_rc a) # trace s,
      sess := (sess s)(p \<mapsto> put_transfer t' r)\<rparr>)" for t'
    using r by (auto simp: m_running_def m_session_def m_total_def)
  show "wp (start_timer E (Some p) s_transfer_t put_transfer) (\<lambda>_. m_running m p s0) R s"
    and "wp (finish_timer E (Some p) s_transfer_t put_transfer) (\<lambda>_. m_running m p s0) R s"
    using r a store by (simp_all add: start_timer_def finish_timer_def wp_rules)
qed

text \<open>What the thread of a session has done when it returns \<open>rc\<close>.\<close>

definition m_left :: "('w \<Rightarrow> nat) \<Rightarrow> nat \<Rightarrow> ('w, 'z) tb_state_scheme \<Rightarrow> int \<Rightarrow> ('w, 'z) tb_state_scheme \<Rightarrow> bool" where
  "m_left m p s rc s' \<longleftrightarrow> (\<forall>q. q \<noteq> p \<longrightarrow> sess s' q = sess s q) \<and> m (world s') \<le> m (world s) \<and>
     m_total s' p - brought (trace s') = m_total s p - brought (trace s) \<and>
     s_status (the (sess s' p)) = SESSION_DISCONNECTED \<and>
     (rc = - 1 \<and> lst s' = lst s \<or>
      rc = 0 \<and> (let n = sl_num_active_conn (l_session_list (lst s)) - 1 in
        sl_num_active_conn (l_session_list (lst s')) = n \<and> sl_userdata (l_session_list (lst s')) = sl_userdata (l_session_list (lst s)) \<and>
        l_command (lst s') = (if n = 0 then TB_EXIT else l_command (lst s))))"

lemma m_closes:
  assumes ends: "peer_ends E m" and inv: "m_running m p s0 s"
  shows "wp (close_session E p) (\<lambda>_ s'. m_running m p s0 s' \<and> s_status (the (sess s' p)) = SESSION_DISCONNECTED) R s"
proof -
  from inv obtain r where r: "sess s p = Some r" by (auto simp: m_running_def m_session_def)
  obtain a w where a: "sys E (Posix (Close (s_sock_d r))) (world s) = (a, w)" by force
  have "m_running m p s0 (s\<lparr>world := w, trace := (Posix (Close (s_sock_d r)), a_rc a) # trace s\<rparr>)"
    by (rule m_running_quiet [OF ends inv a]) simp
  then show ?thesis
    using r a by (auto simp: close_session_def wp_rules m_running_def m_session_def m_total_def)
qed

lemma wp_tb_stream_m_server_conn:
  fixes s :: "('w, 'z) tb_state_scheme"
  assumes ends: "peer_ends E m" and ok: "m_session s p" and fuel: "m (world s) < fuel"
    and num: "in_int (sl_num_active_conn (l_session_list (lst s)) - 1)" "sl_userdata (l_session_list (lst s)) \<noteq> None"
  shows "wp (tb_stream_m_server_conn E fuel p) (m_left m p s) R s"
proof -
  let ?I = "m_running m p s"
  have close: "wp (cseq [close_session E p, store_session (Some p) (\<lambda>r. r\<lparr>s_stat_lock := False\<rparr>)])
      (\<lambda>_. wp (cret (- 1)) (m_left m p s) R) R t" if "?I t" for t :: "('w, 'z) tb_state_scheme"
    unfolding wp_cseq_Cons
    by (rule wp_mono [OF m_closes [OF ends that]])
       (auto simp: wp_rules m_running_def m_session_def m_left_def m_total_def)
  have last: "wp (cseq [cbind (load_session (Some p)) (\<lambda>r.
                  cbind (cderef Null_Deref (s_other_info r)) (\<lambda>_.
                  cbind (cget (\<lambda>s. l_session_list (lst s))) (\<lambda>sl.
                  cbind (tb_session_list_dec sl) (\<lambda>(n, sl').
                  cdo [set_l (\<lambda>l. l\<lparr>l_session_list := sl'\<rparr>)]
                    (cwhen (n = 0) (cbind (cderef Null_Deref (sl_userdata sl')) (\<lambda>_.
                       set_l (\<lambda>l. l\<lparr>l_command := TB_EXIT\<rparr>)))))))),
                  store_session (Some p) (\<lambda>r. r\<lparr>s_stat_lock := False\<rparr>)])
      (\<lambda>_. wp (cret 0) (m_left m p s) R) R t"
    if "?I t \<and> s_status (the (sess t p)) = SESSION_DISCONNECTED" for t :: "('w, 'z) tb_state_scheme"
  proof -
    from that obtain r where r: "sess t p = Some r" "s_other_info r \<noteq> None" "lst t = lst s" "s_status r = SESSION_DISCONNECTED"
      by (auto simp: m_running_def m_session_def)
    then show ?thesis
      using num that by (auto simp: wp_rules tb_session_list_dec_def Let_def m_running_def m_left_def m_total_def)
  qed
  have fin: "wp (cseq [finish_timer E (Some p) s_transfer_t put_transfer, tb_print_times (Some p), close_session E p,
                  cbind (load_session (Some p)) (\<lambda>r.
                  cbind (cderef Null_Deref (s_other_info r)) (\<lambda>_.
                  cbind (cget (\<lambda>s. l_session_list (lst s))) (\<lambda>sl.
                  cbind (tb_session_list_dec sl) (\<lambda>(n, sl').
                  cdo [set_l (\<lambda>l. l\<lparr>l_session_list := sl'\<rparr>)]
                    (cwhen (n = 0) (cbind (cderef Null_Deref (sl_userdata sl')) (\<lambda>_.
                       set_l (\<lambda>l. l\<lparr>l_command := TB_EXIT\<rparr>)))))))),
                  store_session (Some p) (\<lambda>r. r\<lparr>s_stat_lock := False\<rparr>)])
      (\<lambda>_. wp (cret 0) (m_left m p s) R) R t" if "?I t" for t :: "('w, 'z) tb_state_scheme"
    apply (rule wp_step [where I = ?I], rule m_running_timers(2) [OF ends that])
    apply (rule wp_step [where I = ?I], force simp: tb_print_times_def wp_rules m_running_def m_session_def)
    apply (rule wp_step, erule m_closes [OF ends])
    apply (erule last)
    done
  have loop: "wp (cbind (cwhile fuel (\<lambda>rc. cret (rc \<noteq> 0 \<and> rc \<noteq> - 1)) (\<lambda>_. m_server_recv E p) rc0) k) Q R t"
    if "?I t" "- 1 \<le> rc0" "\<And>rc t'. ?I t' \<Longrightarrow> rc = 0 \<or> rc = - 1 \<Longrightarrow> wp (k rc) Q R t'" for rc0 k Q and t :: "('w, 'z) tb_state_scheme"
    unfolding wp_cbind
    by (rule wp_mono [OF wp_m_server_loop [OF ends that(1,2)]]) (use fuel that in \<open>auto simp: m_running_def\<close>)
  show ?thesis
    unfolding tb_stream_m_server_conn_def wp_cdo
    apply (rule wp_step [where I = ?I], rule m_running_store [OF m_running_refl [OF ok]], simp, assumption)
    apply (rule wp_step [where I = ?I], erule m_running_timers(1) [OF ends])
    apply (unfold wp_cseq_Nil wp_cbind [of "m_server_recv E p"])
    apply (rule wp_mono [where R = R], erule wp_m_server_recv [OF ends])
     apply (elim conjE, rule loop, assumption, assumption)
     apply (simp only: wp_if wp_cdo close fin if_True if_False split: if_split, simp)
    apply assumption
    done
qed


section \<open>All sessions\<close>

text \<open>The threads of a list of sessions, each run to its end, and what they return.\<close>

fun run_sessions :: "('w, 'e) senv_scheme \<Rightarrow> nat \<Rightarrow> nat list \<Rightarrow> (('w, 'z) tb_state_scheme, int list) prog" where
  "run_sessions E fuel [] = cret []"
| "run_sessions E fuel (p # ps) =
     cbind (tb_stream_m_server_conn E fuel p) (\<lambda>rc. cbind (run_sessions E fuel ps) (\<lambda>rcs. cret (rc # rcs)))"

text \<open>After the threads of \<open>ps\<close> that were run in \<open>s\<close>.\<close>

definition m_ended :: "nat list \<Rightarrow> ('w, 'z) tb_state_scheme \<Rightarrow> int list \<Rightarrow> ('w, 'z) tb_state_scheme \<Rightarrow> bool" where
  "m_ended ps s rcs s' \<longleftrightarrow> length rcs = length ps \<and> set rcs \<subseteq> {0, - 1} \<and> (\<forall>q. q \<notin> set ps \<longrightarrow> sess s' q = sess s q) \<and>
     (\<forall>p\<in>set ps. s_status (the (sess s' p)) = SESSION_DISCONNECTED) \<and>
     sum_list (map (m_total s') ps) - brought (trace s') = sum_list (map (m_total s) ps) - brought (trace s) \<and>
     sl_num_active_conn (l_session_list (lst s')) = sl_num_active_conn (l_session_list (lst s)) - int (count_list rcs 0) \<and>
     (l_command (lst s') = (if 0 < sl_num_active_conn (l_session_list (lst s)) \<and>
        sl_num_active_conn (l_session_list (lst s)) \<le> int (count_list rcs 0) then TB_EXIT else l_command (lst s)))"

lemma wp_run_sessions:
  fixes s :: "('w, 'z) tb_state_scheme"
  assumes ends: "peer_ends E m" and fuel: "m (world s) < fuel" and ps: "distinct ps" "\<forall>p\<in>set ps. m_session s p"
    and num: "int (length ps) \<le> sl_num_active_conn (l_session_list (lst s))" "in_int (sl_num_active_conn (l_session_list (lst s)))"
      "sl_userdata (l_session_list (lst s)) \<noteq> None"
  shows "wp (run_sessions E fuel ps) (m_ended ps s) R s"
  using fuel ps num
proof (induction ps arbitrary: s)
  case Nil
  then show ?case by (auto simp: wp_rules m_ended_def)
next
  case (Cons p ps)
  let ?n = "\<lambda>s :: ('w, 'z) tb_state_scheme. sl_num_active_conn (l_session_list (lst s))"
  have first: "wp (tb_stream_m_server_conn E fuel p) (m_left m p s) R s"
    using Cons.prems by (intro wp_tb_stream_m_server_conn [OF ends]) (auto simp: in_int_def)
  have rest: "wp (cbind (run_sessions E fuel ps) (\<lambda>rcs. cret (rc # rcs))) (m_ended (p # ps) s) R s1"
    if left: "m_left m p s rc s1" for rc and s1 :: "('w, 'z) tb_state_scheme"
  proof -
    have other: "sess s1 q = sess s q" if "q \<in> set ps" for q using left that Cons.prems(2) by (auto simp: m_left_def)
    then have "\<forall>q\<in>set ps. m_session s1 q" using Cons.prems(3) by (auto simp: m_session_def)
    moreover have "rc = - 1 \<and> lst s1 = lst s \<or> rc = 0 \<and> ?n s1 = ?n s - 1 \<and>
        sl_userdata (l_session_list (lst s1)) = sl_userdata (l_session_list (lst s))"
      using left by (auto simp: m_left_def Let_def)
    moreover have "m (world s1) < fuel" using left Cons.prems(1) by (simp add: m_left_def)
    ultimately have IH: "wp (run_sessions E fuel ps) (m_ended ps s1) R s1"
      using Cons.prems by (intro Cons.IH) (auto simp: in_int_def)
    have totals: "sum_list (map (m_total s1) ps) = sum_list (map (m_total s) ps)"
      using other by (intro arg_cong [where f = sum_list] map_cong) (auto simp: m_total_def)
    have both: "m_ended (p # ps) s (rc # rcs) s2" if "m_ended ps s1 rcs s2" for rcs and s2 :: "('w, 'z) tb_state_scheme"
    proof -
      have p: "sess s2 p = sess s1 p" using that Cons.prems(2) by (auto simp: m_ended_def)
      then have "m_total s2 p = m_total s1 p" by (simp add: m_total_def)
      then show ?thesis
        using that left totals p Cons.prems(2,4) unfolding m_ended_def m_left_def
        by (auto simp: Let_def)
    qed
    show ?thesis unfolding wp_cbind by (rule wp_mono [OF IH]) (auto simp: wp_cret both)
  qed
  show ?case unfolding run_sessions.simps wp_cbind [of "tb_stream_m_server_conn E fuel p"]
    by (rule wp_mono [OF first]) (auto intro: rest)
qed


section \<open>Properties\<close>


end
