(* ===== verification/TB_Start.thy ===== *)
theory TB_Start
  imports TB_Testbed
begin

text \<open>
  How a test comes up and how it is watched: what creation and the command line leave in the
  listener, which command lines crash, and that the monitor's accounts add up.
\<close>

section \<open>Creation\<close>

text \<open>What a fresh listener is known to hold.\<close>

definition fresh_listener :: "ENDPOINT_TYPE \<Rightarrow> string \<Rightarrow> string \<Rightarrow> PROTOCOL \<Rightarrow> int \<Rightarrow> tb_listener_t \<Rightarrow> bool" where
  "fresh_listener ty addr port prot b l \<longleftrightarrow>
     l_e_type l = ty \<and> l_bind_address l = addr \<and> l_bind_port l = port \<and> l_prot_id l = prot \<and>
     l_bufsize l = b \<and> p_protocol (l_protocol l) = prot \<and> o_protocol (l_options l) = prot \<and>
     l_sock_d l = - 1 \<and> l_status l = TB_CREATED \<and> l_command l = TB_CONTINUE \<and> l_s_tx_end l = TB_EXIT \<and>
     l_total_tx_rx l = 0 \<and> l_file_size l = 0 \<and> l_filename l = None \<and> l_data l = None \<and>
     l_curr_session l = None \<and> l_epoll l = None \<and> l_read l = 0 \<and> \<not> l_stat_lock l \<and> l_d_exit l = 1 \<and>
     l_log_enabled l = 1 \<and> l_monitor l = 1 \<and>
     sl_start (l_session_list l) = None \<and> sl_num_sessions (l_session_list l) = 0 \<and>
     sl_num_active_conn (l_session_list l) = 0 \<and> sl_current_max_id (l_session_list l) = - 1 \<and>
     st_protocol (l_stats l) = prot \<and> st_id (l_stats l) = - 1 \<and> st_total_bytes (l_stats l) = 0 \<and>
     st_num_m_seconds (l_stats l) = 0 \<and> st_other_info (l_stats l) \<noteq> None \<and> st_stat_time (l_stats l) \<noteq> None"

lemma tb_create_protocol_ok:
  "prot \<noteq> aUDT \<Longrightarrow> \<exists>p. p_protocol p = prot \<and> tb_create_protocol m prot s = Ok p s"
  by (cases prot) (auto simp: tb_create_protocol_def cret_def)

lemma wp_tb_create_listener:
  assumes "prot \<noteq> aUDT"
    and post: "\<And>s'. fresh_listener ty addr port prot b (lst s') \<Longrightarrow> l_f_abort (lst s') = l_f_abort (mem_listener E) \<Longrightarrow>
      l_f_exit (lst s') = l_f_exit (mem_listener E) \<Longrightarrow> sess s' = sess s \<Longrightarrow> Q () s'"
  shows "wp (tb_create_listener E ty addr port prot b) Q R s"
proof -
  from tb_create_protocol_ok [OF assms(1)] obtain p where p: "p_protocol p = prot"
      "wp (tb_create_protocol (mem_protocol E) prot) Q' R s = Q' p s" for Q'
    by (metis (no_types, lifting) result.simps(5) wp_def)
  show ?thesis
    using p(1)
    by (auto simp: tb_create_listener_def wp_cbind p(2) wp_rules tb_create_flog_def tb_create_log_def Let_def
        fresh_listener_def tb_create_stats_def split: prod.splits intro!: post)
qed

lemma tb_create_listener_audt:
  "tb_create_listener E ty addr port aUDT b s = Halt (Process_Exit (- 1)) s"
  by (simp add: tb_create_listener_def cbind_def tb_create_protocol_def chalt_def)

lemma wp_tb_create_listener_audt:
  "wp (tb_create_listener E ty addr port aUDT b) Q R s = R (Process_Exit (- 1)) s"
  by (simp add: wp_def tb_create_listener_audt)


section \<open>The accounts of the monitor\<close>

text \<open>The monitor's arithmetic over readings that grow by the numbers \<open>ds\<close> from \<open>c\<close>.\<close>

fun monitor_run :: "int \<Rightarrow> int \<Rightarrow> int \<Rightarrow> tb_prot_stats_t \<Rightarrow> int list \<Rightarrow> ('s, tb_prot_stats_t) prog" where
  "monitor_run c prev peak st [] = cret st"
| "monitor_run c prev peak st (d # ds) =
     cbind (monitor_rates prev peak (st\<lparr>st_current_read := c + d\<rparr>)) (\<lambda>(st', prev', peak').
     monitor_run (c + d) prev' peak' st' ds)"

lemma monitor_rates_ok:
  assumes "prev = to_int c" and "0 \<le> d" and "d * 10 \<le> 2147483647"
  shows "monitor_rates prev peak (st\<lparr>st_current_read := c + d\<rparr>) s =
    Ok (st\<lparr>st_current_read := c + d, st_byte_sec := d * 10, st_total_bytes := st_total_bytes st + d,
          st_num_m_seconds := st_num_m_seconds st + 1,
          st_av_byte_sec := of_int (st_total_bytes st + d) / of_int (st_num_m_seconds st + 1) * 10,
          st_peak_byte_sec := (if peak < d * 10 then d * 10 else st_peak_byte_sec st)\<rparr>,
        to_int (c + d), max peak (d * 10)) s"
proof -
  have "to_int (c + d - prev) = d"
    using assms by (simp add: to_int_diff to_int_id in_int_def)
  then show ?thesis
    using assms by (auto simp: monitor_rates_def Let_def cbind_def cint_def cret_def in_int_def max_def)
qed

lemma monitor_run_ok:
  assumes "\<forall>d\<in>set ds. 0 \<le> d \<and> d * 10 \<le> 2147483647" and "prev = to_int c" and "st_peak_byte_sec st = peak"
  shows "\<exists>st'. monitor_run c prev peak st ds s = Ok st' s \<and>
    st_total_bytes st' = st_total_bytes st + sum_list ds \<and>
    st_num_m_seconds st' = st_num_m_seconds st + int (length ds) \<and>
    st_peak_byte_sec st' = fold max (map (\<lambda>d. d * 10) ds) peak \<and>
    (ds \<noteq> [] \<longrightarrow> st_byte_sec st' = last ds * 10 \<and>
       st_av_byte_sec st' = of_int (st_total_bytes st') / of_int (st_num_m_seconds st') * 10)"
  using assms
proof (induction ds arbitrary: c prev peak st)
  case Nil
  then show ?case by (simp add: cret_def)
next
  case (Cons d ds)
  let ?st = "st\<lparr>st_current_read := c + d, st_byte_sec := d * 10, st_total_bytes := st_total_bytes st + d,
          st_num_m_seconds := st_num_m_seconds st + 1,
          st_av_byte_sec := of_int (st_total_bytes st + d) / of_int (st_num_m_seconds st + 1) * 10,
          st_peak_byte_sec := (if peak < d * 10 then d * 10 else st_peak_byte_sec st)\<rparr>"
  have d: "0 \<le> d" "d * 10 \<le> 2147483647" using Cons.prems(1) by auto
  have peak: "st_peak_byte_sec ?st = max peak (d * 10)" using Cons.prems(3) by (simp add: max_def)
  from Cons.IH [of "to_int (c + d)" "c + d" ?st "max peak (d * 10)"] Cons.prems(1) peak
  obtain st' where st': "monitor_run (c + d) (to_int (c + d)) (max peak (d * 10)) ?st ds s = Ok st' s"
      "st_total_bytes st' = st_total_bytes st + d + sum_list ds"
      "st_num_m_seconds st' = st_num_m_seconds st + 1 + int (length ds)"
      "st_peak_byte_sec st' = fold max (map (\<lambda>d. d * 10) ds) (max peak (d * 10))"
      "ds \<noteq> [] \<longrightarrow> st_byte_sec st' = last ds * 10 \<and>
       st_av_byte_sec st' = of_int (st_total_bytes st') / of_int (st_num_m_seconds st') * 10"
    by auto
  have run: "monitor_run c prev peak st (d # ds) s = Ok st' s"
    using st'(1) monitor_rates_ok [OF Cons.prems(2) d, of peak st s] by (simp add: cbind_def)
  show ?case
  proof (cases "ds = []")
    case True
    then have "st' = ?st" using st'(1) by (simp add: cret_def)
    with run st' True show ?thesis by (simp add: max.commute)
  next
    case False
    with run st' show ?thesis by (simp add: max.commute)
  qed
qed


section \<open>The command line\<close>

lemma wp_argv:
  "i < length argv \<Longrightarrow> wp (argv_at argv i) Q R s = Q (Some (argv ! i)) s"
  "i = length argv \<Longrightarrow> wp (argv_at argv i) Q R s = Q None s"
  "length argv < i \<Longrightarrow> wp (argv_at argv i) Q R s = R (Undefined Out_Of_Bounds) s"
  by (simp_all add: argv_at_def wp_rules)

lemma wp_str_at:
  "wp (str_at argv i) Q R s = (if i < length argv then Q (argv ! i) s
     else R (Undefined (if i = length argv then Null_Deref else Out_Of_Bounds)) s)"
  by (cases i "length argv" rule: linorder_cases) (simp_all add: str_at_def wp_argv wp_rules)

text \<open>A listener the command line has made, ready to be started.\<close>

definition parsed_listener :: "string list \<Rightarrow> tb_listener_t \<Rightarrow> bool" where
  "parsed_listener argv l \<longleftrightarrow> 6 \<le> length argv \<and> length argv \<le> 8 \<and>
     parse_type (argv ! 1) (length argv) = Some (l_e_type l) \<and>
     parse_protocol (argv ! 4) = Some (p_protocol (l_protocol l)) \<and> p_protocol (l_protocol l) \<noteq> aUDT \<and>
     l_bind_address l = argv ! 2 \<and> l_bind_port l = argv ! 3 \<and>
     (is_client (l_e_type l) \<longrightarrow> length argv = 8 \<and>
        (argv ! 6 = ''size'' \<and> l_filename l = None \<and>
           l_file_size l = (case scan_int (argv ! 7) of None \<Rightarrow> 0 | Some n \<Rightarrow> n * 1024) \<or>
         argv ! 6 = ''file'' \<and> l_filename l = Some (argv ! 7) \<and> l_file_size l = 0)) \<and>
     (case scan_int (argv ! 5) of None \<Rightarrow> False
      | Some n \<Rightarrow> l_bufsize l = (if n \<noteq> 0 then n else if is_client (l_e_type l) then l_file_size l else 1408)) \<and>
     l_sock_d l = - 1 \<and> l_status l = TB_CREATED \<and> l_command l = TB_CONTINUE \<and> l_total_tx_rx l = 0 \<and>
     l_d_exit l = 1 \<and> l_f_exit l = Some Fn_tb_exit \<and> l_f_abort l = Some Fn_tb_abort"

text \<open>How a command line can fail.\<close>

definition rejected :: "string list \<Rightarrow> halt \<Rightarrow> bool" where
  "rejected argv h \<longleftrightarrow>
     (h = Process_Exit (- 1) \<and> (length argv < 6 \<or> 8 < length argv \<or> parse_type (argv ! 1) (length argv) = None \<or>
        parse_protocol (argv ! 4) = None \<or> parse_protocol (argv ! 4) = Some aUDT)) \<or>
     (h = Undefined Null_Deref \<and> argv ! 1 = ''mclient'' \<and> (length argv = 6 \<or> length argv = 7)) \<or>
     (h = Undefined Uninitialised \<and> scan_int (argv ! 5) = None) \<or>
     (h = Undefined Signed_Overflow \<and> (\<exists>n. scan_int (argv ! 5) = Some n \<and> \<not> in_int n \<or>
        argv ! 6 = ''size'' \<and> scan_int (argv ! 7) = Some n \<and> (\<not> in_int n \<or> \<not> in_int (n * 1024)))) \<or>
     (h \<in> {Thread_Exit, Assert_Fail} \<and> argv ! 6 \<noteq> ''size'' \<and> argv ! 6 \<noteq> ''file'')"

lemma parse_type_mclient: "parse_type arg n = Some ty \<Longrightarrow> is_client ty \<Longrightarrow> n \<noteq> 8 \<Longrightarrow> arg = ''mclient''"
  by (auto simp: parse_type_def is_client_def split: if_splits)

lemma wp_tb_abort_fresh:
  assumes "l_sock_d (lst s) = - 1" and "\<And>h s'. h \<in> {Thread_Exit, Assert_Fail} \<Longrightarrow> R h s'"
  shows "wp (tb_abort E) Q R s"
  using assms by (auto simp: tb_abort_def wp_rules intro!: wp_LOG)

lemma wp_parse_file:
  fixes s :: "('w, 'z) tb_state_scheme"
  assumes l: "l_file_size (lst s) = 0" "l_filename (lst s) = None" "l_sock_d (lst s) = - 1"
    and argv: "6 \<le> length argv" "length argv \<le> 8" "length argv \<noteq> 8 \<Longrightarrow> argv ! 1 = ''mclient''"
    and post: "\<And>n f. length argv = 8 \<Longrightarrow>
      argv ! 6 = ''size'' \<and> f = None \<and> n = (case scan_int (argv ! 7) of None \<Rightarrow> 0 | Some n \<Rightarrow> n * 1024) \<or>
      argv ! 6 = ''file'' \<and> f = Some (argv ! 7) \<and> n = 0 \<Longrightarrow>
      Q () (s\<lparr>lst := (lst s)\<lparr>l_file_size := n, l_filename := f\<rparr>\<rparr>)"
  shows "wp (parse_file E argv) Q (\<lambda>h _. rejected argv h) s"
proof -
  consider "length argv = 6" | "length argv = 7" | "length argv = 8" using argv(1,2) by linarith
  then show ?thesis
  proof cases
    case 1
    then show ?thesis using argv(3)
      by (simp add: parse_file_def wp_rules wp_str_at ARG_FILE_TYPE_def rejected_def)
  next
    case 2
    then show ?thesis using argv(3) l(3)
      by (auto simp: parse_file_def wp_rules wp_str_at ARG_FILE_TYPE_def ARG_FILE_NAME_def rejected_def
          intro!: wp_tb_abort_fresh)
  next
    case 3
    have same: "s\<lparr>lst := (lst s)\<lparr>l_file_size := n\<rparr>\<rparr> = s\<lparr>lst := (lst s)\<lparr>l_file_size := n, l_filename := None\<rparr>\<rparr>"
      "s\<lparr>lst := (lst s)\<lparr>l_filename := f\<rparr>\<rparr> = s\<lparr>lst := (lst s)\<lparr>l_file_size := 0, l_filename := f\<rparr>\<rparr>" for n f
      using l by simp_all
    have "in_int 0" by (simp add: in_int_def)
    then show ?thesis
      using 3 l post [OF 3]
      by (auto simp: parse_file_def wp_rules wp_str_at ARG_FILE_TYPE_def ARG_FILE_NAME_def rejected_def same
          split: option.splits intro!: wp_tb_abort_fresh)
  qed
qed

lemma wp_parse_listener:
  fixes s :: "('w, 'z) tb_state_scheme"
  shows "wp (parse_listener E argv) (\<lambda>_ s'. parsed_listener argv (lst s')) (\<lambda>h _. rejected argv h) s"
proof (cases "6 \<le> length argv \<and> length argv \<le> 8")
  case False
  then show ?thesis by (auto simp: parse_listener_def wp_rules rejected_def)
next
  case True
  note str = wp_str_at ARG_TYPE_def ARG_PROT_def ARG_BUF_SIZE_def ARG_ADDRESS_def ARG_PORT_def
  show ?thesis
  proof (cases "parse_type (argv ! 1) (length argv)")
    case None
    with True show ?thesis by (simp add: parse_listener_def wp_rules str rejected_def)
  next
    case ty: (Some ty)
    show ?thesis
    proof (cases "parse_protocol (argv ! 4)")
      case None
      with True ty show ?thesis by (simp add: parse_listener_def wp_rules str rejected_def)
    next
      case prot: (Some prot)
      show ?thesis
      proof (cases "scan_int (argv ! 5)")
        case None
        with True ty prot show ?thesis by (simp add: parse_listener_def wp_rules str rejected_def)
      next
        case n: (Some n)
        let ?rest = "[tb_create_listener E ty (argv ! 2) (argv ! 3) prot n,
              cwhen (is_client ty) (parse_file E argv),
              set_l (\<lambda>l. if l_bufsize l = 0
                         then l\<lparr>l_bufsize := (if is_client (l_e_type l) then l_file_size l else 1408)\<rparr> else l),
              set_l (\<lambda>l. l\<lparr>l_d_exit := 1, l_f_exit := Some Fn_tb_exit, l_f_abort := Some Fn_tb_abort\<rparr>)]"
        have "wp (cseq ?rest) (\<lambda>_ s'. parsed_listener argv (lst s')) (\<lambda>h _. rejected argv h) s" if "in_int n"
        proof (cases "prot = aUDT")
          case True
          then show ?thesis using prot
            by (simp add: wp_cseq_Cons wp_tb_create_listener_audt rejected_def)
        next
          case False
          show ?thesis
            unfolding wp_cseq_Cons
          proof (rule wp_tb_create_listener [OF False])
            fix t :: "('w, 'z) tb_state_scheme"
            assume fresh: "fresh_listener ty (argv ! 2) (argv ! 3) prot n (lst t)"
            show "wp (cwhen (is_client ty) (parse_file E argv)) (\<lambda>_. wp (set_l (\<lambda>l. if l_bufsize l = 0
                         then l\<lparr>l_bufsize := (if is_client (l_e_type l) then l_file_size l else 1408)\<rparr> else l))
                (\<lambda>_. wp (set_l (\<lambda>l. l\<lparr>l_d_exit := 1, l_f_exit := Some Fn_tb_exit, l_f_abort := Some Fn_tb_abort\<rparr>))
                  (\<lambda>_. wp (cseq []) (\<lambda>_ s'. parsed_listener argv (lst s')) (\<lambda>h _. rejected argv h))
                  (\<lambda>h _. rejected argv h)) (\<lambda>h _. rejected argv h)) (\<lambda>h _. rejected argv h) t"
            proof (cases "is_client ty")
              case client: True
              have mc: "length argv \<noteq> 8 \<Longrightarrow> argv ! 1 = ''mclient''" using parse_type_mclient [OF ty client] .
              show ?thesis
                using True fresh ty prot n client False
                by (auto simp: wp_cwhen wp_set_l wp_cseq_Nil fresh_listener_def parsed_listener_def
                    intro!: wp_parse_file mc)
            next
              case False
              then show ?thesis
                using True fresh ty prot n \<open>prot \<noteq> aUDT\<close>
                by (auto simp: wp_cwhen wp_set_l wp_cseq_Nil fresh_listener_def parsed_listener_def)
            qed
          qed
        qed
        then show ?thesis
          using True ty prot n by (auto simp: parse_listener_def wp_cbind wp_cint str rejected_def)
      qed
    qed
  qed
qed


section \<open>Endpoints\<close>

definition endpoint_listener :: "tb_test_params_t \<Rightarrow> string \<Rightarrow> string \<Rightarrow> tb_listener_t \<Rightarrow> bool" where
  "endpoint_listener params addr port l \<longleftrightarrow>
     l_e_type l = pr_type params \<and> p_protocol (l_protocol l) = pr_protocol params \<and>
     l_bind_address l = addr \<and> l_bind_port l = port \<and>
     l_file_size l = pr_d_size params * 1024 \<and> l_filename l = pr_file_name params \<and>
     l_bufsize l = (if pr_pack_size params = 0 then 1408 else pr_pack_size params) \<and>
     o_l4_s_b_size (l_options l) = pr_l4_w_b_size params \<and> o_l4_r_b_size (l_options l) = pr_l4_r_b_size params \<and>
     o_l3_s_b_size (l_options l) = pr_l3_w_b_size params \<and> o_l3_r_b_size (l_options l) = pr_l3_r_b_size params \<and>
     o_control (l_options l) = pr_control params \<and> o_protocol (l_options l) = pr_protocol params \<and>
     l_command l = TB_CONTINUE \<and> l_status l = TB_CREATED \<and> l_d_exit l = 0 \<and> l_sock_d l = - 1"

lemma ENDPOINT_TYPE_val_range: "0 \<le> ENDPOINT_TYPE_val t" "ENDPOINT_TYPE_val t \<le> 3"
  by (cases t; simp)+

lemma PROTOCOL_range: "TCP \<le> p" "p \<le> DCCP"
  by (cases p; simp add: less_eq_PROTOCOL_def)+

lemma wp_assert: "b \<Longrightarrow> wp (cseq ms) Q R s \<Longrightarrow> wp (cseq (cassert b # ms)) Q R s"
  by (simp add: wp_cseq_Cons wp_cassert)

lemma wp_tb_create_endpoint:
  fixes s :: "('w, 'z) tb_state_scheme" and E :: "('w, 'e) lenv_scheme"
  assumes "pr_address params = Some addr" and "pr_port params = Some port" and prot: "pr_protocol params \<noteq> aUDT"
    and "pr_file_name params = None \<longleftrightarrow> 0 < pr_d_size params" and "in_int (pr_d_size params * 1024)"
  shows "wp (tb_create_endpoint E params) (\<lambda>_ s'. endpoint_listener params addr port (lst s') \<and>
      l_f_abort (lst s') = l_f_abort (mem_listener E) \<and> l_f_exit (lst s') = l_f_exit (mem_listener E))
    (\<lambda>h _. h = Assert_Fail \<and> pr_pack_size params = 0) s"
proof -
  have "if pr_file_name params = None then 0 < pr_d_size params else pr_d_size params \<le> 0"
    using assms(4) by auto
  note good = assms(1,2,5) this ENDPOINT_TYPE_val_range [of "pr_type params"] PROTOCOL_range [of "pr_protocol params"]
  show ?thesis
    unfolding tb_create_endpoint_def wp_cdo
    apply (rule wp_assert, simp add: good(1), rule wp_assert, simp add: good(2), rule wp_assert, simp add: good(5,6),
        rule wp_assert, simp add: good(7,8), rule wp_assert, rule good(4), unfold wp_cseq_Cons)
    apply (rule wp_tb_create_listener [OF prot])
    using good(1-3)
    apply (auto simp: wp_rules tb_create_flog_def tb_create_log_def Let_def fresh_listener_def endpoint_listener_def
        split: prod.splits intro!: wp_LOG)
    done
qed

section \<open>Properties\<close>




text \<open>The check of the arguments lets an mclient through with no file arguments. Then the program
  compares the null pointer at the end of its arguments with a string.\<close>

theorem mclient_reads_null:
  assumes "length argv = 6" and "argv ! 1 = ''mclient''"
    and "parse_protocol (argv ! 4) = Some prot" and "prot \<noteq> aUDT"
    and "scan_int (argv ! 5) = Some n" and "in_int n"
  shows "\<exists>s'. parse_listener E argv s = Halt (Undefined Null_Deref) s'"
proof -
  have ty: "parse_type (argv ! 1) (length argv) = Some mCLIENT" using assms(2) by (simp add: parse_type_def)
  have "wp (parse_listener E argv) (\<lambda>_ _. False) (\<lambda>h _. h = Undefined Null_Deref) s"
    using assms ty
    by (auto simp: parse_listener_def wp_rules wp_str_at ARG_TYPE_def ARG_PROT_def ARG_BUF_SIZE_def
        ARG_ADDRESS_def ARG_PORT_def ARG_FILE_TYPE_def is_client_def parse_file_def
        intro!: wp_tb_create_listener)
  then show ?thesis by (auto simp: wp_halts)
qed

text \<open>An endpoint made from parameters holds what they say: the size in bytes, the buffer size or
  its default, the socket options, and it is not destroyed at the end. The only way to fail on
  good parameters is the message about the default size when the log could not be opened. The
  functions to call on abort and exit are never set: they are what the memory held.\<close>

theorem endpoint_creation:
  assumes "pr_address params = Some addr" and "pr_port params = Some port" and "pr_protocol params \<noteq> aUDT"
    and "pr_file_name params = None \<longleftrightarrow> 0 < pr_d_size params" and "in_int (pr_d_size params * 1024)"
  shows "(\<exists>s'. tb_create_endpoint E params s = Ok () s' \<and> endpoint_listener params addr port (lst s') \<and>
      l_f_abort (lst s') = l_f_abort (mem_listener E) \<and> l_f_exit (lst s') = l_f_exit (mem_listener E)) \<or>
    (\<exists>s'. tb_create_endpoint E params s = Halt Assert_Fail s' \<and> pr_pack_size params = 0)"
  using wp_tb_create_endpoint [OF assms, of E s] by (auto simp: wp_def split: result.splits)

end
