(* ===== verification/TB_Stats.thy ===== *)
theory TB_Stats
  imports TB_Stream TB_Transfer
begin

text \<open>
  Correctness of what the listener does for every protocol: how a thread is aborted, how its
  statistics are handed to a reader, how those of several sessions are added up, and what a
  receive that fails in a tolerated way does to the counts.
\<close>

section \<open>The sum over the sessions\<close>

definition total_received :: "('w, 'z) tb_heap_scheme \<Rightarrow> (nat \<times> nat) list \<Rightarrow> int" where
  "total_received s ps = (\<Sum>(a, b)\<leftarrow>ps. s_total_bytes (the (sess s a)))"

definition num_connected :: "('w, 'z) tb_heap_scheme \<Rightarrow> (nat \<times> nat) list \<Rightarrow> nat" where
  "num_connected s ps = length (filter (\<lambda>(a, b). s_status (the (sess s a)) = SESSION_CONNECTED) ps)"


lemma total_received_Cons: "total_received s ((a, b) # ps) = s_total_bytes (the (sess s a)) + total_received s ps"
  by (simp add: total_received_def)

lemma num_connected_Cons: "num_connected s ((a, b) # ps) =
    (if s_status (the (sess s a)) = SESSION_CONNECTED then 1 else 0) + num_connected s ps"
  by (simp add: num_connected_def)

lemma sums_frame:
  assumes "a \<notin> fst ` set ps" and "sess s' = (sess s)(a := x)"
  shows "total_received s' ps = total_received s ps \<and> num_connected s' ps = num_connected s ps"
  using assms
proof (induction ps)
  case (Cons c ps)
  then show ?case by (cases c) (simp add: total_received_Cons num_connected_Cons)
qed (simp add: total_received_def num_connected_def)

text \<open>One session: its bytes are added, it is counted if it is connected, and the lists stay linked.\<close>

lemma wp_m_stats_session:
  fixes s :: "('w, 'z) tb_state_scheme" and E :: "('w, 'e) env_scheme"
  assumes sl: "slist (sess s) (sstats s) (Some a) q ((a, b) # ps)"
    and dist: "a \<notin> fst ` set ps" "b \<notin> snd ` set ps"
    and post: "\<And>s' r nxt q' n'. sess s a = Some r \<Longrightarrow> slist (sess s') (sstats s') nxt q' ps \<Longrightarrow>
      (\<exists>x. sess s' = (sess s)(a := x)) \<Longrightarrow>
      st_current_read (l_stats (lst s')) = st_current_read (l_stats (lst s)) + s_total_bytes r \<Longrightarrow>
      l_total_tx_rx (lst s') = l_total_tx_rx (lst s) + s_total_bytes r \<Longrightarrow>
      st_other_info (l_stats (lst s')) = st_other_info (l_stats (lst s)) \<Longrightarrow>
      l_status (lst s') = l_status (lst s) \<Longrightarrow>
      n' = n + (if s_status r = SESSION_CONNECTED then 1 else 0) \<Longrightarrow> Q (nxt, n') s'"
  shows "wp (m_stats_session E (Some a, n)) Q (\<lambda>h _. h = Undefined Signed_Overflow) s"
proof -
  from sl obtain r st where r: "sess s a = Some r" "s_stats r = Some b" "sstats s b = Some st"
      "slist (sess s) (sstats s) (s_n_session r) (st_n_stats st) ps"
    by (auto split: option.splits)
  have frame: "slist ((sess s)(a := x)) ((sstats s)(b := y)) (s_n_session r) (st_n_stats st) ps" for x y
    using r(4) dist by (simp add: slist_frame_session slist_frame_stats)
  have frame1: "slist ((sess s)(a := x)) (sstats s) (s_n_session r) (st_n_stats st) ps" for x
    using r(4) dist by (simp add: slist_frame_session)
  have post1: "Q (s_n_session r, n') s'"
    if "slist (sess s') (sstats s') (s_n_session r) (st_n_stats st) ps"
      "sess s' = (sess s)(a \<mapsto> r\<lparr>s_stat_lock := False\<rparr>)"
      "st_current_read (l_stats (lst s')) = st_current_read (l_stats (lst s)) + s_total_bytes r"
      "l_total_tx_rx (lst s') = l_total_tx_rx (lst s) + s_total_bytes r"
      "st_other_info (l_stats (lst s')) = st_other_info (l_stats (lst s))"
      "l_status (lst s') = l_status (lst s)"
      "n' = n + (if s_status r = SESSION_CONNECTED then 1 else 0)" for n' and s' :: "('w, 'z) tb_state_scheme"
    using that by (intro post [OF r(1)]) auto
  show ?thesis
  proof (cases "s_status r = SESSION_CONNECTED")
    case False
    then show ?thesis
      using r frame1 by (auto simp: m_stats_session_def wp_rules Let_def intro!: post1)
  next
    case True
    have get: "wp (tb_get_stats E st (s_sock_d r)) Q' (\<lambda>h _. h = Undefined Signed_Overflow) t"
      if "\<And>st' w tr. stats_frame st st' \<Longrightarrow> Q' st' (t\<lparr>world := w, trace := tr\<rparr>)" for Q' and t :: "('w, 'z) tb_state_scheme"
    proof (cases "in_int (st_id st + 1)")
      case True
      then show ?thesis using that by (intro wp_tb_get_stats) auto
    next
      case False
      then show ?thesis by (simp add: tb_get_stats_def wp_rules)
    qed
    show ?thesis
      using True r
      by (auto simp: m_stats_session_def wp_rules Let_def add_session_stats_def stats_frame_def
          intro!: get post1 frame)
  qed
qed

lemma m_stats_loop:
  fixes s :: "('w, 'z) tb_state_scheme" and E :: "('w, 'e) env_scheme"
  assumes "slist (sess s) (sstats s) p q ps" and "distinct (map fst ps)" and "distinct (map snd ps)"
    and "length ps \<le> fuel"
  shows "wp (cwhile fuel (\<lambda>l. cret (fst l \<noteq> None)) (m_stats_session E) (p, n))
    (\<lambda>l s'. snd l = n + int (num_connected s ps) \<and>
      st_current_read (l_stats (lst s')) = st_current_read (l_stats (lst s)) + total_received s ps \<and>
      l_total_tx_rx (lst s') = l_total_tx_rx (lst s) + total_received s ps \<and>
      st_other_info (l_stats (lst s')) = st_other_info (l_stats (lst s)) \<and>
      l_status (lst s') = l_status (lst s)) (\<lambda>h _. h = Undefined Signed_Overflow) s"
  using assms
proof (induction ps arbitrary: s p q n fuel)
  case Nil
  then show ?case
    by (subst cwhile.simps) (simp add: wp_rules total_received_def num_connected_def)
next
  case (Cons c ps)
  obtain a b where c: "c = (a, b)" by force
  from Cons.prems(4) obtain k where k: "fuel = Suc k" "length ps \<le> k" by (cases fuel) auto
  have p: "p = Some a" using Cons.prems(1) c by auto
  have sl: "slist (sess s) (sstats s) (Some a) q ((a, b) # ps)" using Cons.prems(1) c p by simp
  have dist: "a \<notin> fst ` set ps" "b \<notin> snd ` set ps" using Cons.prems(2,3) c by auto
  show ?case
    unfolding k(1) p c
  proof (subst cwhile.simps, simp add: wp_rules, rule wp_m_stats_session [OF sl dist])
    fix s' :: "('w, 'z) tb_state_scheme" and r nxt q' n'
    assume r: "sess s a = Some r" and sl': "slist (sess s') (sstats s') nxt q' ps"
      and upd: "\<exists>x. sess s' = (sess s)(a := x)"
      and eqs: "st_current_read (l_stats (lst s')) = st_current_read (l_stats (lst s)) + s_total_bytes r"
        "l_total_tx_rx (lst s') = l_total_tx_rx (lst s) + s_total_bytes r"
        "st_other_info (l_stats (lst s')) = st_other_info (l_stats (lst s))"
        "l_status (lst s') = l_status (lst s)"
      and n': "n' = n + (if s_status r = SESSION_CONNECTED then 1 else 0)"
    from upd obtain x where x: "sess s' = (sess s)(a := x)" by blast
    note sums = sums_frame [OF dist(1) x]
    show "wp (cwhile k (\<lambda>l. cret (\<exists>y. fst l = Some y)) (m_stats_session E)
        (nxt, n'))
      (\<lambda>l s'. snd l = n + int (num_connected s ((a, b) # ps)) \<and>
        st_current_read (l_stats (lst s')) = st_current_read (l_stats (lst s)) + total_received s ((a, b) # ps) \<and>
        l_total_tx_rx (lst s') = l_total_tx_rx (lst s) + total_received s ((a, b) # ps) \<and>
        st_other_info (l_stats (lst s')) = st_other_info (l_stats (lst s)) \<and>
        l_status (lst s') = l_status (lst s)) (\<lambda>h _. h = Undefined Signed_Overflow) s'"
    proof -
      have n: "n' + int (num_connected s ps) = n + int (num_connected s ((a, b) # ps))"
        using n' r by (simp add: num_connected_Cons)
      show ?thesis
        using Cons.IH [OF sl' _ _ k(2), of n'] Cons.prems(2,3) c r eqs sums
        by (simp add: total_received_Cons add.assoc n)
    qed
  qed
qed

section \<open>Ending a thread\<close>

text \<open>The calls that close a socket.\<close>

fun closes :: "int \<Rightarrow> syscall \<times> int \<Rightarrow> bool" where
  "closes fd (Posix (Close f), r) = (f = fd)"
| "closes fd (Udt (Udt_close f), r) = (f = fd)"
| "closes fd _ = False"

lemma stdio_run_closes: "stdio_run E w tr w' tr' \<Longrightarrow> filter (closes fd) tr' = filter (closes fd) tr"
  by (induction rule: stdio_run.induct) auto

definition aborted :: "('w, 'z) tb_state_scheme \<Rightarrow> halt \<Rightarrow> ('w, 'z) tb_state_scheme \<Rightarrow> bool" where
  "aborted s h s' \<longleftrightarrow>
     (h = Thread_Exit \<or> h = Assert_Fail \<and> l_log_enabled (lst s) \<noteq> 0 \<and> l_log_info (lst s) = None) \<and>
     l_status (lst s') = TB_ABORTING \<and> l_stat_lock (lst s') = l_stat_lock (lst s) \<and>
     length (filter (closes (l_sock_d (lst s))) (trace s')) =
       length (filter (closes (l_sock_d (lst s))) (trace s)) + (if l_sock_d (lst s) = - 1 then 0 else 1)"

lemma wp_LOG_assert:
  assumes Q: "\<And>w tr. stdio_run E (world s) (trace s) w tr \<Longrightarrow> Q () (s\<lparr>world := w, trace := tr\<rparr>)"
    and "l_log_enabled (lst s) \<noteq> 0 \<Longrightarrow> l_log_info (lst s) = None \<Longrightarrow> R Assert_Fail s"
  shows "wp (LOG E info ty) Q R s"
proof -
  have "Q () s" using Q [OF stdio_refl] by simp
  then show ?thesis using assms(2)
    by (auto simp: LOG_def wp_rules tb_write_log_def Let_def split: option.splits prod.splits
        intro!: Q stdio_more intro: stdio_refl)
qed

text \<open>The handshake of \<open>l_read\<close>, seen from a state in which the statistics are new.\<close>

lemma read_once:
  fixes t :: "('w, 'z) tb_state_scheme" and E :: "('w, 'e) env_scheme"
  assumes "l_read (lst t) = 0" and "st_stat_time (l_stats (lst t)) \<noteq> None"
    and "l_status (lst t) \<noteq> TB_ABORTING" and "l_status (lst t) \<noteq> TB_EXITING"
    and "in_int (st_id (l_stats (lst t)) + 1)"
  shows "wp (tb_ex_get_stat_cpy E) (\<lambda>st s2.
      st_current_read st = st_current_read (l_stats (lst t)) \<and> st_other_info st = st_other_info (l_stats (lst t)) \<and>
      l_read (lst s2) = 1 \<and> \<not> l_stat_lock (lst s2) \<and>
      wp (tb_ex_get_stat_cpy E) (\<lambda>_ _. False) (\<lambda>h s3. h = Blocked \<and> \<not> l_stat_lock (lst s3)) s2)
    (\<lambda>_ _. False) t"
  using assms
  by (auto simp: tb_ex_get_stat_cpy_def read_stats_def wp_rules trylock_stat_def unlock_stat_def
      tb_start_time_def tb_finish_time_def Let_def split: option.splits prod.splits)

lemma wp_publish_stats:
  fixes t :: "('w, 'z) tb_state_scheme"
  assumes "st_other_info (l_stats (lst t)) = Some i"
    and "\<And>t'. lst t' = (lst t)\<lparr>l_stats := (l_stats (lst t))\<lparr>st_other_info := Some (i\<lparr>i_l_status :=
        STATUS_val (l_status (lst t)), i_sys_tid := l_sys_tid (lst t)\<rparr>)\<rparr>, l_read := 0, l_stat_lock := False\<rparr> \<Longrightarrow> Q () t'"
  shows "wp publish_stats Q R t"
  using assms by (simp add: publish_stats_def wp_rules unlock_stat_def)

section \<open>Properties\<close>

text \<open>C33: an abort always ends the thread. Unless it waits for a lock that is held, or calls the close
  function a protocol does not have, the thread is gone, the status says so, the socket has been closed exactly
  once if there was one, and the lock is as free as it was.\<close>

theorem abort_ends_thread:
  "\<exists>h s'. tb_abort E s = (Halt h s' :: (('w, 'z) tb_state_scheme, 'a) result) \<and>
    (if l_sock_d (lst s) \<noteq> - 1 \<and> l_stat_lock (lst s) then h = Blocked \<and> s' = s
     else if l_sock_d (lst s) \<noteq> - 1 \<and> f_close (l_protocol (lst s)) = None then h = Undefined Null_Call
     else aborted s h s')"
proof -
  have "wp (tb_abort E :: (('w, 'z) tb_state_scheme, 'a) prog) (\<lambda>_ _. False) (\<lambda>h s'.
    if l_sock_d (lst s) \<noteq> - 1 \<and> l_stat_lock (lst s) then h = Blocked \<and> s' = s
    else if l_sock_d (lst s) \<noteq> - 1 \<and> f_close (l_protocol (lst s)) = None then h = Undefined Null_Call
    else aborted s h s') s"
    by (cases "f_close (l_protocol (lst s))"; cases "the (f_close (l_protocol (lst s)))")
      (auto simp: tb_abort_def wp_rules lock_stat_def unlock_stat_def aborted_def
        split: prod.splits intro!: wp_LOG_assert dest!: stdio_run_closes [where fd = "l_sock_d (lst s)"])
  then show ?thesis unfolding wp_halts .
qed

text \<open>C25: the statistics of a listener with many sessions are the sums over its sessions. Collecting
  them visits every session of the list once, whatever its state; afterwards the bytes read
  and the listener's own total are the sum of the sessions' totals, which replaces what they
  were before, the statistics are marked as new and their lock is free. The only way to fail
  is the overflow of one of the \<open>int\<close> counters of the protocol.\<close>

theorem m_stats_total:
  fixes s :: "('w, 'z) tb_state_scheme" and E :: "('w, 'e) env_scheme"
  assumes "list_ok s (l_session_list (lst s)) ps" and "st_other_info (l_stats (lst s)) \<noteq> None"
    and "length ps \<le> fuel"
  shows "(\<exists>s'. tb_set_m_stats E fuel s = Ok () s' \<and>
      st_current_read (l_stats (lst s')) = total_received s ps \<and> l_total_tx_rx (lst s') = total_received s ps \<and>
      l_read (lst s') = 0 \<and> \<not> l_stat_lock (lst s')) \<or>
    (\<exists>s'. tb_set_m_stats E fuel s = Halt (Undefined Signed_Overflow) s')"
proof -
  have "wp (tb_set_m_stats E fuel) (\<lambda>_ s'. st_current_read (l_stats (lst s')) = total_received s ps \<and>
      l_total_tx_rx (lst s') = total_received s ps \<and> l_read (lst s') = 0 \<and> \<not> l_stat_lock (lst s'))
    (\<lambda>h _. h = Undefined Signed_Overflow) s"
  proof -
    let ?s = "s\<lparr>lst := (lst s)\<lparr>l_stat_lock := True,
      l_stats := zero_session_stats ((l_stats (lst s))\<lparr>st_current_read := 0\<rparr>), l_total_tx_rx := 0\<rparr>\<rparr>"
    have sl: "slist (sess ?s) (sstats ?s) (sl_start (l_session_list (lst s))) (first_stats ps) ps"
        "distinct (map fst ps)" "distinct (map snd ps)"
      using assms(1) by (simp_all add: list_ok_def)
    have same: "total_received ?s ps = total_received s ps" by (simp add: total_received_def)
    show ?thesis
      unfolding tb_set_m_stats_def trylock_stat_def
      by (simp add: wp_rules del: not_None_eq, rule wp_mono [OF m_stats_loop [OF sl assms(3)]])
        (use assms(2) same in \<open>auto simp: wp_rules publish_stats_def unlock_stat_def zero_session_stats_def
          average_session_stats_def split: option.splits\<close>)
  qed
  then show ?thesis by (auto simp: wp_def split: result.splits)
qed


text \<open>New statistics are handed to the monitor once. After a collection the reader gets the bytes
  transferred so far, the status of the listener and the time; when it asks again with no
  collection in between it waits, with the lock released for whoever collects next.\<close>

theorem stats_read_once:
  fixes s :: "('w, 'z) tb_state_scheme" and E :: "('w, 'e) env_scheme"
  assumes "st_stat_time (l_stats (lst s)) \<noteq> None" and "st_other_info (l_stats (lst s)) \<noteq> None"
    and "l_status (lst s) \<noteq> TB_ABORTING" and "l_status (lst s) \<noteq> TB_EXITING"
    and "l_e_type (lst s) = SERVER \<Longrightarrow> \<exists>p r. l_curr_session (lst s) = Some p \<and> sess s p = Some r"
    and "in_int (st_id (l_stats (lst s)) + 1)" and "in_int (st_id (l_stats (lst s)) + 2)"
  shows "\<exists>s1 st s2 s3. tb_set_l_stats E s = Ok () s1 \<and> tb_ex_get_stat_cpy E s1 = Ok st s2 \<and>
    st_current_read st = l_total_tx_rx (lst s) \<and> l_read (lst s2) = 1 \<and> \<not> l_stat_lock (lst s2) \<and>
    map_option i_l_status (st_other_info st) = Some (STATUS_val (l_status (lst s))) \<and>
    tb_ex_get_stat_cpy E s2 = Halt Blocked s3 \<and> \<not> l_stat_lock (lst s3)"
proof -
  define P where "P st s2 \<longleftrightarrow> st_current_read st = l_total_tx_rx (lst s) \<and> l_read (lst s2) = 1 \<and> \<not> l_stat_lock (lst s2) \<and>
      map_option i_l_status (st_other_info st) = Some (STATUS_val (l_status (lst s))) \<and>
      wp (tb_ex_get_stat_cpy E) (\<lambda>_ _. False) (\<lambda>h s3. h = Blocked \<and> \<not> l_stat_lock (lst s3)) s2"
    for st :: tb_prot_stats_t and s2 :: "('w, 'z) tb_state_scheme"
  obtain i where i: "st_other_info (l_stats (lst s)) = Some i" using assms(2) by blast
  have pub: "wp publish_stats (\<lambda>_. wp (cseq []) (\<lambda>_. wp (tb_ex_get_stat_cpy E) P (\<lambda>_ _. False)) (\<lambda>_ _. False)) (\<lambda>_ _. False) t"
    if t: "l_status (lst t) = l_status (lst s)" "st_other_info (l_stats (lst t)) = Some i"
      "st_current_read (l_stats (lst t)) = l_total_tx_rx (lst s)" "st_stat_time (l_stats (lst t)) \<noteq> None"
      "in_int (st_id (l_stats (lst t)) + 1)" for t :: "('w, 'z) tb_state_scheme"
    by (rule wp_publish_stats [OF t(2)], simp only: wp_cseq_Nil, rule wp_mono [OF read_once]) (use assms t in \<open>auto simp: P_def\<close>)
  have "wp (tb_set_l_stats E) (\<lambda>_. wp (tb_ex_get_stat_cpy E) P (\<lambda>_ _. False)) (\<lambda>_ _. False) s"
    unfolding tb_set_l_stats_def trylock_stat_def
    using assms i
    by (auto simp: wp_rules load_session_def stats_frame_def add.assoc intro!: pub wp_tb_get_stats split: option.splits)
  then show ?thesis unfolding wp_returns wp_halts P_def by (metis (full_types) old.unit.exhaust)
qed

definition fatal :: "funct_error \<Rightarrow> int \<Rightarrow> bool" where
  "fatal f e \<longleftrightarrow> (case f of Fn_tb_udt_error \<Rightarrow> False | Fn_tb_utp_error_handle \<Rightarrow> True
     | Fn_tb_dccp_error \<Rightarrow> e \<noteq> EAGAIN | Fn_tb_socket_error \<Rightarrow> True)"

text \<open>C35: a receive is counted by what it returned. Bytes received are in the buffer of the session and
  in both totals; an error the protocol does not tolerate ends the thread. But one it does
  tolerate, like EAGAIN for DCCP, is counted too: both totals go down by 1.\<close>

theorem recv_step_accounts:
  fixes s :: "('w, 'z) tb_state_scheme" and E :: "('w, 'e) env_scheme"
  assumes "sess s p = Some r" and "f_recv (l_protocol (lst s)) = Some Fn_recv"
    and "f_error (l_protocol (lst s)) = Some f" and "f_close (l_protocol (lst s)) \<noteq> None" and "l_f_abort (lst s) \<noteq> None"
    and "sys E (Posix (Recv (s_sock_d r) (s_data_size r))) (world s) = (a, w)" and "in_int (a_rc a)"
  shows "if a_rc a = - 1 \<and> fatal f (a_errno a)
    then \<exists>h s'. stream_recv_step E p s = Halt h s' \<and> ends_by_abort h s'
    else \<exists>s' r'. stream_recv_step E p s = Ok () s' \<and> sess s' p = Some r' \<and>
      s_data r' = map_option (overwrite (a_bytes a)) (s_data r) \<and>
      s_total_bytes r' = s_total_bytes r + a_rc a \<and> l_total_tx_rx (lst s') = l_total_tx_rx (lst s) + a_rc a"
proof -
  have "wp (stream_recv_step E p) (\<lambda>_ s'. \<not> (a_rc a = - 1 \<and> fatal f (a_errno a)) \<and> (\<exists>r'. sess s' p = Some r' \<and>
      s_data r' = map_option (overwrite (a_bytes a)) (s_data r) \<and>
      s_total_bytes r' = s_total_bytes r + a_rc a \<and> l_total_tx_rx (lst s') = l_total_tx_rx (lst s) + a_rc a))
    (\<lambda>h s'. a_rc a = - 1 \<and> fatal f (a_errno a) \<and> ends_by_abort h s') s"
    using assms
    by (cases f) (auto simp: stream_recv_step_def tb_recv_data_def wp_rules Let_def fatal_def to_int_id
        tb_socket_error_def tb_udt_error_def tb_dccp_error_def tb_utp_error_handle_def intro!: wp_call_f_abort)
  then show ?thesis by (auto simp: wp_def split: result.splits)
qed

end
