(* ===== verification/TB_Log_Test.thy ===== *)
theory TB_Log_Test
  imports TB_Logging
begin

text \<open>
  The test of the log (\<open>src/log_test/log_test.c\<close>): the program that opens both kinds of log, writes
  a message of each type to each and asserts that all of it works.
\<close>

definition log_test_writes :: "('w, 'e) env_scheme \<Rightarrow> tb_log_t option \<Rightarrow> (('w, 'z) machine_scheme, unit) prog" where
  "log_test_writes E lg =
     cseq [cassert (lg \<noteq> None),
           cbind (tb_write_log E lg ''Test log info'' LOG_INFO) (\<lambda>rc. cassert (rc = 0)),
           cbind (tb_write_log E lg ''Test log ack'' LOG_ACK) (\<lambda>rc. cassert (rc = 0)),
           cbind (tb_write_log E lg ''Test log err'' LOG_ERR) (\<lambda>rc. cassert (rc = 0))]"

text \<open>\<open>m1\<close> and \<open>m2\<close> are what the memory of the two logs held. The second log is not closed.\<close>

definition log_test_main :: "('w, 'e) env_scheme \<Rightarrow> tb_log_t \<Rightarrow> tb_log_t \<Rightarrow> (('w, 'z) machine_scheme, int) prog" where
  "log_test_main E m1 m2 =
     cbind (tb_create_log E m1 ''logfile'') (\<lambda>lg.
     cdo [log_test_writes E lg,
          cbind (cderef Null_Deref lg) (tb_destroy_log E)]
       (cbind (tb_create_flog E m2 ''flogfile'' DATE) (\<lambda>lg.
        cdo [log_test_writes E lg] (cret 0))))"


section \<open>What is written\<close>

fun lines_of :: "(syscall \<times> int) list \<Rightarrow> (int \<times> string) list" where
  "lines_of [] = []"
| "lines_of ((c, r) # tr) = lines_of tr @ (case c of Stdio (Fputs f l) \<Rightarrow> [(f, l)] | _ \<Rightarrow> [])"

text \<open>Files can be opened, written and flushed.\<close>

definition files_work :: "('w, 'e) env_scheme \<Rightarrow> bool" where
  "files_work E \<longleftrightarrow> (\<forall>c w a w'. sys E c w = (a, w') \<longrightarrow>
     (case c of Stdio (Fopen f m) \<Rightarrow> a_rc a \<noteq> 0 | Stdio (Fputs f l) \<Rightarrow> a_rc a \<noteq> EOF | Stdio (Fflush f) \<Rightarrow> a_rc a \<noteq> EOF
      | _ \<Rightarrow> True))"

lemma files_workD:
  assumes "files_work E"
  shows "sys E (Stdio (Fopen f m)) w = (a, w') \<Longrightarrow> a_rc a \<noteq> 0"
    and "sys E (Stdio (Fputs k l)) w = (a, w') \<Longrightarrow> a_rc a \<noteq> EOF"
    and "sys E (Stdio (Fflush k)) w = (a, w') \<Longrightarrow> a_rc a \<noteq> EOF"
proof -
  note all = assms [unfolded files_work_def, rule_format]
  show "sys E (Stdio (Fopen f m)) w = (a, w') \<Longrightarrow> a_rc a \<noteq> 0" using all [of "Stdio (Fopen f m)"] by simp
  show "sys E (Stdio (Fputs k l)) w = (a, w') \<Longrightarrow> a_rc a \<noteq> EOF" using all [of "Stdio (Fputs k l)"] by simp
  show "sys E (Stdio (Fflush k)) w = (a, w') \<Longrightarrow> a_rc a \<noteq> EOF" using all [of "Stdio (Fflush k)"] by simp
qed

text \<open>A message of some fifty characters is written as a whole line.\<close>

lemma wp_write_line:
  assumes files: "files_work E" and short: "length msg \<le> 56"
    and Q: "\<And>w tr t. length t \<le> 29 \<Longrightarrow> lines_of tr = lines_of (trace s) @ [(log_file l, log_text ty t msg)] \<Longrightarrow>
      Q 0 (s\<lparr>world := w, trace := tr\<rparr>)"
  shows "wp (tb_write_log E (Some l) msg ty) Q R s"
proof -
  have "length (snprintf 30 t) \<le> 29" for t :: string by (simp add: snprintf_def)
  moreover have "snprintf 100 (log_text ty t msg) = log_text ty t msg" if "length t \<le> 29" for t
    using that short by (simp add: snprintf_def length_log_text)
  ultimately show ?thesis
    using files_workD [OF files]
    by (auto simp: tb_write_log_def wp_rules Let_def split: prod.splits intro!: Q)
qed

text \<open>What the test writes to one log.\<close>

definition test_lines :: "int \<Rightarrow> string list \<Rightarrow> (int \<times> string) list" where
  "test_lines f ts = [(f, log_text LOG_INFO (ts ! 0) ''Test log info''), (f, log_text LOG_ACK (ts ! 1) ''Test log ack''),
     (f, log_text LOG_ERR (ts ! 2) ''Test log err'')]"

definition stamps :: "string list \<Rightarrow> bool" where
  "stamps ts \<longleftrightarrow> length ts = 3 \<and> (\<forall>t\<in>set ts. length t \<le> 29)"

lemma wp_log_test_writes:
  assumes files: "files_work E"
    and Q: "\<And>w tr ts. stamps ts \<Longrightarrow> lines_of tr = lines_of (trace s) @ test_lines (log_file l) ts \<Longrightarrow> Q () (s\<lparr>world := w, trace := tr\<rparr>)"
  shows "wp (log_test_writes E (Some l)) Q R s"
proof -
  have "Q () (s\<lparr>world := w, trace := tr\<rparr>)" if "length t1 \<le> 29" "length t2 \<le> 29" "length t3 \<le> 29"
      "lines_of tr = lines_of (trace s) @ test_lines (log_file l) [t1, t2, t3]" for w tr t1 t2 t3
    using that by (intro Q [of "[t1, t2, t3]"]) (auto simp: stamps_def)
  then show ?thesis
    by (auto simp: log_test_writes_def wp_rules test_lines_def intro!: wp_write_line [OF files])
qed


section \<open>Properties\<close>

text \<open>The test of the log passes. When files can be opened, written and flushed, none of its
  assertions fails and it returns 0; it has then written to each of the two logs one whole line
  for each message, in order, with its tag and a time of at most 29 characters, whatever the
  clock and the locale say.\<close>

theorem log_test_passes:
  assumes "files_work E"
  shows "\<exists>s' f1 f2 ts us. log_test_main E m1 m2 s = Ok 0 s' \<and> stamps ts \<and> stamps us \<and>
    lines_of (trace s') = lines_of (trace s) @ test_lines f1 ts @ test_lines f2 us"
proof -
  have "wp (log_test_main E m1 m2) (\<lambda>rc s'. rc = 0 \<and> (\<exists>f1 f2 ts us. stamps ts \<and> stamps us \<and>
      lines_of (trace s') = lines_of (trace s) @ test_lines f1 ts @ test_lines f2 us)) (\<lambda>_ _. False) s"
    using files_workD(1) [OF assms]
    by (auto simp: log_test_main_def tb_create_log_def tb_create_flog_def tb_destroy_log_def wp_rules Let_def
        split: prod.splits intro!: wp_log_test_writes [OF assms]) blast
  then show ?thesis by (auto simp: wp_returns)
qed


end
