(* ===== verification/TB_Demo.thy ===== *)
theory TB_Demo
  imports TB_Stream_Client TB_Stream_M_Server TB_Stream_Sessions TB_Start TB_Stats TB_Log_Test
begin

text \<open>
  The properties at concrete inputs. A small outside world is fixed: a clock that ticks, a
  kernel whose sends take at most three bytes, a peer that sends two bytes four times over and
  then ends its connection. On it the hypotheses of every property hold, and the model runs.
\<close>

section \<open>A world\<close>

definition demo_addr :: sockaddr_storage where
  "demo_addr = \<lparr>ss_family = AF_INET, sin_port = 1, sin_addr = (0, 0, 0, 0), sin6_addr = 0\<rparr>"

definition demo_info :: addrinfo where
  "demo_info = \<lparr>ai_family = AF_INET, ai_socktype = SOCK_STREAM, ai_protocol = 0, ai_addr = demo_addr\<rparr>"

definition demo_answer :: answer where
  "demo_answer = \<lparr>a_rc = 0, a_errno = 0, a_val = 0, a_time = (0, 0), a_bytes = [], a_text = '''',
     a_addr = demo_info, a_peer = demo_addr,
     a_tcp = \<lparr>tcpi_rtt = 10, tcpi_rttvar = 1, tcpi_snd_cwnd = 10, tcpi_lost = 0\<rparr>,
     a_perf = \<lparr>msRTT = 1, mbpsRecvRate = 1, mbpsSendRate = 1, pktFlowWindow = 1, pktSndLoss = 0, pktRcvLoss = 0\<rparr>,
     a_events = [], a_callbacks = []\<rparr>"

text \<open>The world is the number of calls so far that matter: readings of the clock and receives.\<close>

fun demo_sys :: "syscall \<Rightarrow> nat \<Rightarrow> answer \<times> nat" where
  "demo_sys (Posix (Clock_gettime c)) w = (demo_answer\<lparr>a_time := (int w, 5)\<rparr>, Suc w)"
| "demo_sys (Posix (Send fd bs)) w = (demo_answer\<lparr>a_rc := int (min 3 (length bs))\<rparr>, w)"
| "demo_sys (Udt (Udt_send fd bs)) w = (demo_answer\<lparr>a_rc := int (min 3 (length bs))\<rparr>, w)"
| "demo_sys (Posix (Recv fd n)) w =
     (if w < 4 \<and> 2 \<le> n then demo_answer\<lparr>a_rc := 2, a_bytes := [7, 8]\<rparr> else demo_answer, Suc w)"
| "demo_sys (Posix (Accept fd)) w = (demo_answer\<lparr>a_rc := 4\<rparr>, w)"
| "demo_sys (Posix (Epoll_wait e n t)) w = (demo_answer\<lparr>a_rc := 2, a_events := [EPOLLIN, EPOLLHUP]\<rparr>, w)"
| "demo_sys (Stdio (Malloc n)) w = (demo_answer\<lparr>a_rc := 1\<rparr>, w)"
| "demo_sys (Stdio (Fopen f m)) w = (demo_answer\<lparr>a_rc := 3\<rparr>, w)"
| "demo_sys c w = (demo_answer, w)"

definition demo_time :: tb_time_t where
  "demo_time = \<lparr>t_clk_id = CLOCK_MONOTONIC, t_start = (0, 0), t_finish = (0, 0), t_started = 0, t_stopped = 0, t_n_sec = 0\<rparr>"

definition demo_session :: tb_session_t where
  "demo_session = \<lparr>s_id = 0, s_address = None, s_port = None, s_addr_in = None, s_addr_len = 0,
     s_addr_info = None, s_addr_hints = None, s_sock_d = - 1, s_pack_size = 0, s_file_name = None,
     s_data = None, s_data_size = 0, s_int_data = 0, s_last_trans = 0, s_total_bytes = 0, s_stats = None,
     s_status = SESSION_CREATED, s_l_status = None, s_l_txrx = None, s_thread = None, s_stat_lock = False,
     s_n_session = None, s_transfer_t = None, s_connect_t = None, s_log_enabled = 0, s_log_info = None,
     s_info = None, s_other_info = None\<rparr>"

definition demo_protocol :: tb_protocol_t where
  "demo_protocol = \<lparr>p_protocol = TCP, p_type = SOCK_STREAM, p_error_no = - 1, p_eot = 0, p_sock_flags = 0,
     p_prot_opts = USE_BLOCKING, f_sock = Some Fn_socket, f_bind = Some Fn_bind, f_connect = Some Fn_connect,
     f_send = Some Fn_send, f_recv = Some Fn_recv, f_listen = Some Fn_listen, f_accept = Some Fn_accept,
     f_close = Some Fn_close, f_exit = None, f_recfrom = None, f_sendto = None,
     f_error = Some Fn_tb_socket_error, f_opt = None, f_setup = None, f_ep_event = None\<rparr>"

definition demo_options :: tb_options_t where
  "demo_options = \<lparr>o_protocol = UDT, o_l4_r_b_size = 0, o_l4_s_b_size = 0, o_l3_r_b_size = 0,
     o_l3_s_b_size = 0, o_control = UDP_NONE\<rparr>"

definition demo_log :: tb_log_t where
  "demo_log = \<lparr>log_file = 3, log_file_path = '''', log_file_len = 0\<rparr>"

definition demo_epoll :: tb_epoll_t where
  "demo_epoll = \<lparr>ep_e_id = 5, ep_w_time = - 1, ep_max_events = 2, ep_sock_d = 3, ep_grp_events = 0,
     ep_grp_data = \<lparr>ed_fd = 3\<rparr>, ep_events = [0, 0], ep_f_event = Some Fn_tb_stream_event\<rparr>"

definition demo_stats :: tb_prot_stats_t where
  "demo_stats = tb_create_stats\<lparr>st_stat_time := Some demo_time,
     st_other_info := Some \<lparr>i_l_status = 0, i_sys_tid = - 1, i_cpu_affinity = 0\<rparr>\<rparr>"

definition demo_list :: tb_session_list_t where
  "demo_list = \<lparr>sl_current_max_id = - 1, sl_num_sessions = 0, sl_start = None, sl_end = None,
     sl_num_active_conn = 0, sl_nac_lock = False, sl_userdata = None\<rparr>"

text \<open>A listener, as a client that has seven bytes to send, two at a time.\<close>

definition demo_data :: "byte list" where
  "demo_data = [1, 2, 3, 4, 5, 6, 7]"

definition demo_listener :: tb_listener_t where
  "demo_listener = \<lparr>l_prot_id = TCP, l_thread = Thread_Block, l_sys_tid = - 1, l_stat_lock = False,
     l_status_lock = False, l_num_proc = 1, l_cpu_affinity = 0, l_main_cpu_aff = 0, l_e_type = CLIENT,
     l_bind_address = '''', l_bind_port = '''', l_bufsize = 2, l_protocol = demo_protocol,
     l_sock_d = 3, l_options = demo_options, l_addr_info = Some demo_info, l_file_size = 7, l_fp = None,
     l_filename = None, l_data = Some demo_data, l_num_send = 1, l_total_tx_rx = 0,
     l_transfer_time = demo_time, l_connect_time = demo_time, l_stats = demo_stats, l_read = 0,
     l_monitor = 1, l_print_stats = 1, l_status = TB_CREATED, l_command = TB_CONTINUE, l_s_tx_end = TB_EXIT,
     l_d_exit = 1, l_log_enabled = 0, l_log_info = Some demo_log, l_curr_session = None, l_epoll = None,
     l_session_list = demo_list, l_f_exit = Some Fn_tb_exit, l_f_abort = Some Fn_tb_abort\<rparr>"

definition demo_env :: "nat lenv" where
  "demo_env = \<lparr>sys = demo_sys, sigint = (\<lambda>w. (False, w)), mem_session = demo_session, mem_time = demo_time,
     mem_addr = demo_addr, mem_listener = demo_listener, mem_protocol = demo_protocol,
     mem_options = demo_options, mem_log = demo_log, mem_epoll = demo_epoll, mem_cpu_affinity = 0,
     ntop6 = (\<lambda>_. '''')\<rparr>"

definition demo_state :: "nat tb_state" where
  "demo_state = \<lparr>world = 0, trace = [], sess = (\<lambda>_. None), sstats = (\<lambda>_. None), brk = 8, lst = demo_listener\<rparr>"

lemmas demo_defs = demo_env_def demo_state_def demo_listener_def demo_protocol_def demo_stats_def demo_data_def
  demo_list_def demo_time_def

fun returns :: "('s, 'a) result \<Rightarrow> 'a option" where
  "returns (Ok x s) = Some x"
| "returns (Halt h s) = None"


text \<open>When the model is run, what a map is updated with is evaluated at once, not at every look-up.\<close>

definition upd_at :: "('a \<Rightarrow> 'b) \<Rightarrow> 'a \<Rightarrow> 'b \<Rightarrow> 'a \<Rightarrow> 'b" where
  "upd_at f a b x = (if x = a then b else f x)"

lemma fun_upd_upd_at [code]: "fun_upd f a b = upd_at f a b"
  by (rule ext) (simp add: upd_at_def)


section \<open>The kernel of this world keeps its promises\<close>

lemma demo_send_contract: "send_contract demo_env"
  by (auto simp: send_contract_def demo_env_def demo_answer_def Let_def neq_Nil_conv)

lemma demo_peer_ends: "peer_ends demo_env (\<lambda>w. 4 - w)"
proof -
  have "4 - snd (demo_sys c w) \<le> 4 - w" for c w
    by (induction c w rule: demo_sys.induct) auto
  then show ?thesis
    by (auto simp: peer_ends_def demo_env_def demo_answer_def Let_def)
qed


section \<open>The file transfers\<close>

theorem stream_client_sends_file_witness:
  "\<exists>s'. tb_stream_client demo_env 7 demo_state = Ok 7 s' \<and> sent_on 3 (trace s') = [1, 2, 3, 4, 5, 6, 7] \<and>
     l_status (lst s') = TB_DISCONNECTED"
proof -
  have "returns (tb_stream_client demo_env 7 demo_state) = Some 7" by code_simp
  then have "\<not> (\<exists>h s'. tb_stream_client demo_env 7 demo_state = Halt h s')" by auto
  moreover have "client_ready 3 demo_data demo_state"
    by (simp add: client_ready_def tcp_table_def demo_defs in_int_def)
  ultimately show ?thesis
    using stream_client_sends_file [OF demo_send_contract, of 3 demo_data demo_state 7]
    by (auto simp: demo_defs)
qed

text \<open>A session with the same data, whose thread is about to start.\<close>

definition demo_conn :: tb_session_t where
  "demo_conn = demo_session\<lparr>s_sock_d := 3, s_data := Some demo_data, s_data_size := 7, s_pack_size := 2,
     s_addr_info := Some demo_info, s_connect_t := Some demo_time, s_transfer_t := Some demo_time\<rparr>"

definition demo_conn_state :: "nat tb_state" where
  "demo_conn_state = demo_state\<lparr>sess := [8 \<mapsto> demo_conn]\<rparr>"


definition demo_m_client :: "nat tb_state" where
  "demo_m_client = demo_state\<lparr>lst := demo_listener\<lparr>l_e_type := mCLIENT\<rparr>\<rparr>"

theorem m_client_parts_file_witness:
  "(\<exists>s' ps lost. stream_client_sessions demo_env demo_m_client = Ok 4 s' \<and>
      registered s' (l_session_list (lst s')) ps \<and> length ps = 4 \<and>
      (\<forall>i<4. session_part s' (fst (ps ! i)) = take 1 (drop (1 * i) demo_data)) \<and>
      demo_data = concat (map (\<lambda>(a, b). session_part s' a) ps) @ lost \<and> length lost = 3) \<or>
    (\<exists>h s'. stream_client_sessions demo_env demo_m_client = Halt h s' \<and> ends_by_abort h s')"
proof -
  have len: "length demo_data div 4 = 1" "length demo_data mod 4 = 3" by (simp_all add: demo_data_def)
  have "registered demo_m_client (l_session_list (lst demo_m_client)) []" "heap_ok demo_m_client"
    by (simp_all add: registered_def list_ok_def session_ids_def first_stats_def heap_ok_def demo_m_client_def demo_defs)
  moreover have "tb_create_protocol demo_protocol TCP () = Ok (l_protocol (lst demo_m_client)) ()"
    by (simp add: tb_create_protocol_def cret_def demo_m_client_def demo_defs)
  moreover have "l_data (lst demo_m_client) = Some demo_data"
      "l_file_size (lst demo_m_client) = int (length demo_data)" "in_int (int (length demo_data))"
    by (simp_all add: demo_m_client_def demo_defs in_int_def)
  ultimately show ?thesis
    using m_client_parts_file [of demo_m_client demo_data demo_protocol "()" demo_env] unfolding len by blast
qed

definition demo_server :: "nat tb_state" where
  "demo_server = demo_state\<lparr>world := 2, lst := demo_listener\<lparr>l_e_type := SERVER\<rparr>\<rparr>"

lemma demo_server_run:
  "(case tb_stream_server demo_env 1 7 demo_server of Ok x s \<Rightarrow> (Blocked, - 1) | Halt h s \<Rightarrow> (h, l_total_tx_rx (lst s)))
    = (Undefined Use_After_Free, 2)"
  by code_simp

theorem stream_server_ends_witness:
  "\<exists>s'. tb_stream_server demo_env 1 7 demo_server = Halt (Undefined Use_After_Free) s' \<and>
     l_total_tx_rx (lst s') = 2 \<and> received (trace s') = 2 \<and> l_curr_session (lst s') = None"
proof -
  have "server_ready demo_server"
    by (simp add: server_ready_def tcp_server_table_def demo_server_def demo_defs in_int_def)
  then show ?thesis
    using stream_server_ends [OF demo_peer_ends, of demo_server 1 7] demo_server_run
    by (auto simp: demo_server_def demo_defs ends_by_abort_def split: result.splits)
qed

definition demo_accepted :: tb_session_t where
  "demo_accepted = demo_session\<lparr>s_sock_d := 4, s_data := Some [0, 0], s_pack_size := 2, s_connect_t := Some demo_time,
     s_transfer_t := Some demo_time, s_other_info := Some Ref_session_list\<rparr>"

definition demo_m_server :: "nat tb_state" where
  "demo_m_server = demo_state\<lparr>sess := [8 \<mapsto> demo_accepted, 10 \<mapsto> demo_accepted],
     lst := demo_listener\<lparr>l_session_list := demo_list\<lparr>sl_num_active_conn := 2, sl_userdata := Some Ref_command\<rparr>\<rparr>\<rparr>"


section \<open>Creation and the command line\<close>

definition demo_params :: tb_test_params_t where
  "demo_params = \<lparr>pr_type = CLIENT, pr_protocol = TCP, pr_control = UDP_NONE, pr_address = Some ''h'', pr_port = Some ''1'',
     pr_l4_r_b_size = 0, pr_l4_w_b_size = 0, pr_l3_r_b_size = 0, pr_l3_w_b_size = 0, pr_d_size = 2,
     pr_file_name = None, pr_d_on_exit = 0, pr_monitor = 1, pr_print_stats = 0, pr_log_enable = 0,
     pr_log_path = '''', pr_pack_size = 500\<rparr>"

theorem endpoint_creation_witness:
  "\<exists>s'. tb_create_endpoint demo_env demo_params demo_state = Ok () s' \<and> l_file_size (lst s') = 2048 \<and>
     l_bufsize (lst s') = 500 \<and> l_d_exit (lst s') = 0 \<and> l_f_abort (lst s') = l_f_abort demo_listener"
  using endpoint_creation [of demo_params "''h''" "''1''" demo_env demo_state]
  by (auto simp: demo_params_def demo_defs endpoint_listener_def in_int_def)

theorem mclient_reads_null_witness:
  "\<exists>s'. parse_listener demo_env [''tb'', ''mclient'', ''h'', ''1'', ''tcp'', ''64''] demo_state = Halt (Undefined Null_Deref) s'"
  by (rule mclient_reads_null [where prot = TCP and n = 64])
    (simp_all add: parse_protocol_def scan_int_def is_space_def is_digit_def digits_val_def Let_def in_int_def)


section \<open>Options, logs and clocks\<close>

theorem udt_options_calls_witness:
  "\<exists>o' s'. tb_set_sock_opt demo_env (demo_options\<lparr>o_l3_s_b_size := 77\<rparr>) 3 demo_state = Ok (0, o') s' \<and>
     (\<exists>cs. trace s' = cs @ trace demo_state \<and> fst (hd cs) = Udt (Udt_setsockopt 3 UDP_SNDBUF 1048576))"
proof -
  let ?o = "demo_options\<lparr>o_l3_s_b_size := 77\<rparr>"
  have "\<exists>o' s'. tb_set_sock_opt demo_env ?o 3 demo_state = Ok (0, o') s'"
    by (simp add: tb_set_sock_opt_def tb_set_udt_opts_def demo_options_def demo_defs cbind_def cret_def do_sys_def
        demo_answer_def cdo_def Let_def)
  then obtain o' s' where run: "tb_set_sock_opt demo_env ?o 3 demo_state = Ok (0, o') s'" by blast
  show ?thesis
    using udt_options_calls [OF _ run] run by (fastforce simp: demo_options_def or_default_def)
qed

theorem log_line_written_witness:
  "\<exists>rc s' r. tb_write_log demo_env (Some demo_log) ''up'' LOG_INFO demo_state = Ok rc s' \<and>
     (Stdio (Fputs 3 (log_tag LOG_INFO @ '' [  ] up'' @ [CHR 0x0A])), r) \<in> set (trace s')"
proof -
  have "\<exists>rc s'. tb_write_log demo_env (Some demo_log) ''up'' LOG_INFO demo_state = Ok rc s'"
    by (simp add: tb_write_log_def tb_get_f_time_def Let_def demo_defs cbind_def cret_def do_sys_def demo_answer_def EOF_def)
  then obtain rc s' where run: "tb_write_log demo_env (Some demo_log) ''up'' LOG_INFO demo_state = Ok rc s'" by blast
  have "sys demo_env (Stdio (Strftime ''%c'')) (world demo_state) = (demo_answer, 0)" by (simp add: demo_defs)
  from log_line_written [OF run this] run show ?thesis
    by (fastforce simp: demo_answer_def snprintf_def demo_log_def)
qed


theorem log_test_passes_witness:
  "\<exists>s' f1 f2 ts us. log_test_main demo_env demo_log demo_log demo_state = Ok 0 s' \<and> stamps ts \<and> stamps us \<and>
    lines_of (trace s') = test_lines f1 ts @ test_lines f2 us"
proof -
  have "files_work demo_env"
    by (auto simp: files_work_def demo_env_def demo_answer_def EOF_def split: syscall.splits stdio.splits)
  from log_test_passes [OF this, of demo_log demo_log demo_state] show ?thesis by (simp add: demo_defs)
qed

theorem test_file_is_empty_witness:
  "\<exists>d n' s'. tb_load_test_file demo_env ''f'' 9 demo_state = Ok (d, n') s' \<and> (d = None \<or> d = Some [] \<and> n' = 0)"
  by (rule test_file_is_empty) (simp add: demo_env_def demo_answer_def)

section \<open>Statistics\<close>

theorem get_stats_keeps_accounts_witness:
  "\<exists>st' s'. tb_get_stats demo_env demo_stats 3 demo_state = Ok st' s' \<and> st_id st' = 1 \<and> st_total_bytes st' = 0"
  using get_stats_keeps_accounts [of demo_stats demo_env 3 demo_state]
  by (auto simp: demo_stats_def tb_create_stats_def in_int_def)

theorem stats_read_once_witness:
  "\<exists>s1 st s2 s3. tb_set_l_stats demo_env demo_state = Ok () s1 \<and> tb_ex_get_stat_cpy demo_env s1 = Ok st s2 \<and>
    st_current_read st = 0 \<and> tb_ex_get_stat_cpy demo_env s2 = Halt Blocked s3"
  using stats_read_once [of demo_state demo_env]
  by (auto simp: demo_defs tb_create_stats_def in_int_def)

definition demo_recv :: tb_session_t where
  "demo_recv = demo_session\<lparr>s_data := Some [0, 0, 0, 0], s_data_size := 4, s_sock_d := 4, s_total_bytes := 5\<rparr>"

theorem recv_step_accounts_witness:
  "\<exists>s' r'. stream_recv_step demo_env 8 (demo_state\<lparr>sess := [8 \<mapsto> demo_recv]\<rparr>) = Ok () s' \<and> sess s' 8 = Some r' \<and>
     s_data r' = Some [7, 8, 0, 0] \<and> s_total_bytes r' = 7 \<and> l_total_tx_rx (lst s') = 2"
  using recv_step_accounts [of "demo_state\<lparr>sess := [8 \<mapsto> demo_recv]\<rparr>" 8 demo_recv Fn_tb_socket_error demo_env
      "demo_answer\<lparr>a_rc := 2, a_bytes := [7, 8]\<rparr>" 1]
  by (simp add: demo_defs demo_recv_def demo_session_def demo_answer_def in_int_def overwrite_def)

section \<open>The list of sessions\<close>

text \<open>One session on the list, and one that is not on it yet.\<close>

definition demo_sessions :: "nat tb_state" where
  "demo_sessions = demo_state\<lparr>sess := [8 \<mapsto> demo_recv\<lparr>s_stats := Some 9\<rparr>, 10 \<mapsto> demo_session\<lparr>s_stats := Some 11\<rparr>],
     sstats := [9 \<mapsto> tb_create_stats, 11 \<mapsto> tb_create_stats],
     lst := demo_listener\<lparr>l_session_list := demo_list\<lparr>sl_current_max_id := 0, sl_num_sessions := 1,
       sl_start := Some 8, sl_end := Some 8\<rparr>\<rparr>\<rparr>"

lemma demo_registered: "registered demo_sessions (l_session_list (lst demo_sessions)) [(8, 9)]"
  by (simp add: registered_def list_ok_def session_ids_def first_stats_def demo_sessions_def demo_recv_def
      demo_session_def demo_list_def tb_create_stats_def)

theorem session_add_appends_witness:
  "\<exists>l' s'. tb_session_add (l_session_list (lst demo_sessions)) (Some 10) demo_sessions = Ok l' s' \<and>
     registered s' l' [(8, 9), (10, 11)]"
proof -
  have "fresh_session demo_sessions [(8, 9)] 10 11"
    by (simp add: fresh_session_def demo_sessions_def demo_session_def tb_create_stats_def)
  from session_add_appends [OF demo_registered this] show ?thesis by (auto simp: in_int_def)
qed

theorem session_search_finds_witness:
  "tb_session_list_search 1 (l_session_list (lst demo_sessions)) 0 demo_sessions = Ok (Some 8) demo_sessions"
  using session_search_finds [OF demo_registered, of 1 0] by simp

theorem session_full_creation_witness:
  "\<exists>q s'. tb_create_session_full demo_env ''h'' ''1'' SOCK_STREAM 4 demo_state = Ok q s' \<and>
     (\<forall>c. c = 3 \<longrightarrow> sess s' c = None)"
  using session_full_creation [of SOCK_STREAM demo_env "''h''" "''1''" 4 demo_state]
  by (fastforce simp: SOCK_STREAM_def demo_state_def)

theorem m_stats_total_witness:
  "(\<exists>s'. tb_set_m_stats demo_env 1 demo_sessions = Ok () s' \<and> l_total_tx_rx (lst s') = 5 \<and> l_read (lst s') = 0) \<or>
   (\<exists>s'. tb_set_m_stats demo_env 1 demo_sessions = Halt (Undefined Signed_Overflow) s')"
proof -
  have "list_ok demo_sessions (l_session_list (lst demo_sessions)) [(8, 9)]"
    using demo_registered by (simp add: registered_def)
  moreover have "total_received demo_sessions [(8, 9)] = 5"
    by (simp add: total_received_def demo_sessions_def demo_recv_def)
  moreover have "st_other_info (l_stats (lst demo_sessions)) \<noteq> None"
    by (simp add: demo_sessions_def demo_listener_def demo_stats_def)
  ultimately show ?thesis using m_stats_total [of demo_sessions "[(8, 9)]" 1 demo_env] by auto
qed

section \<open>Events\<close>

theorem poll_dispatches_witness:
  "\<exists>s'. tb_poll_for_events demo_env (\<lambda>f e d. cret 0) demo_epoll demo_state =
     Ok (1, demo_epoll\<lparr>ep_events := [EPOLLIN, EPOLLHUP]\<rparr>) s'"
  using poll_dispatches [of demo_epoll Fn_tb_stream_event demo_env demo_state
      "demo_answer\<lparr>a_rc := 2, a_events := [EPOLLIN, EPOLLHUP]\<rparr>" 0 "\<lambda>f e d. cret 0"]
  by (simp add: demo_epoll_def demo_defs demo_answer_def overwrite_def poll_verdict_def readable_def EPOLLIN_def
      EPOLLHUP_def cdo_def cbind_def cret_def cvoid_def cseq.simps)

end
