(* ===== verification/TB_Handshake.thy ===== *)
theory TB_Handshake
  imports TB_Testbed TB_Try_Lock "HOL-Library.Sublist"
begin

text \<open>
  The statistics of a test under concurrency. The main thread collects them every tenth of a
  second (\<open>tb_monitor\<close> in \<open>src/src/tb_testbed.c\<close>, \<open>tb_set_l_stats\<close> in \<open>src/src/tb_listener.c\<close>),
  the thread of the transfer changes the listener, and other threads read the statistics
  (\<open>tb_ex_get_stat_cpy\<close>) and wait for new ones on a condition variable. The endpoint is one of a
  single connection; those of several collect with \<open>tb_set_m_stats\<close> under the same lock. Here each of these
  functions is the sequence of its statements, every one of which runs on the state of the
  sequential model and may be interleaved with those of the other threads.
\<close>

section \<open>The statements of the collector, the monitor and the reader\<close>

datatype collect_pc = C_Lock | C_Count | C_Sample | C_Info | C_New | C_Signal | C_Unlock

fun collect_op :: "('w, 'e) env_scheme \<Rightarrow> collect_pc \<Rightarrow> (('w, 'z) tb_state_scheme, unit) prog" where
  "collect_op E C_Lock = trylock_stat"
| "collect_op E C_Count = set_l (\<lambda>l. l\<lparr>l_stats := (l_stats l)\<lparr>st_current_read := l_total_tx_rx l\<rparr>\<rparr>)"
| "collect_op E C_Sample = cbind (cget lst) (\<lambda>l.
     cwhen (l_status l = TB_CONNECTED)
       (cbind (if l_e_type l = SERVER
               then cbind (load_session (l_curr_session l)) (\<lambda>r. cret (s_sock_d r))
               else cret (l_sock_d l)) (\<lambda>fd.
        cbind (tb_get_stats E (l_stats l) fd) (\<lambda>st. set_l (\<lambda>l. l\<lparr>l_stats := st\<rparr>)))))"
| "collect_op E C_Info = cbind (cget lst) (\<lambda>l.
     cbind (cderef Null_Deref (st_other_info (l_stats l))) (\<lambda>info.
     set_l (\<lambda>l'. l'\<lparr>l_stats := (l_stats l')\<lparr>st_other_info :=
       Some (info\<lparr>i_l_status := STATUS_val (l_status l), i_sys_tid := l_sys_tid l\<rparr>)\<rparr>\<rparr>)))"
| "collect_op E C_New = set_l (\<lambda>l. l\<lparr>l_read := 0\<rparr>)"
| "collect_op E C_Signal = cret ()"
| "collect_op E C_Unlock = unlock_stat"

fun collect_next :: "collect_pc \<Rightarrow> collect_pc option" where
  "collect_next C_Lock = Some C_Count"
| "collect_next C_Count = Some C_Sample"
| "collect_next C_Sample = Some C_Info"
| "collect_next C_Info = Some C_New"
| "collect_next C_New = Some C_Signal"
| "collect_next C_Signal = Some C_Unlock"
| "collect_next C_Unlock = None"

text \<open>What the monitor makes of a collection, without the lock. Its locals are \<open>prev_bytes\<close> and \<open>peak_bytes\<close>.\<close>

datatype rate_pc = P_Rate | P_Total | P_Average | P_Scale | P_Peak

fun rate_op :: "rate_pc \<Rightarrow> tb_prot_stats_t \<times> int \<times> int \<Rightarrow> ('s, tb_prot_stats_t \<times> int \<times> int) prog" where
  "rate_op P_Rate (st, prev, peak) =
     cret (st\<lparr>st_byte_sec := to_int (st_current_read st - prev)\<rparr>, to_int (st_current_read st), peak)"
| "rate_op P_Total (st, prev, peak) =
     cret (st\<lparr>st_total_bytes := st_total_bytes st + st_byte_sec st, st_num_m_seconds := st_num_m_seconds st + 1\<rparr>, prev, peak)"
| "rate_op P_Average (st, prev, peak) =
     cret (st\<lparr>st_av_byte_sec := of_int (st_total_bytes st) / of_int (st_num_m_seconds st)\<rparr>, prev, peak)"
| "rate_op P_Scale (st, prev, peak) = cbind (cint (st_byte_sec st * 10)) (\<lambda>rate.
     cret (st\<lparr>st_byte_sec := rate, st_av_byte_sec := st_av_byte_sec st * 10\<rparr>, prev, peak))"
| "rate_op P_Peak (st, prev, peak) =
     cret (if peak < st_byte_sec st then (st\<lparr>st_peak_byte_sec := st_byte_sec st\<rparr>, prev, st_byte_sec st) else (st, prev, peak))"

fun rate_next :: "rate_pc \<Rightarrow> rate_pc option" where
  "rate_next P_Rate = Some P_Total"
| "rate_next P_Total = Some P_Average"
| "rate_next P_Average = Some P_Scale"
| "rate_next P_Scale = Some P_Peak"
| "rate_next P_Peak = None"

text \<open>
  A reader is outside, about to test whether the statistics are new, about to wait, waiting, woken and about to
  take the lock again, or on its way from the test to the copy.
\<close>

datatype reader_pc = R_Out | R_Test | R_Sleep | R_Waiting | R_Woken | R_Time | R_Number | R_Mark | R_Copy | R_Unlock

fun reader_op :: "('w, 'e) env_scheme \<Rightarrow> reader_pc \<Rightarrow> (('w, 'z) tb_state_scheme, unit) prog" where
  "reader_op E R_Time = cbind (cget lst) (\<lambda>l.
     cbind (cderef Null_Deref (st_stat_time (l_stats l))) (\<lambda>t.
     cbind (if t_started t = 0 then tb_start_time E t else tb_finish_time E t) (\<lambda>t'.
     set_l (\<lambda>l. l\<lparr>l_stats := (l_stats l)\<lparr>st_stat_time := Some t'\<rparr>\<rparr>))))"
| "reader_op E R_Number = cbind (cget lst) (\<lambda>l.
     cbind (cint (st_id (l_stats l) + 1)) (\<lambda>i. set_l (\<lambda>l. l\<lparr>l_stats := (l_stats l)\<lparr>st_id := i\<rparr>\<rparr>)))"
| "reader_op E R_Mark = set_l (\<lambda>l. l\<lparr>l_read := 1\<rparr>)"
| "reader_op E R_Unlock = unlock_stat"
| "reader_op E _ = cret ()"

fun reader_next :: "reader_pc \<Rightarrow> reader_pc option" where
  "reader_next R_Time = Some R_Number"
| "reader_next R_Number = Some R_Mark"
| "reader_next R_Mark = Some R_Copy"
| "reader_next R_Copy = Some R_Unlock"
| "reader_next R_Unlock = Some R_Out"
| "reader_next _ = None"

text \<open>The test whether a reader has to wait.\<close>

definition over :: "tb_listener_t \<Rightarrow> bool" where
  "over l \<longleftrightarrow> l_status l = TB_EXITING \<or> l_status l = TB_ABORTING"

definition must_wait :: "tb_listener_t \<Rightarrow> bool" where
  "must_wait l \<longleftrightarrow> l_read l = 1 \<and> \<not> over l"

text \<open>One after the other the statements are the functions of the sequential model.\<close>

lemma publish_ops: "publish_stats = cseq (map (collect_op E) [C_Info, C_New, C_Signal, C_Unlock])"
  by (rule ext) (auto simp: publish_stats_def unlock_stat_def cseq.simps cbind_def cget_def set_l_def cmod_def cret_def
      cderef_def chalt_def split: option.splits)

lemma collect_ops_sequential:
  "tb_set_l_stats E = cseq (map (collect_op E) [C_Lock, C_Count, C_Sample, C_Info, C_New, C_Signal, C_Unlock])"
proof -
  have pub: "cseq [publish_stats] = cseq (map (collect_op E) [C_Info, C_New, C_Signal, C_Unlock])"
    unfolding publish_ops [of E, symmetric] by (rule ext) (simp add: cseq.simps cbind_def cret_def split: result.split)
  show ?thesis
    unfolding list.map cseq.simps(2) [of "collect_op E C_Lock"] cseq.simps(2) [of "collect_op E C_Count"]
      cseq.simps(2) [of "collect_op E C_Sample"] pub [unfolded list.map, symmetric]
    unfolding tb_set_l_stats_def
    by (rule ext) (simp add: cdo_def cseq.simps(2) [of _ "[publish_stats]"] cseq.simps cbind_def cget_def cret_def
        trylock_stat_def set_l_def cmod_def cong: result.case_cong)
qed

lemma rate_ops_sequential:
  "monitor_rates prev peak st s = cbind (rate_op P_Rate (st, prev, peak)) (\<lambda>x. cbind (rate_op P_Total x) (\<lambda>x.
     cbind (rate_op P_Average x) (\<lambda>x. cbind (rate_op P_Scale x) (rate_op P_Peak)))) s"
  by (auto simp: monitor_rates_def Let_def cbind_def cint_def cret_def chalt_def)

lemma reader_ops_sequential:
  "tb_ex_get_stat_cpy E s = Ok st s' \<longleftrightarrow> \<not> must_wait (lst s) \<and>
     cdo (trylock_stat # map (reader_op E) [R_Time, R_Number, R_Mark, R_Copy, R_Unlock]) (cget (\<lambda>s. l_stats (lst s))) s = Ok st s'"
proof (cases "must_wait (lst s)")
  case True
  then show ?thesis
    by (simp add: tb_ex_get_stat_cpy_def read_stats_def must_wait_def over_def trylock_stat_def unlock_stat_def cdo_def
        cseq.simps cbind_def cget_def set_l_def cmod_def chalt_def cret_def)
next
  case False
  then have test: "\<not> (l_read (lst s) = 1 \<and> l_status (lst s) \<noteq> TB_ABORTING \<and> l_status (lst s) \<noteq> TB_EXITING)"
    by (auto simp: must_wait_def over_def)
  show ?thesis
  proof (cases "st_stat_time (l_stats (lst s))")
    case None
    then show ?thesis
      unfolding tb_ex_get_stat_cpy_def read_stats_def
      by (simp add: test False trylock_stat_def cdo_def cseq.simps cbind_def cget_def set_l_def cmod_def chalt_def cret_def cderef_def)
  next
    case (Some t)
    then show ?thesis
      unfolding tb_ex_get_stat_cpy_def read_stats_def
      by (auto simp add: test False trylock_stat_def unlock_stat_def cdo_def cseq.simps cbind_def cget_def set_l_def cmod_def
          chalt_def cret_def cderef_def cint_def tb_start_time_def tb_finish_time_def do_sys_def split: prod.splits)
  qed
qed


section \<open>Steps\<close>

text \<open>
  The main thread is at the top of its loop, has slept, takes one of three kinds of collection,
  works out the rates, or has ended. A collection is followed by the rates when the listener was
  connected before it; the last one follows the loop.
\<close>

datatype sample = Waiting_Sample | Rate_Sample | Final_Sample

datatype main_pc = M_Top | M_Awake | Collecting sample collect_pc | Rating rate_pc | M_Done

fun after_sample :: "sample \<Rightarrow> main_pc" where
  "after_sample Waiting_Sample = M_Top"
| "after_sample Rate_Sample = Rating P_Rate"
| "after_sample Final_Sample = M_Done"

text \<open>
  All threads share the state of the test. \<open>hs_worker\<close> tells whether the thread of the transfer is
  between locking and unlocking. Two lists are history: the collections made, and the copies
  readers have got.
\<close>

record 'w handshake =
  hs_s :: "'w tb_state"
  hs_main :: main_pc
  hs_rates :: "int \<times> int"
  hs_reader :: "nat \<Rightarrow> reader_pc"
  hs_worker :: bool
  hs_made :: "tb_prot_stats_t list"
  hs_copies :: "tb_prot_stats_t list"

abbreviation hs_l :: "'w handshake \<Rightarrow> tb_listener_t" where
  "hs_l s \<equiv> lst (hs_s s)"

text \<open>What happened; a try of the lock says who tried and whether it got it, a signal whom it woke.\<close>

datatype hs_thread = Main_Thread | Transfer_Thread | Reader nat

datatype hs_event = Ev_main | Ev_try hs_thread bool | Ev_signal "nat option" | Ev_reader nat | Ev_spurious nat | Ev_worker

text \<open>
  The thread of the transfer may do anything to the state but change the statistics, whether they
  are new, and the lock; and once it has set the status to exiting or aborting it ends.
\<close>

definition transfer_keeps :: "tb_listener_t \<Rightarrow> tb_listener_t \<Rightarrow> bool" where
  "transfer_keeps l l' \<longleftrightarrow> l_stats l' = l_stats l \<and> l_read l' = l_read l \<and> l_stat_lock l' = l_stat_lock l \<and>
     (over l \<longrightarrow> l_status l' = l_status l)"

inductive hs_step :: "('w, 'e) env_scheme \<Rightarrow> 'w handshake \<Rightarrow> hs_event \<Rightarrow> 'w handshake \<Rightarrow> bool" for E where
  top: "hs_main s = M_Top \<Longrightarrow>
    hs_step E s Ev_main (s\<lparr>hs_main := if over (hs_l s) then Collecting Final_Sample C_Lock else M_Awake\<rparr>)"
| awake: "hs_main s = M_Awake \<Longrightarrow>
    hs_step E s Ev_main (s\<lparr>hs_main :=
      Collecting (if l_status (hs_l s) = TB_CONNECTED then Rate_Sample else Waiting_Sample) C_Lock\<rparr>)"
| lock: "hs_main s = Collecting k C_Lock \<Longrightarrow> collect_op E C_Lock (hs_s s) = Ok () t \<Longrightarrow>
    hs_step E s (Ev_try Main_Thread (\<not> l_stat_lock (hs_l s))) (s\<lparr>hs_s := t, hs_main := Collecting k C_Count\<rparr>)"
| collect: "hs_main s = Collecting k c \<Longrightarrow> c \<noteq> C_Lock \<Longrightarrow> c \<noteq> C_Signal \<Longrightarrow> collect_op E c (hs_s s) = Ok () t \<Longrightarrow>
    hs_step E s Ev_main (s\<lparr>hs_s := t,
      hs_main := (case collect_next c of Some c' \<Rightarrow> Collecting k c' | None \<Rightarrow> after_sample k),
      hs_made := (if c = C_New then hs_made s @ [l_stats (lst t)] else hs_made s)\<rparr>)"
| wake: "hs_main s = Collecting k C_Signal \<Longrightarrow> hs_reader s i = R_Waiting \<Longrightarrow>
    hs_step E s (Ev_signal (Some i)) (s\<lparr>hs_main := Collecting k C_Unlock, hs_reader := (hs_reader s)(i := R_Woken)\<rparr>)"
| wake_none: "hs_main s = Collecting k C_Signal \<Longrightarrow> \<forall>i. hs_reader s i \<noteq> R_Waiting \<Longrightarrow>
    hs_step E s (Ev_signal None) (s\<lparr>hs_main := Collecting k C_Unlock\<rparr>)"
| rates: "hs_main s = Rating m \<Longrightarrow> rate_op m (l_stats (hs_l s), hs_rates s) (hs_s s) = Ok (st, prev, peak) t \<Longrightarrow>
    hs_step E s Ev_main (s\<lparr>hs_s := t\<lparr>lst := (lst t)\<lparr>l_stats := st\<rparr>\<rparr>, hs_rates := (prev, peak),
      hs_main := (case rate_next m of Some m' \<Rightarrow> Rating m' | None \<Rightarrow> M_Top)\<rparr>)"
| enter: "hs_reader s i = R_Out \<Longrightarrow> trylock_stat (hs_s s) = Ok () t \<Longrightarrow>
    hs_step E s (Ev_try (Reader i) (\<not> l_stat_lock (hs_l s))) (s\<lparr>hs_s := t, hs_reader := (hs_reader s)(i := R_Test)\<rparr>)"
| stay: "hs_reader s i = R_Test \<Longrightarrow> must_wait (hs_l s) \<Longrightarrow>
    hs_step E s (Ev_reader i) (s\<lparr>hs_reader := (hs_reader s)(i := R_Sleep)\<rparr>)"
| sleep: "hs_reader s i = R_Sleep \<Longrightarrow> unlock_stat (hs_s s) = Ok () t \<Longrightarrow>
    hs_step E s (Ev_reader i) (s\<lparr>hs_s := t, hs_reader := (hs_reader s)(i := R_Waiting)\<rparr>)"
| go: "hs_reader s i = R_Test \<Longrightarrow> \<not> must_wait (hs_l s) \<Longrightarrow>
    hs_step E s (Ev_reader i) (s\<lparr>hs_reader := (hs_reader s)(i := R_Time)\<rparr>)"
| spurious: "hs_reader s i = R_Waiting \<Longrightarrow> hs_step E s (Ev_spurious i) (s\<lparr>hs_reader := (hs_reader s)(i := R_Woken)\<rparr>)"
| relock: "hs_reader s i = R_Woken \<Longrightarrow> \<not> l_stat_lock (hs_l s) \<Longrightarrow> trylock_stat (hs_s s) = Ok () t \<Longrightarrow>
    hs_step E s (Ev_reader i) (s\<lparr>hs_s := t, hs_reader := (hs_reader s)(i := R_Time)\<rparr>)"
| read: "hs_reader s i = r \<Longrightarrow> reader_next r = Some r' \<Longrightarrow> reader_op E r (hs_s s) = Ok () t \<Longrightarrow>
    hs_step E s (Ev_reader i) (s\<lparr>hs_s := t, hs_reader := (hs_reader s)(i := r'),
      hs_copies := (if r = R_Copy then hs_copies s @ [l_stats (lst t)] else hs_copies s)\<rparr>)"
| worker_lock: "\<not> hs_worker s \<Longrightarrow> trylock_stat (hs_s s) = Ok () t \<Longrightarrow>
    hs_step E s (Ev_try Transfer_Thread (\<not> l_stat_lock (hs_l s))) (s\<lparr>hs_s := t, hs_worker := True\<rparr>)"
| worker_unlock: "hs_worker s \<Longrightarrow> unlock_stat (hs_s s) = Ok () t \<Longrightarrow>
    hs_step E s Ev_worker (s\<lparr>hs_s := t, hs_worker := False\<rparr>)"
| worker: "transfer_keeps (hs_l s) (lst t) \<Longrightarrow> hs_step E s Ev_worker (s\<lparr>hs_s := t\<rparr>)"

abbreviation hs_run :: "('w, 'e) env_scheme \<Rightarrow> 'w handshake \<Rightarrow> hs_event list \<Rightarrow> 'w handshake \<Rightarrow> bool" where
  "hs_run E \<equiv> run (hs_step E)"

text \<open>
  At the start the lock is free and every thread is outside. What the statistics were created
  with counts as the first collection: \<open>l_read\<close> is 0 from the start.
\<close>

definition hs_start :: "'w handshake \<Rightarrow> bool" where
  "hs_start s \<longleftrightarrow> hs_main s = M_Top \<and> (\<forall>i. hs_reader s i = R_Out) \<and> \<not> hs_worker s \<and> \<not> l_stat_lock (hs_l s) \<and>
     l_read (hs_l s) = 0 \<and> hs_made s = [l_stats (hs_l s)] \<and> hs_copies s = []"

text \<open>Runs in which every try gets the lock, in which no reader wakes without a signal, and in which there is one reader.\<close>

fun hs_misses :: "hs_event \<Rightarrow> bool" where
  "hs_misses (Ev_try x got) = (\<not> got)"
| "hs_misses _ = False"

definition lock_held_off :: "hs_event list \<Rightarrow> bool" where
  "lock_held_off es \<longleftrightarrow> (\<forall>e\<in>set es. \<not> hs_misses e)"

definition no_spurious :: "hs_event list \<Rightarrow> bool" where
  "no_spurious es \<longleftrightarrow> (\<forall>i. Ev_spurious i \<notin> set es)"

definition one_reader :: "hs_event list \<Rightarrow> bool" where
  "one_reader es \<longleftrightarrow> (\<forall>i b. Ev_try (Reader i) b \<in> set es \<longrightarrow> i = 0)"


section \<open>What a statement changes\<close>

text \<open>What a collection writes into the statistics: all but the monitor's accounts and the reader's marks.\<close>

definition core :: "tb_prot_stats_t \<Rightarrow> tb_prot_stats_t" where
  "core st = st\<lparr>st_id := 0, st_stat_time := None, st_byte_sec := 0, st_av_byte_sec := 0, st_peak_byte_sec := 0,
     st_num_m_seconds := 0, st_total_bytes := 0\<rparr>"

lemma core_simps [simp]:
  "core (st\<lparr>st_id := i\<rparr>) = core st" "core (st\<lparr>st_stat_time := t\<rparr>) = core st" "core (st\<lparr>st_byte_sec := b\<rparr>) = core st"
  "core (st\<lparr>st_av_byte_sec := a\<rparr>) = core st" "core (st\<lparr>st_peak_byte_sec := b\<rparr>) = core st"
  "core (st\<lparr>st_num_m_seconds := b\<rparr>) = core st" "core (st\<lparr>st_total_bytes := b\<rparr>) = core st"
  by (simp_all add: core_def)

lemma core_read: "core st = core st' \<Longrightarrow> st_current_read st = st_current_read st'"
  by (drule arg_cong [where f = st_current_read]) (simp add: core_def)

lemma lock_ops:
  "trylock_stat s = Ok () t \<Longrightarrow> t = s\<lparr>lst := (lst s)\<lparr>l_stat_lock := True\<rparr>\<rparr>"
  "unlock_stat s = Ok () t \<Longrightarrow> t = s\<lparr>lst := (lst s)\<lparr>l_stat_lock := False\<rparr>\<rparr>"
  by (simp_all add: trylock_stat_def unlock_stat_def set_l_def cmod_def)

definition same_control :: "tb_listener_t \<Rightarrow> tb_listener_t \<Rightarrow> bool" where
  "same_control l l' \<longleftrightarrow> l_status l' = l_status l \<and> l_read l' = l_read l \<and> l_stat_lock l' = l_stat_lock l"

lemma wpD: "wp m Q R s \<Longrightarrow> m s = Ok x t \<Longrightarrow> Q x t"
  by (simp add: wp_def)

lemma wp_get_stats_any:
  assumes "\<And>st' w tr. Q st' (s\<lparr>world := w, trace := tr\<rparr>)"
  shows "wp (tb_get_stats E st fd) Q (\<lambda>_ _. True) s"
proof (cases "in_int (st_id st + 1)")
  case True
  then show ?thesis by (intro wp_tb_get_stats) (simp_all add: assms)
qed (simp add: tb_get_stats_def wp_rules)

lemma collect_op_writes:
  assumes "collect_op E c s = Ok () t" and "c \<in> {C_Count, C_Sample, C_Info}"
  shows "same_control (lst s) (lst t)"
proof -
  have "wp (collect_op E c) (\<lambda>_ t. same_control (lst s) (lst t)) (\<lambda>_ _. True) s"
    using assms(2)
    by (auto simp: wp_rules load_session_def same_control_def split: option.splits intro!: wp_get_stats_any)
  then show ?thesis using assms(1) by (rule wpD)
qed

lemma reader_op_keeps:
  assumes "reader_op E r s = Ok () t" and "reader_next r = Some r'" and "r \<noteq> R_Unlock"
  shows "core (l_stats (lst t)) = core (l_stats (lst s)) \<and>
    same_control ((lst s)\<lparr>l_read := if r = R_Mark then 1 else l_read (lst s)\<rparr>) (lst t)"
proof -
  have "wp (reader_op E r) (\<lambda>_ t. core (l_stats (lst t)) = core (l_stats (lst s)) \<and>
      same_control ((lst s)\<lparr>l_read := if r = R_Mark then 1 else l_read (lst s)\<rparr>) (lst t)) (\<lambda>_ _. True) s"
    using assms(2,3)
    by (cases r) (auto simp: wp_rules same_control_def tb_start_time_def tb_finish_time_def split: option.splits prod.splits)
  then show ?thesis using assms(1) by (rule wpD)
qed

lemma rate_op_keeps:
  assumes "rate_op m (st, rates) s = Ok (st', prev, peak) t"
  shows "t = s \<and> core st' = core st"
  using assms by (cases m; cases rates) (auto simp: cret_def cbind_def cint_def chalt_def split: if_splits)


section \<open>Mutual exclusion\<close>

fun inside :: "reader_pc \<Rightarrow> bool" where
  "inside R_Out = False"
| "inside R_Waiting = False"
| "inside R_Woken = False"
| "inside _ = True"

fun collecting :: "main_pc \<Rightarrow> bool" where
  "collecting (Collecting k c) = (c \<noteq> C_Lock)"
| "collecting _ = False"

text \<open>Who is between its lock and its unlock.\<close>

fun holds :: "'w handshake \<Rightarrow> hs_thread \<Rightarrow> bool" where
  "holds s Main_Thread = collecting (hs_main s)"
| "holds s Transfer_Thread = hs_worker s"
| "holds s (Reader i) = inside (hs_reader s i)"

abbreviation hs_mutex :: "'w handshake \<Rightarrow> bool" where
  "hs_mutex \<equiv> exclusive holds (\<lambda>s. l_stat_lock (hs_l s))"

lemma all_threads: "(\<forall>x. P x) \<longleftrightarrow> P Main_Thread \<and> P Transfer_Thread \<and> (\<forall>i. P (Reader i))"
  by (metis hs_thread.exhaust)

lemma inside_next: "reader_next r = Some r' \<Longrightarrow> inside r \<and> (inside r' \<longleftrightarrow> r \<noteq> R_Unlock)"
  by (cases r) auto

lemma collecting_next: "c \<noteq> C_Lock \<Longrightarrow>
    collecting (case collect_next c of Some c' \<Rightarrow> Collecting k c' | None \<Rightarrow> after_sample k) \<longleftrightarrow> c \<noteq> C_Unlock"
  by (cases c; cases k) auto

lemma not_collecting_rates: "\<not> collecting (case rate_next m of Some m' \<Rightarrow> Rating m' | None \<Rightarrow> M_Top)"
  by (cases m) auto

interpretation hs: try_lock "hs_step E" holds "\<lambda>s. l_stat_lock (hs_l s)" hs_misses for E
proof
  fix s e s' assume step: "hs_step E s e s'" and got: "\<not> hs_misses e"
  from step show "lock_step holds (\<lambda>s. l_stat_lock (hs_l s)) s s'"
  proof cases
    case (lock k t)
    then show ?thesis using got
      by (intro lock_acquires [of _ _ _ _ Main_Thread]) (auto simp: all_threads dest: lock_ops)
  next
    case (collect k c t)
    show ?thesis
    proof (cases "c = C_Unlock")
      case True
      then show ?thesis using collect
        by (intro lock_releases [of _ _ Main_Thread]) (cases k; auto simp: all_threads dest!: lock_ops)+
    next
      case False
      have "l_stat_lock (lst t) = l_stat_lock (hs_l s)"
        using collect False collect_op_writes [OF collect(6)] by (cases c) (auto simp: same_control_def set_l_def cmod_def)
      then show ?thesis using collect False
        by (intro lock_keeps) (auto simp: all_threads collecting_next)
    qed
  next
    case (enter i t)
    then show ?thesis using got
      by (intro lock_acquires [of _ _ _ _ "Reader i"]) (auto simp: all_threads dest: lock_ops)
  next
    case (sleep i t)
    then show ?thesis by (intro lock_releases [of _ _ "Reader i"]) (auto simp: all_threads dest!: lock_ops)
  next
    case (relock i t)
    then show ?thesis
      by (intro lock_acquires [of _ _ _ _ "Reader i"]) (auto simp: all_threads dest: lock_ops)
  next
    case (read i r r' t)
    note nx = inside_next [OF read(4)]
    show ?thesis
    proof (cases "r = R_Unlock")
      case True
      then show ?thesis using read nx by (intro lock_releases [of _ _ "Reader i"]) (auto simp: all_threads dest!: lock_ops)
    next
      case False
      then show ?thesis using read nx reader_op_keeps [OF read(5,4)]
        by (intro lock_keeps) (auto simp: all_threads same_control_def)
    qed
  next
    case (worker_lock t)
    then show ?thesis using got
      by (intro lock_acquires [of _ _ _ _ Transfer_Thread]) (auto simp: all_threads dest: lock_ops)
  next
    case (worker_unlock t)
    then show ?thesis by (intro lock_releases [of _ _ Transfer_Thread]) (auto simp: all_threads dest!: lock_ops)
  next
    case (rates m st prev peak t)
    then show ?thesis using rate_op_keeps [OF rates(4)]
      by (intro lock_keeps) (auto simp: all_threads not_collecting_rates)
  qed (rule lock_keeps; auto simp: all_threads transfer_keeps_def)+
qed

section \<open>What the statistics are, and what has been copied\<close>

text \<open>
  While no collection is being written the statistics are those last collected; and every copy is
  one of the collections.
\<close>

fun writing :: "main_pc \<Rightarrow> bool" where
  "writing (Collecting k c) = (c \<in> {C_Sample, C_Info, C_New})"
| "writing _ = False"

definition hs_whole :: "'w handshake \<Rightarrow> bool" where
  "hs_whole s \<longleftrightarrow> hs_made s \<noteq> [] \<and>
     (\<not> writing (hs_main s) \<longrightarrow> core (l_stats (hs_l s)) = core (last (hs_made s))) \<and>
     (\<forall>x\<in>set (hs_copies s). core x \<in> core ` set (hs_made s))"

lemma writing_collects: "writing m \<Longrightarrow> collecting m"
  by (cases m rule: writing.cases) auto

lemma whole_keeps:
  assumes "hs_whole s" and "core (l_stats (hs_l s')) = core (l_stats (hs_l s))" and "writing (hs_main s') = writing (hs_main s)"
    and "hs_made s' = hs_made s" and "hs_copies s' = hs_copies s"
  shows "hs_whole s'"
  using assms by (simp add: hs_whole_def)

lemma not_writing_next: "\<not> writing (case rate_next m of Some m' \<Rightarrow> Rating m' | None \<Rightarrow> M_Top)"
  by (cases m) auto

lemma writing_next: "writing (case collect_next c of Some c' \<Rightarrow> Collecting k c' | None \<Rightarrow> after_sample k) \<longleftrightarrow>
    c \<in> {C_Count, C_Sample, C_Info}"
  by (cases c; cases k) auto

lemma whole_step:
  assumes inv: "hs_whole s" and mutex: "hs_mutex s" and step: "hs_step E s e s'"
  shows "hs_whole s'"
  using step
proof cases
  case (lock k t)
  then show ?thesis by (intro whole_keeps [OF inv]) (auto dest: lock_ops)
next
  case (collect k c t)
  then show ?thesis using inv
    by (cases c) (auto simp: hs_whole_def writing_next set_l_def cmod_def dest: lock_ops)
next
  case (rates m st prev peak t)
  then show ?thesis using rate_op_keeps [OF rates(4)]
    by (intro whole_keeps [OF inv]) (auto simp: not_writing_next)
next
  case (read i r r' t)
  have keep: "core (l_stats (lst t)) = core (l_stats (hs_l s))"
    using read reader_op_keeps [OF read(5,4)] by (cases "r = R_Unlock") (auto dest: lock_ops)
  have "\<not> writing (hs_main s)" if "r = R_Copy"
    using exclusiveD(2) [OF mutex, of "Reader i" Main_Thread] writing_collects [of "hs_main s"] read(3) that by auto
  then show ?thesis using inv read keep by (auto simp: hs_whole_def)
next
  case (enter i t)
  then show ?thesis by (intro whole_keeps [OF inv]) (auto dest: lock_ops)
next
  case (sleep i t)
  then show ?thesis by (intro whole_keeps [OF inv]) (auto dest: lock_ops)
next
  case (relock i t)
  then show ?thesis by (intro whole_keeps [OF inv]) (auto dest: lock_ops)
next
  case (worker_lock t)
  then show ?thesis by (intro whole_keeps [OF inv]) (auto dest: lock_ops)
next
  case (worker_unlock t)
  then show ?thesis by (intro whole_keeps [OF inv]) (auto dest: lock_ops)
qed (rule whole_keeps [OF inv]; simp add: transfer_keeps_def)+

text \<open>
  One reader: what it has copied is a part of the collections in their order, and does not hold
  the last of them if that is still new, or if the reader is on its way to copy it.
\<close>

definition seen :: "tb_prot_stats_t list \<Rightarrow> tb_prot_stats_t list \<Rightarrow> bool" where
  "seen copies made \<longleftrightarrow> subseq (map core copies) (map core made)"

fun to_copy :: "reader_pc \<Rightarrow> bool" where
  "to_copy r = (r \<in> {R_Woken, R_Time, R_Number, R_Mark, R_Copy})"

definition hs_fresh :: "'w handshake \<Rightarrow> bool" where
  "hs_fresh s \<longleftrightarrow> (\<forall>i. 0 < i \<longrightarrow> hs_reader s i = R_Out) \<and> seen (hs_copies s) (hs_made s) \<and>
     (to_copy (hs_reader s 0) \<or> hs_reader s 0 \<noteq> R_Unlock \<and> l_read (hs_l s) \<noteq> 1 \<longrightarrow> seen (hs_copies s) (butlast (hs_made s))) \<and>
     (hs_reader s 0 \<in> {R_Copy, R_Unlock} \<longrightarrow> l_read (hs_l s) = 1) \<and>
     (\<forall>k. hs_main s = Collecting k C_Signal \<longrightarrow> l_read (hs_l s) \<noteq> 1)"

lemma seen_more: "seen a b \<Longrightarrow> seen a (b @ [x])"
  by (simp add: seen_def list_emb_prefix)

lemma seen_copy:
  assumes "seen a (butlast b)" and "b \<noteq> []" and "core x = core (last b)"
  shows "seen (a @ [x]) b"
proof -
  have "map core b = map core (butlast b) @ [core (last b)]"
    using assms(2) by (metis append_butlast_last_id list.simps(8,9) map_append)
  then show ?thesis using assms(1,3) by (simp add: seen_def)
qed

lemma fresh_keeps:
  assumes "hs_fresh s" and "l_read (hs_l s') = l_read (hs_l s)" and "hs_reader s' = hs_reader s"
    and "hs_made s' = hs_made s" and "hs_copies s' = hs_copies s"
    and "\<And>k. hs_main s' = Collecting k C_Signal \<Longrightarrow> hs_main s = Collecting k C_Signal"
  shows "hs_fresh s'"
  using assms unfolding hs_fresh_def by simp

lemma fresh_reader: "hs_fresh s \<Longrightarrow> hs_reader s i \<noteq> R_Out \<Longrightarrow> i = 0"
  by (auto simp: hs_fresh_def)

lemma collect_next_signal:
  "(case collect_next c of Some c' \<Rightarrow> Collecting k c' | None \<Rightarrow> after_sample k) = Collecting k' C_Signal \<longleftrightarrow> k' = k \<and> c = C_New"
  by (cases c; cases k) auto

lemma rate_next_signal: "(case rate_next m of Some m' \<Rightarrow> Rating m' | None \<Rightarrow> M_Top) \<noteq> Collecting k C_Signal"
  by (cases m) auto

lemma collect_reads:
  assumes "collect_op E c s = Ok () t" and "c \<noteq> C_New"
  shows "l_read (lst t) = l_read (lst s)"
  using assms collect_op_writes [OF assms(1)] by (cases c) (auto simp: same_control_def cret_def dest!: lock_ops)

lemma fresh_step:
  assumes inv: "hs_fresh s" and mutex: "hs_mutex s" and whole: "hs_whole s" and step: "hs_step E s e s'"
    and going: "\<not> over (hs_l s)" and wakes: "\<forall>i. e \<noteq> Ev_spurious i" and one: "\<forall>i b. e = Ev_try (Reader i) b \<longrightarrow> i = 0"
  shows "hs_fresh s'"
  using step
proof cases
  case (lock k t)
  then show ?thesis by (intro fresh_keeps [OF inv]) (auto dest: lock_ops)
next
  case (collect k c t)
  show ?thesis
  proof (cases "c = C_New")
    case True
    have "\<not> inside (hs_reader s 0)"
      using exclusiveD(2) [OF mutex, of "Reader 0" Main_Thread] collect(3) True by auto
    then have "hs_reader s 0 \<notin> {R_Copy, R_Unlock}" by auto
    then show ?thesis using inv collect True by (auto simp: hs_fresh_def set_l_def cmod_def seen_more)
  next
    case False
    then show ?thesis using collect collect_reads [OF collect(6)]
      by (intro fresh_keeps [OF inv]) (simp_all add: collect_next_signal)
  qed
next
  case (wake k i)
  then have "i = 0" using fresh_reader [OF inv, of i] by simp
  then show ?thesis using inv wake by (auto simp: hs_fresh_def)
next
  case (rates m st prev peak t)
  then show ?thesis using rate_op_keeps [OF rates(4)]
    by (intro fresh_keeps [OF inv]) (simp_all add: rate_next_signal)
next
  case (enter i t)
  then have "i = 0" using one by blast
  then show ?thesis using inv enter by (auto simp: hs_fresh_def dest!: lock_ops)
next
  case (sleep i t)
  then have "i = 0" using fresh_reader [OF inv, of i] by simp
  then show ?thesis using inv sleep by (auto simp: hs_fresh_def dest!: lock_ops)
next
  case (stay i)
  then have "i = 0" using fresh_reader [OF inv, of i] by simp
  then show ?thesis using inv stay by (auto simp: hs_fresh_def must_wait_def)
next
  case (go i)
  then have "i = 0" using fresh_reader [OF inv, of i] by simp
  then show ?thesis using inv go going by (auto simp: hs_fresh_def must_wait_def)
next
  case (relock i t)
  then have "i = 0" using fresh_reader [OF inv, of i] by simp
  then show ?thesis using inv relock by (auto simp: hs_fresh_def dest!: lock_ops)
next
  case (read i r r' t)
  then have i: "i = 0" using fresh_reader [OF inv, of i] by (cases r) auto
  have main: "hs_main s \<noteq> Collecting k C_Signal" for k
    using exclusiveD(2) [OF mutex, of "Reader i" Main_Thread] inside_next [OF read(4)] read(3) by auto
  show ?thesis
  proof (cases r)
    case R_Copy
    have "\<not> writing (hs_main s)"
      using exclusiveD(2) [OF mutex, of "Reader i" Main_Thread] writing_collects [of "hs_main s"] read(3) R_Copy by auto
    then have "seen (hs_copies s @ [l_stats (hs_l s)]) (hs_made s)"
      using inv whole R_Copy read(3) i by (intro seen_copy) (auto simp: hs_fresh_def hs_whole_def)
    then show ?thesis using inv read R_Copy i main by (auto simp: hs_fresh_def cret_def)
  next
    case R_Unlock
    then show ?thesis using inv read i by (auto simp: hs_fresh_def dest!: lock_ops)
  qed (use inv read i main reader_op_keeps [OF read(5,4)] in \<open>auto simp: hs_fresh_def same_control_def\<close>)
next
  case (worker_lock t)
  then show ?thesis by (intro fresh_keeps [OF inv]) (auto dest: lock_ops)
next
  case (worker_unlock t)
  then show ?thesis by (intro fresh_keeps [OF inv]) (auto dest: lock_ops)
next
  case (spurious i)
  then show ?thesis using wakes by blast
qed (rule fresh_keeps [OF inv]; simp add: transfer_keeps_def split: if_splits)+

lemma over_stays:
  assumes "hs_step E s e s'" and "over (hs_l s)"
  shows "over (hs_l s')"
  using assms(1)
proof cases
  case (collect k c t)
  then show ?thesis using assms(2) collect_op_writes [OF collect(6)]
    by (cases c) (auto simp: over_def same_control_def set_l_def cmod_def dest!: lock_ops)
next
  case (read i r r' t)
  then show ?thesis using assms(2) reader_op_keeps [OF read(5,4)]
    by (cases "r = R_Unlock") (auto simp: over_def same_control_def dest!: lock_ops)
next
  case (rates m st prev peak t)
  then show ?thesis using assms(2) rate_op_keeps [OF rates(4)] by (simp add: over_def)
qed (use assms(2) in \<open>auto simp: over_def transfer_keeps_def dest!: lock_ops\<close>)


section \<open>Who waits\<close>

text \<open>
  One reader waits only for something that is still to come, and not when the main thread has
  signalled for the last time.
\<close>

fun final :: "main_pc \<Rightarrow> bool" where
  "final (Collecting k c) = (k = Final_Sample)"
| "final M_Done = True"
| "final _ = False"

definition hs_wakes :: "'w handshake \<Rightarrow> bool" where
  "hs_wakes s \<longleftrightarrow> (\<forall>i. 0 < i \<longrightarrow> hs_reader s i = R_Out) \<and> (final (hs_main s) \<longrightarrow> over (hs_l s)) \<and>
     (hs_reader s 0 = R_Sleep \<longrightarrow> l_read (hs_l s) = 1 \<and> hs_main s \<noteq> M_Done) \<and>
     (hs_reader s 0 = R_Waiting \<longrightarrow> (l_read (hs_l s) = 1 \<or> (\<exists>k. hs_main s = Collecting k C_Signal)) \<and>
        hs_main s \<noteq> Collecting Final_Sample C_Unlock \<and> hs_main s \<noteq> M_Done)"

lemma wakes_keeps:
  assumes "hs_wakes s" and "hs_step E s e s'" and "l_read (hs_l s') = l_read (hs_l s)"
    and "hs_reader s' = hs_reader s \<or> hs_reader s' = (hs_reader s)(0 := r) \<and> r \<notin> {R_Sleep, R_Waiting}"
    and "hs_main s' = hs_main s"
  shows "hs_wakes s'"
  using assms(1,3-5) over_stays [OF assms(2)] by (auto simp: hs_wakes_def)

lemma final_next: "final (case collect_next c of Some c' \<Rightarrow> Collecting k c' | None \<Rightarrow> after_sample k) \<longleftrightarrow> k = Final_Sample"
  by (cases c; cases k) auto

lemma not_final_rates: "\<not> final (case rate_next m of Some m' \<Rightarrow> Rating m' | None \<Rightarrow> M_Top)"
    "(case rate_next m of Some m' \<Rightarrow> Rating m' | None \<Rightarrow> M_Top) \<noteq> Collecting k c"
    "(case rate_next m of Some m' \<Rightarrow> Rating m' | None \<Rightarrow> M_Top) \<noteq> M_Done"
  by (cases m; simp)+

lemma wakes_reader: "hs_wakes s \<Longrightarrow> hs_reader s i \<noteq> R_Out \<Longrightarrow> i = 0"
  by (auto simp: hs_wakes_def)

lemma wakes_step:
  assumes inv: "hs_wakes s" and mutex: "hs_mutex s" and step: "hs_step E s e s'" and one: "\<forall>i b. e = Ev_try (Reader i) b \<longrightarrow> i = 0"
  shows "hs_wakes s'"
  using step
proof cases
  case top
  then show ?thesis using inv by (auto simp: hs_wakes_def)
next
  case awake
  then show ?thesis using inv by (auto simp: hs_wakes_def)
next
  case (lock k t)
  then show ?thesis using inv over_stays [OF step] by (auto simp: hs_wakes_def dest!: lock_ops)
next
  case (collect k c t)
  have awake: "hs_reader s 0 \<noteq> R_Sleep"
    using exclusiveD(2) [OF mutex, of "Reader 0" Main_Thread] collect by auto
  have fin: "final (hs_main s') \<longrightarrow> over (hs_l s')"
    using inv collect over_stays [OF step] by (auto simp: hs_wakes_def final_next)
  show ?thesis
  proof (cases "c = C_New")
    case True
    then show ?thesis using inv collect fin awake by (auto simp: hs_wakes_def)
  next
    case False
    then have "l_read (hs_l s') = l_read (hs_l s)" using collect collect_reads [OF collect(6)] by simp
    moreover have "hs_main s' = M_Done \<Longrightarrow> hs_main s = Collecting Final_Sample C_Unlock"
      and "hs_main s' \<noteq> Collecting Final_Sample C_Unlock"
      using collect False by (cases c; cases k; auto)+
    ultimately show ?thesis using inv collect fin awake False by (auto simp: hs_wakes_def)
  qed
next
  case (wake k i)
  then have "i = 0" using wakes_reader [OF inv, of i] by simp
  then show ?thesis using inv wake over_stays [OF step] by (auto simp: hs_wakes_def)
next
  case (wake_none k)
  then show ?thesis using inv by (auto simp: hs_wakes_def)
next
  case (rates m st prev peak t)
  then show ?thesis using inv rate_op_keeps [OF rates(4)] not_final_rates [of m]
    by (auto simp: hs_wakes_def)
next
  case (enter i t)
  then have "i = 0" using one by blast
  then show ?thesis using enter by (intro wakes_keeps [OF inv step, of R_Test]) (auto dest!: lock_ops)
next
  case (sleep i t)
  then have "i = 0" using wakes_reader [OF inv, of i] by simp
  moreover have "\<not> collecting (hs_main s)" using exclusiveD(2) [OF mutex, of "Reader i" Main_Thread] sleep by auto
  ultimately show ?thesis using inv sleep by (auto simp: hs_wakes_def over_def dest!: lock_ops)
next
  case (stay i)
  then have "i = 0" using wakes_reader [OF inv, of i] by simp
  then show ?thesis using inv stay by (auto simp: hs_wakes_def must_wait_def)
next
  case (go i)
  then have "i = 0" using wakes_reader [OF inv, of i] by simp
  then show ?thesis using go by (intro wakes_keeps [OF inv step, of R_Time]) auto
next
  case (spurious i)
  then have "i = 0" using wakes_reader [OF inv, of i] by simp
  then show ?thesis using spurious by (intro wakes_keeps [OF inv step, of R_Woken]) auto
next
  case (relock i t)
  then have "i = 0" using wakes_reader [OF inv, of i] by simp
  then show ?thesis using relock by (intro wakes_keeps [OF inv step, of R_Time]) (auto dest!: lock_ops)
next
  case (read i r r' t)
  then have i: "i = 0" using wakes_reader [OF inv, of i] by (cases r) auto
  moreover have "r' \<notin> {R_Sleep, R_Waiting}" using read by (cases r) auto
  ultimately show ?thesis using inv read over_stays [OF step] by (auto simp: hs_wakes_def)
next
  case (worker_lock t)
  then show ?thesis by (intro wakes_keeps [OF inv step]) (auto dest!: lock_ops)
next
  case (worker_unlock t)
  then show ?thesis by (intro wakes_keeps [OF inv step]) (auto dest!: lock_ops)
next
  case (worker t)
  then show ?thesis by (intro wakes_keeps [OF inv step]) (auto simp: transfer_keeps_def)
qed

section \<open>Runs\<close>

lemma start_invs:
  assumes "hs_start s"
  shows "hs_mutex s" "hs_whole s" "hs_fresh s" "hs_wakes s"
proof -
  show "hs_mutex s" using assms by (simp add: hs_start_def exclusive_def all_threads)
qed (use assms in \<open>simp_all add: hs_start_def hs_whole_def hs_fresh_def hs_wakes_def seen_def\<close>)

lemma run_whole:
  assumes "hs_run E s es s'" and "lock_held_off es" and "hs_mutex s \<and> hs_whole s"
  shows "hs_mutex s' \<and> hs_whole s'"
  using assms unfolding lock_held_off_def by (rule run_keeps) (blast intro: hs.step_exclusive whole_step)

fun spurious_or_second :: "hs_event \<Rightarrow> bool" where
  "spurious_or_second (Ev_spurious i) = True"
| "spurious_or_second (Ev_try (Reader i) got) = (i \<noteq> 0)"
| "spurious_or_second _ = False"

lemma run_fresh:
  assumes "hs_run E s es s'" and "lock_held_off es" and "one_reader es" and "no_spurious es" and "\<not> over (hs_l s')"
    and "hs_mutex s" and "hs_whole s" and "hs_fresh s"
  shows "hs_fresh s'"
proof -
  have "hs_mutex s' \<and> hs_whole s' \<and> (over (hs_l s') \<or> hs_fresh s')"
  proof (rule run_keeps [where I = "\<lambda>s. hs_mutex s \<and> hs_whole s \<and> (over (hs_l s) \<or> hs_fresh s)",
      OF assms(1), where P = "\<lambda>e. \<not> hs_misses e \<and> \<not> spurious_or_second e"])
    show "\<forall>e\<in>set es. \<not> hs_misses e \<and> \<not> spurious_or_second e"
    proof
      fix e assume "e \<in> set es"
      then show "\<not> hs_misses e \<and> \<not> spurious_or_second e"
        using assms(2-4) by (cases e rule: spurious_or_second.cases) (auto simp: lock_held_off_def one_reader_def no_spurious_def)
    qed
    show "hs_mutex s \<and> hs_whole s \<and> (over (hs_l s) \<or> hs_fresh s)" using assms(6-8) by blast
  next
    fix s e s' assume step: "hs_step E s e s'" and e: "\<not> hs_misses e \<and> \<not> spurious_or_second e"
      and inv: "hs_mutex s \<and> hs_whole s \<and> (over (hs_l s) \<or> hs_fresh s)"
    have "\<forall>i. e \<noteq> Ev_spurious i" "\<forall>i b. e = Ev_try (Reader i) b \<longrightarrow> i = 0" using e by auto
    then show "hs_mutex s' \<and> hs_whole s' \<and> (over (hs_l s') \<or> hs_fresh s')"
      using step e inv hs.step_exclusive whole_step fresh_step over_stays by blast
  qed
  then show ?thesis using assms(5) by blast
qed

lemma run_wakes:
  assumes "hs_run E s es s'" and "lock_held_off es" and "one_reader es" and "hs_mutex s \<and> hs_wakes s"
  shows "hs_mutex s' \<and> hs_wakes s'"
proof (rule run_keeps [where I = "\<lambda>s. hs_mutex s \<and> hs_wakes s", OF assms(1), where P = "\<lambda>e. \<not> hs_misses e \<and> (\<forall>i b. e = Ev_try (Reader i) b \<longrightarrow> i = 0)"])
  show "\<forall>e\<in>set es. \<not> hs_misses e \<and> (\<forall>i b. e = Ev_try (Reader i) b \<longrightarrow> i = 0)"
    using assms(2,3) by (auto simp: lock_held_off_def one_reader_def)
qed (rule assms(4), blast intro: hs.step_exclusive wakes_step)

text \<open>The steps on the lock as explicit states.\<close>

definition set_lock :: "bool \<Rightarrow> 'w tb_state \<Rightarrow> 'w tb_state" where
  "set_lock b s = s\<lparr>lst := (lst s)\<lparr>l_stat_lock := b\<rparr>\<rparr>"

lemma stat_lock_ops: "trylock_stat s = Ok () (set_lock True s)" "unlock_stat s = Ok () (set_lock False s)"
  by (simp_all add: trylock_stat_def unlock_stat_def set_l_def cmod_def set_lock_def)

lemma step_lock: "hs_main s = Collecting k C_Lock \<Longrightarrow> b = (\<not> l_stat_lock (hs_l s)) \<Longrightarrow>
    hs_step E s (Ev_try Main_Thread b) (s\<lparr>hs_s := set_lock True (hs_s s), hs_main := Collecting k C_Count\<rparr>)"
  using hs_step.lock [of s k E] by (simp add: stat_lock_ops)

lemma step_enter: "hs_reader s i = R_Out \<Longrightarrow> b = (\<not> l_stat_lock (hs_l s)) \<Longrightarrow>
    hs_step E s (Ev_try (Reader i) b) (s\<lparr>hs_s := set_lock True (hs_s s), hs_reader := (hs_reader s)(i := R_Test)\<rparr>)"
  using hs_step.enter [OF _ stat_lock_ops(1), of s i E] by simp

lemma step_leave: "hs_reader s i = R_Unlock \<Longrightarrow>
    hs_step E s (Ev_reader i) (s\<lparr>hs_s := set_lock False (hs_s s), hs_reader := (hs_reader s)(i := R_Out)\<rparr>)"
  using hs_step.read [of s i R_Unlock R_Out E "set_lock False (hs_s s)"] by (simp add: stat_lock_ops)

text \<open>A reader that does not have to wait goes from its test to the copy.\<close>

lemma reader_copies:
  assumes "hs_reader s i = R_Test" and "\<not> must_wait (hs_l s)" and "st_stat_time (l_stats (hs_l s)) = Some t"
    and "in_int (st_id (l_stats (hs_l s)) + 1)"
  shows "\<exists>s'. hs_run E s [Ev_reader i, Ev_reader i, Ev_reader i, Ev_reader i, Ev_reader i] s' \<and> hs_main s' = hs_main s \<and> hs_rates s' = hs_rates s \<and> hs_made s' = hs_made s \<and>
    (\<exists>t'. hs_copies s' = hs_copies s @ [(l_stats (hs_l s))\<lparr>st_stat_time := Some t', st_id := st_id (l_stats (hs_l s)) + 1\<rparr>] \<and>
      l_stats (hs_l s') = (l_stats (hs_l s))\<lparr>st_stat_time := Some t', st_id := st_id (l_stats (hs_l s)) + 1\<rparr>) \<and>
    hs_worker s' = hs_worker s \<and> hs_reader s' = (hs_reader s)(i := R_Unlock) \<and> l_read (hs_l s') = 1 \<and>
    l_status (hs_l s') = l_status (hs_l s) \<and> l_stat_lock (hs_l s') = l_stat_lock (hs_l s) \<and>
    l_total_tx_rx (hs_l s') = l_total_tx_rx (hs_l s)"
proof -
  obtain a w where a: "sys E (Posix (Clock_gettime (t_clk_id t))) (world (hs_s s)) = (a, w)" by force
  have "\<exists>t' u. (if t_started t = 0 then tb_start_time E t else tb_finish_time E t) (hs_s s) = Ok t' u \<and> lst u = hs_l s"
    by (simp add: a tb_start_time_def tb_finish_time_def cbind_def do_sys_def cret_def)
  then obtain t' u where t': "(if t_started t = 0 then tb_start_time E t else tb_finish_time E t) (hs_s s) = Ok t' u" "lst u = hs_l s"
    by blast
  show ?thesis
    apply (rule run_Cons, rule hs_step.go, rule assms(1), rule assms(2))
    apply (rule run_Cons, rule hs_step.read [where r = R_Time], simp, simp)
     apply (simp add: cbind_def cget_def cderef_def cret_def assms(3) t' set_l_def cmod_def)
    apply (rule run_Cons, rule hs_step.read [where r = R_Number], simp, simp)
     apply (simp add: cbind_def cget_def cint_def cret_def assms(4) t'(2) set_l_def cmod_def)
    apply (rule run_Cons, rule hs_step.read [where r = R_Mark], simp, simp)
     apply (simp add: set_l_def cmod_def)
    apply (rule run_Cons, rule hs_step.read [where r = R_Copy], simp, simp)
     apply (simp add: cret_def)
    apply (rule run_Nil)
    apply (auto simp: t')
    done
qed

text \<open>A collection while nothing is connected, up to the point where its count is written.\<close>

definition counted :: "'w handshake \<Rightarrow> 'w handshake" where
  "counted s = s\<lparr>hs_s := (hs_s s)\<lparr>lst := (hs_l s)\<lparr>l_stat_lock := True,
     l_stats := (l_stats (hs_l s))\<lparr>st_current_read := l_total_tx_rx (hs_l s)\<rparr>\<rparr>\<rparr>, hs_main := Collecting Waiting_Sample C_Sample\<rparr>"

lemma run_counted:
  assumes "hs_main s = M_Top" and "\<not> over (hs_l s)" and "l_status (hs_l s) \<noteq> TB_CONNECTED" and "\<not> l_stat_lock (hs_l s)"
  shows "hs_run E s [Ev_main, Ev_main, Ev_try Main_Thread True, Ev_main] (counted s)"
proof -
  have "\<exists>s'. hs_run E s [Ev_main, Ev_main, Ev_try Main_Thread True, Ev_main] s' \<and> s' = counted s"
    apply (rule run_Cons, rule hs_step.top, rule assms(1))
    apply (rule run_Cons, rule hs_step.awake, simp add: assms(2))
    apply (rule run_Cons, rule step_lock, simp, simp add: assms(4))
    apply (rule run_Cons, rule hs_step.collect, simp, simp, simp, simp add: set_l_def cmod_def)
    apply (rule run_Nil)
    apply (simp add: counted_def assms(3) set_lock_def)
    done
  then show ?thesis by auto
qed

text \<open>A collection while a client is connected, and its rates up to the point where they are scaled.\<close>

lemma get_stats_returns:
  assumes "in_int (st_id st + 1)"
  shows "\<exists>st' w tr. tb_get_stats E st fd s = Ok st' (s\<lparr>world := w, trace := tr\<rparr>) \<and> stats_frame st st' \<and> st_id st' = st_id st + 1"
proof -
  have "wp (tb_get_stats E st fd) (\<lambda>st' s'. \<exists>w tr. s' = s\<lparr>world := w, trace := tr\<rparr> \<and> stats_frame st st' \<and> st_id st' = st_id st + 1)
      (\<lambda>_ _. False) s"
    by (rule wp_tb_get_stats [OF _ assms]) blast
  then show ?thesis by (auto simp: wp_returns)
qed

lemma rate_ops:
  "rate_op P_Rate (st, r) s =
     Ok (st\<lparr>st_byte_sec := to_int (st_current_read st - fst r)\<rparr>, to_int (st_current_read st), snd r) s"
  "rate_op P_Total (st, r) s =
     Ok (st\<lparr>st_total_bytes := st_total_bytes st + st_byte_sec st, st_num_m_seconds := st_num_m_seconds st + 1\<rparr>, fst r, snd r) s"
  "rate_op P_Average (st, r) s =
     Ok (st\<lparr>st_av_byte_sec := of_int (st_total_bytes st) / of_int (st_num_m_seconds st)\<rparr>, fst r, snd r) s"
  "in_int (st_byte_sec st * 10) \<Longrightarrow> rate_op P_Scale (st, r) s =
     Ok (st\<lparr>st_byte_sec := st_byte_sec st * 10, st_av_byte_sec := st_av_byte_sec st * 10\<rparr>, fst r, snd r) s"
  by (cases r; simp add: cret_def cbind_def cint_def)+

lemma run_rated:
  fixes s :: "'w handshake"
  defines "d \<equiv> to_int (l_total_tx_rx (hs_l s) - fst (hs_rates s))"
  assumes "hs_start s" and "l_status (hs_l s) = TB_CONNECTED" and "l_e_type (hs_l s) \<noteq> SERVER"
    and "st_other_info (l_stats (hs_l s)) \<noteq> None" and "in_int (st_id (l_stats (hs_l s)) + 1)"
  shows "\<exists>s'. hs_run E s [Ev_main, Ev_main, Ev_try Main_Thread True, Ev_main, Ev_main, Ev_main, Ev_main, Ev_signal None, Ev_main,
      Ev_main, Ev_main, Ev_main] s' \<and> hs_main s' = Rating P_Scale \<and> hs_reader s' = hs_reader s \<and> \<not> l_stat_lock (hs_l s') \<and>
      l_read (hs_l s') = 0 \<and> hs_copies s' = [] \<and> st_stat_time (l_stats (hs_l s')) = st_stat_time (l_stats (hs_l s)) \<and>
      st_byte_sec (l_stats (hs_l s')) = d \<and> st_id (l_stats (hs_l s')) = st_id (l_stats (hs_l s)) + 1"
proof -
  note st = assms(2) [unfolded hs_start_def]
  obtain info where info: "st_other_info (l_stats (hs_l s)) = Some info" using assms(5) by blast
  let ?st = "(l_stats (hs_l s))\<lparr>st_current_read := l_total_tx_rx (hs_l s)\<rparr>"
  let ?s = "(hs_s s)\<lparr>lst := (hs_l s)\<lparr>l_stat_lock := True, l_stats := ?st\<rparr>\<rparr>"
  obtain st' w tr where st': "tb_get_stats E ?st (l_sock_d (hs_l s)) ?s = Ok st' (?s\<lparr>world := w, trace := tr\<rparr>)"
      "stats_frame ?st st'" "st_id st' = st_id (l_stats (hs_l s)) + 1"
    using get_stats_returns [of ?st E "l_sock_d (hs_l s)" ?s] assms(6) by auto
  have frame: "st_other_info st' = Some info" "st_current_read st' = l_total_tx_rx (hs_l s)"
      "st_stat_time st' = st_stat_time (l_stats (hs_l s))"
    using st'(2) info by (simp_all add: stats_frame_def)
  have going: "\<not> over (hs_l s)" using assms(3) by (simp add: over_def)
  show ?thesis
    apply (rule run_Cons, rule hs_step.top, simp add: st)
    apply (rule run_Cons, rule hs_step.awake, simp add: going)
    apply (rule run_Cons, rule step_lock, simp, simp add: st)
    apply (rule run_Cons, rule hs_step.collect, simp, simp, simp, simp add: set_l_def cmod_def)
    apply (rule run_Cons, rule hs_step.collect, simp, simp, simp)
     apply (simp add: cbind_def cget_def cwhen_def cret_def set_lock_def assms(3,4) st' set_l_def cmod_def)
    apply (rule run_Cons, rule hs_step.collect, simp, simp, simp)
     apply (simp add: cbind_def cget_def cret_def cderef_def frame set_l_def cmod_def)
    apply (rule run_Cons, rule hs_step.collect, simp, simp, simp, simp add: set_l_def cmod_def)
    apply (rule run_Cons, rule hs_step.wake_none, simp, simp add: st)
    apply (rule run_Cons, rule hs_step.collect, simp, simp, simp, simp add: stat_lock_ops)
    apply (rule run_Cons, rule hs_step.rates, simp add: assms(3), simp add: rate_ops)
    apply (rule run_Cons, rule hs_step.rates, simp, simp add: rate_ops cret_def)
    apply (rule run_Cons, rule hs_step.rates, simp, simp add: rate_ops cret_def)
    apply (rule run_Nil)
    apply (simp add: st st' frame d_def set_lock_def)
    done
qed

section \<open>Properties\<close>


text \<open>C12: no one waits in vain. As long as every try of the lock succeeds, a single reader waits only
  while there is nothing new for it or its signal is about to come; when the main thread has
  ended it is not waiting, and if it has been woken it can take the lock unless the thread of
  the transfer has it.\<close>

theorem reader_not_left_waiting:
  assumes "hs_start s" and "hs_run E s es s'" and "lock_held_off es" and "one_reader es"
  shows "(hs_reader s' 0 = R_Waiting \<longrightarrow> l_read (hs_l s') = 1 \<or> (\<exists>k. hs_main s' = Collecting k C_Signal)) \<and>
    (hs_main s' = M_Done \<longrightarrow> hs_reader s' 0 \<noteq> R_Waiting \<and>
       (hs_reader s' 0 = R_Woken \<longrightarrow> l_stat_lock (hs_l s') = hs_worker s'))"
proof -
  have inv: "hs_mutex s'" "hs_wakes s'" using run_wakes [OF assms(2-4)] start_invs [OF assms(1)] by auto
  have "l_stat_lock (hs_l s') = hs_worker s'" if "hs_main s' = M_Done" "hs_reader s' 0 = R_Woken"
  proof -
    have "\<not> holds s' Main_Thread" "\<not> holds s' (Reader i)" for i
      using that inv(2) by (cases i; simp add: hs_wakes_def)+
    then show ?thesis using inv(1) unfolding exclusive_def by (metis holds.simps(2) hs_thread.exhaust)
  qed
  then show ?thesis using inv(2) by (auto simp: hs_wakes_def)
qed


text \<open>C31: the monitor works out its rates in the statistics themselves, after it has let go of the
  lock. Even when every try of the lock succeeds, a reader can copy them between two of its
  statements: it then gets as the bytes per second what was transferred in a tenth of a second.\<close>

theorem copy_before_scaling:
  fixes s :: "'w handshake"
  defines "d \<equiv> to_int (l_total_tx_rx (hs_l s) - fst (hs_rates s))"
  assumes "hs_start s" and "l_status (hs_l s) = TB_CONNECTED" and "l_e_type (hs_l s) \<noteq> SERVER"
    and "st_stat_time (l_stats (hs_l s)) \<noteq> None" and "st_other_info (l_stats (hs_l s)) \<noteq> None"
    and "in_int (st_id (l_stats (hs_l s)) + 1)" and "in_int (st_id (l_stats (hs_l s)) + 2)" and "in_int (d * 10)"
  shows "\<exists>es s' x. hs_run E s es s' \<and> lock_held_off es \<and> one_reader es \<and> no_spurious es \<and>
    hs_copies s' = [x] \<and> st_byte_sec x = d \<and> st_byte_sec (l_stats (hs_l s')) = d * 10"
proof -
  let ?reads = "[Ev_reader 0, Ev_reader 0, Ev_reader 0, Ev_reader 0, Ev_reader 0]"
  obtain t where t: "st_stat_time (l_stats (hs_l s)) = Some t" using assms(5) by blast
  obtain es u where u: "hs_run E s es u" "lock_held_off es" "one_reader es" "no_spurious es"
      "hs_main u = Rating P_Scale" "hs_reader u = hs_reader s" "\<not> l_stat_lock (hs_l u)" "l_read (hs_l u) = 0"
      "hs_copies u = []" "st_stat_time (l_stats (hs_l u)) = Some t" "st_byte_sec (l_stats (hs_l u)) = d"
      "st_id (l_stats (hs_l u)) = st_id (l_stats (hs_l s)) + 1"
    using run_rated [OF assms(2-4,6,7), of E] t unfolding d_def
    by (elim exE conjE) (force simp: lock_held_off_def one_reader_def no_spurious_def simp del: run.simps)
  let ?u = "u\<lparr>hs_s := set_lock True (hs_s u), hs_reader := (hs_reader u)(0 := R_Test)\<rparr>"
  have enter: "hs_run E u [Ev_try (Reader 0) True] ?u"
    using step_enter [of u 0 True] u(6,7) assms(2) by (simp add: hs_start_def)
  obtain v where v: "hs_run E ?u ?reads v" "hs_main v = Rating P_Scale" "st_byte_sec (l_stats (hs_l v)) = d"
      "\<exists>x. hs_copies v = [x] \<and> st_byte_sec x = d"
    using reader_copies [of ?u 0 t E] u assms(8)
    by (auto simp: set_lock_def must_wait_def add.assoc simp del: run.simps)
  have "\<exists>s'. hs_run E v [Ev_main] s' \<and> (hs_copies s' = hs_copies v \<and> st_byte_sec (l_stats (hs_l s')) = d * 10)"
    apply (rule run_Cons, rule hs_step.rates, rule v(2), rule rate_ops(4), simp add: v(3) assms(9))
    apply (rule run_Nil)
    apply (simp add: v(3))
    done
  then obtain w where w: "hs_run E v [Ev_main] w" "hs_copies w = hs_copies v" "st_byte_sec (l_stats (hs_l w)) = d * 10"
    by blast
  have run: "hs_run E s (((es @ [Ev_try (Reader 0) True]) @ ?reads) @ [Ev_main]) w"
    by (rule run_append [OF run_append [OF run_append [OF u(1) enter] v(1)] w(1)])
  from v(4) obtain x where x: "hs_copies v = [x]" "st_byte_sec x = d" by blast
  show ?thesis
    by (intro exI conjI, rule run)
      (use u(2-4) x w(2,3) in \<open>auto simp: lock_held_off_def one_reader_def no_spurious_def\<close>)
qed

end
