(* ===== verification/TB_Demo_Handshake.thy ===== *)
theory TB_Demo_Handshake
  imports TB_Demo TB_Handshake
begin

text \<open>
  The properties of the statistics under concurrency at concrete inputs: the threads of a client
  that is not connected yet or has sent five bytes, and a reader.
\<close>

definition demo_hs :: "STATUS \<Rightarrow> nat handshake" where
  "demo_hs st = \<lparr>hs_s = demo_state\<lparr>lst := demo_listener\<lparr>l_status := st, l_total_tx_rx := 5\<rparr>\<rparr>, hs_main = M_Top, hs_rates = (0, 0),
     hs_reader = (\<lambda>_. R_Out), hs_worker = False, hs_made = [demo_stats], hs_copies = []\<rparr>"

lemma demo_hs_start: "hs_start (demo_hs st)"
  by (simp add: hs_start_def demo_hs_def demo_listener_def)

lemma demo_hs_facts:
  "l_status (hs_l (demo_hs st)) = st" "l_e_type (hs_l (demo_hs st)) \<noteq> SERVER" "l_total_tx_rx (hs_l (demo_hs st)) = 5"
  "hs_rates (demo_hs st) = (0, 0)" "st_current_read (l_stats (hs_l (demo_hs st))) = 0" "st_id (l_stats (hs_l (demo_hs st))) = 0"
  "st_stat_time (l_stats (hs_l (demo_hs st))) = Some demo_time" "st_other_info (l_stats (hs_l (demo_hs st))) \<noteq> None"
  "hs_copies (demo_hs st) = []" "hs_reader (demo_hs st) = (\<lambda>_. R_Out)" "l_read (hs_l (demo_hs st)) = 0"
  "\<not> l_stat_lock (hs_l (demo_hs st))" "hs_main (demo_hs st) = M_Top"
  by (simp_all add: demo_hs_def demo_defs tb_create_stats_def)

lemma demo_not_over: "\<not> over (hs_l (demo_hs TB_CREATED))"
  by (simp add: over_def demo_hs_facts)

text \<open>The reader reads what the statistics were created with, and comes back for more.\<close>

lemma demo_first_read:
  "\<exists>s'. hs_run demo_env (demo_hs TB_CREATED) ([Ev_try (Reader 0) True] @ replicate 6 (Ev_reader 0)) s' \<and> length (hs_copies s') = 1 \<and>
     hs_reader s' 0 = R_Out \<and> \<not> l_stat_lock (hs_l s') \<and> l_read (hs_l s') = 1 \<and> \<not> over (hs_l s')"
proof -
  let ?s = "demo_hs TB_CREATED"
  let ?s1 = "?s\<lparr>hs_s := set_lock True (hs_s ?s), hs_reader := (hs_reader ?s)(0 := R_Test)\<rparr>"
  have enter: "hs_run demo_env ?s [Ev_try (Reader 0) True] ?s1"
    using step_enter [of ?s 0 True] by (simp add: demo_hs_facts)
  obtain v where v: "hs_run demo_env ?s1 [Ev_reader 0, Ev_reader 0, Ev_reader 0, Ev_reader 0, Ev_reader 0] v"
      "length (hs_copies v) = 1" "hs_reader v 0 = R_Unlock" "l_read (hs_l v) = 1" "l_status (hs_l v) = TB_CREATED"
    using reader_copies [of ?s1 0 demo_time demo_env] demo_not_over
    by (auto simp: demo_hs_facts set_lock_def must_wait_def in_int_def simp del: run.simps)
  let ?v = "v\<lparr>hs_s := set_lock False (hs_s v), hs_reader := (hs_reader v)(0 := R_Out)\<rparr>"
  have leave: "hs_run demo_env v [Ev_reader 0] ?v" using step_leave [of v 0] v(3) by simp
  have "hs_run demo_env ?s ([Ev_try (Reader 0) True] @ replicate 6 (Ev_reader 0)) ?v"
    using run_append [OF run_append [OF enter v(1)] leave] by (simp add: eval_nat_numeral del: run.simps)
  then show ?thesis using v by (intro exI [of _ ?v]) (simp add: set_lock_def over_def del: run.simps)
qed


theorem reader_not_left_waiting_witness:
  "\<exists>es s'. hs_run demo_env (demo_hs TB_CREATED) es s' \<and> hs_reader s' 0 = R_Waiting \<and>
     (l_read (hs_l s') = 1 \<or> (\<exists>k. hs_main s' = Collecting k C_Signal)) \<and> hs_main s' \<noteq> M_Done"
proof -
  let ?es = "[Ev_try (Reader 0) True] @ replicate 6 (Ev_reader 0)" and ?es2 = "[Ev_try (Reader 0) True, Ev_reader 0, Ev_reader 0]"
  obtain v where v: "hs_run demo_env (demo_hs TB_CREATED) ?es v" "hs_reader v 0 = R_Out" "\<not> l_stat_lock (hs_l v)"
      "l_read (hs_l v) = 1" "\<not> over (hs_l v)" using demo_first_read by blast
  have "\<exists>s'. hs_run demo_env v ?es2 s' \<and> hs_reader s' 0 = R_Waiting"
    apply (rule run_Cons, rule step_enter, rule v(2), simp add: v(3))
    apply (rule run_Cons, rule hs_step.stay, simp)
    subgoal using v(4,5) by (simp add: must_wait_def set_lock_def over_def)
    apply (rule run_Cons, rule hs_step.sleep, simp, rule stat_lock_ops)
    apply (rule run_Nil, simp)
    done
  then obtain s' where s': "hs_run demo_env v ?es2 s'" "hs_reader s' 0 = R_Waiting" by blast
  have es: "lock_held_off (?es @ ?es2)" "one_reader (?es @ ?es2)"
    by (auto simp: lock_held_off_def one_reader_def)
  note run = run_append [OF v(1) s'(1)]
  show ?thesis using reader_not_left_waiting [OF demo_hs_start run es] run s'(2) by blast
qed


theorem copy_before_scaling_witness:
  "\<exists>es s' x. hs_run demo_env (demo_hs TB_CONNECTED) es s' \<and> lock_held_off es \<and> hs_copies s' = [x] \<and> st_byte_sec x = 5 \<and>
     st_byte_sec (l_stats (hs_l s')) = 50"
  using copy_before_scaling [OF demo_hs_start, of TB_CONNECTED demo_env]
  by (auto simp: demo_hs_facts in_int_def to_int_id simp del: run.simps)

end
