(* ===== verification/TB_Udt.thy ===== *)
theory TB_Udt
  imports TB_Stream
begin

text \<open>
  The UDT endpoints (\<open>src/src/tb_udt.h\<close>, \<open>src/src/tb_udt.c\<close>): server and client of one
  connection, server and client of several with the thread functions of their sessions. The
  library libudt answers its calls through the environment.
\<close>

section \<open>Helpers\<close>

text \<open>The macros \<open>LOG_INFO\<close> and \<open>LOG_E_NO\<close> on the listener.\<close>

definition log_l_info :: "('w, 'e) env_scheme \<Rightarrow> string \<Rightarrow> (('w, 'z) tb_state_scheme, unit) prog" where
  "log_l_info E info = cbind (cget lst) (\<lambda>l. tb_log_info E (l_log_info l) (l_log_enabled l) info LOG_INFO)"

definition log_l_errno :: "('w, 'e) env_scheme \<Rightarrow> string \<Rightarrow> int \<Rightarrow> (('w, 'z) tb_state_scheme, unit) prog" where
  "log_l_errno E info err_no = cbind (cget lst) (\<lambda>l. tb_log_error_no E (l_log_info l) (l_log_enabled l) info err_no)"

text \<open>The condition \<open>command != TB_ABORT && command != TB_EXIT\<close> reads the command twice.\<close>

definition not_ended :: "('w, 'e) env_scheme \<Rightarrow> (('w, 'z) tb_state_scheme, bool) prog" where
  "not_ended E =
     cbind (read_command E) (\<lambda>c. if c = TB_ABORT then cret False
     else cbind (read_command E) (\<lambda>c. cret (c \<noteq> TB_EXIT)))"

text \<open>The condition \<open>!(command & TB_E_LOOP)\<close>.\<close>

definition in_loop :: "('w, 'e) env_scheme \<Rightarrow> (('w, 'z) tb_state_scheme, bool) prog" where
  "in_loop E = cbind (read_command E) (\<lambda>c. cret (\<not> leaves_loop c))"

definition ECONNLOST :: int where "ECONNLOST = 2001"


section \<open>The server of one connection\<close>

text \<open>The local of the inner loop says that the connection is over.\<close>

definition udt_recv_step :: "('w, 'e) env_scheme \<Rightarrow> nat \<Rightarrow> (('w, 'z) tb_state_scheme, bool) prog" where
  "udt_recv_step E p =
     cbind (load_session (Some p)) (\<lambda>r.
     cbind (do_sys E (Udt (Udt_recv (s_sock_d r) (to_int (s_data_size r))))) (\<lambda>a.
     let n = to_int (a_rc a) in
     cdo [store_session (Some p) (\<lambda>r. r\<lparr>s_data := map_option (overwrite (a_bytes a)) (s_data r), s_last_trans := n\<rparr>)]
       (cbind (if n = UDT_ERROR
          then cbind (do_sys E (Udt Udt_lasterror)) (\<lambda>e.
            if a_rc e = ECONNLOST then cret True else cdo [tb_abort E] (cret False))
          else cret False) (\<lambda>over.
        if over then cret True
        else cdo [store_session (Some p) (\<lambda>r. r\<lparr>s_total_bytes := s_total_bytes r + s_last_trans r\<rparr>),
                  cbind (load_session (Some p)) (\<lambda>r.
                    set_l (\<lambda>l. l\<lparr>l_total_tx_rx := l_total_tx_rx l + s_last_trans r\<rparr>))]
               (cret False)))))"

definition udt_serve_accepted :: "('w, 'e) lenv_scheme \<Rightarrow> nat \<Rightarrow> nat \<Rightarrow> (('w, 'z) tb_state_scheme, unit) prog" where
  "udt_serve_accepted E fuel p =
     cseq [cbind (cget lst) (\<lambda>l. cbind (cmalloc E (to_size (l_bufsize l))) (\<lambda>d.
             store_session (Some p) (\<lambda>r. r\<lparr>s_data := d, s_data_size := to_size (l_bufsize l)\<rparr>))),
           set_l (\<lambda>l. l\<lparr>l_curr_session := Some p, l_status := TB_CONNECTED\<rparr>),
           l_start_transfer E,
           cvoid (cwhile fuel (\<lambda>over. if over then cret False else in_loop E) (\<lambda>_. udt_recv_step E p) False),
           l_finish_transfer E,
           trylock_stat,
           set_l (\<lambda>l. l\<lparr>l_status := TB_DISCONNECTED, l_curr_session := None\<rparr>),
           cbind (load_session (Some p)) (\<lambda>r. cvoid (do_sys E (Udt (Udt_close (s_sock_d r))))),
           tb_destroy_session (Some p),
           unlock_stat,
           set_l (\<lambda>l. l\<lparr>l_command := l_s_tx_end l\<rparr>)]"

definition udt_serve_one :: "('w, 'e) lenv_scheme \<Rightarrow> nat \<Rightarrow> (('w, 'z) tb_state_scheme, unit) prog" where
  "udt_serve_one E fuel =
     cdo [LOG E ''Accepting'' LOG_INFO]
       (cbind (tb_create_server_session E) (\<lambda>p.
        cbind (cget lst) (\<lambda>l.
        cbind (do_sys E (Udt (Udt_accept (l_sock_d l)))) (\<lambda>a.
        cdo [store_session (Some p) (\<lambda>r. r\<lparr>s_sock_d := a_rc a,
               s_addr_in := (if a_rc a = UDT_ERROR then s_addr_in r else Some (a_peer a))\<rparr>),
             cwhen (a_rc a = UDT_ERROR) (tb_abort E)]
          (udt_serve_accepted E fuel p)))))"

definition tb_udt_server :: "('w, 'e) lenv_scheme \<Rightarrow> nat \<Rightarrow> nat \<Rightarrow> (('w, 'z) tb_state_scheme, int) prog" where
  "tb_udt_server E conns fuel =
     cdo [cbind (cget lst) (\<lambda>l. cbind (do_sys E (Udt (Udt_listen (l_sock_d l) 10))) (\<lambda>a.
            cwhen (a_rc a = UDT_ERROR) (tb_abort E))),
          set_l (\<lambda>l. l\<lparr>l_status := TB_LISTENING\<rparr>),
          cvoid (cwhile conns (\<lambda>_. not_ended E) (\<lambda>_. udt_serve_one E fuel) ()),
          cbind (cget lst) (\<lambda>l. cvoid (call_close E (f_close (l_protocol l)) (l_sock_d l))),
          set_l (\<lambda>l. l\<lparr>l_sock_d := - 1\<rparr>)]
       (cget (\<lambda>s. to_int (l_total_tx_rx (lst s))))"


section \<open>The server of several connections\<close>

text \<open>What the thread of a session returns points to memory that only one branch writes; \<open>None\<close> is
  a block that was never written.\<close>

definition udt_session_recv :: "('w, 'e) senv_scheme \<Rightarrow> nat \<Rightarrow> (('w, 'z) tb_state_scheme, int \<times> bool) prog" where
  "udt_session_recv E p =
     cbind (load_session (Some p)) (\<lambda>r.
     cbind (do_sys E (Udt (Udt_recv (s_sock_d r) (s_pack_size r)))) (\<lambda>a.
     let rc = to_int (a_rc a) in
     cdo [store_session (Some p) (\<lambda>r. r\<lparr>s_data := map_option (overwrite (a_bytes a)) (s_data r)\<rparr>)]
       (if rc = UDT_ERROR
        then cbind (do_sys E (Udt Udt_lasterror)) (\<lambda>e. cret (rc, a_rc e \<noteq> ECONNLOST))
        else cdo [store_session (Some p) (\<lambda>r. r\<lparr>s_total_bytes := s_total_bytes r + rc\<rparr>)] (cret (rc, False)))))"

definition udt_close_session :: "('w, 'e) senv_scheme \<Rightarrow> nat \<Rightarrow> (('w, 'z) tb_state_scheme, unit) prog" where
  "udt_close_session E p =
     cseq [store_session (Some p) (\<lambda>r. r\<lparr>s_stat_lock := True\<rparr>),
           cbind (load_session (Some p)) (\<lambda>r. cvoid (do_sys E (Udt (Udt_close (s_sock_d r))))),
           store_session (Some p) (\<lambda>r. r\<lparr>s_status := SESSION_DISCONNECTED\<rparr>)]"

definition udt_count_down :: "('w, 'e) senv_scheme \<Rightarrow> nat \<Rightarrow> (('w, 'z) tb_state_scheme, unit) prog" where
  "udt_count_down E p =
     cbind (load_session (Some p)) (\<lambda>r.
     cbind (cderef Null_Deref (s_other_info r)) (\<lambda>_.
     cbind (cget (\<lambda>s. l_session_list (lst s))) (\<lambda>sl.
     cbind (tb_session_list_dec sl) (\<lambda>(n, sl').
     cdo [set_l (\<lambda>l. l\<lparr>l_session_list := sl'\<rparr>)]
       (cwhen (n = 0)
          (cseq [tb_log_session_info E (Some p) ''Last session, exiting'' LOG_INFO 0,
                 cbind (cderef Null_Deref (sl_userdata sl')) (\<lambda>_.
                   set_l (\<lambda>l. l\<lparr>l_command := TB_EXIT\<rparr>))]))))))"

definition tb_udt_m_server_conn ::
  "('w, 'e) senv_scheme \<Rightarrow> nat \<Rightarrow> nat \<Rightarrow> (('w, 'z) tb_state_scheme, int option) prog" where
  "tb_udt_m_server_conn E fuel p =
     cdo [store_session (Some p) (\<lambda>r. r\<lparr>s_status := SESSION_CONNECTED\<rparr>),
          start_timer E (Some p) s_transfer_t put_transfer]
       (cbind (udt_session_recv E p) (\<lambda>l0.
        cbind (cwhile fuel (\<lambda>l. cret (fst l \<noteq> 0 \<and> fst l \<noteq> UDT_ERROR)) (\<lambda>_. udt_session_recv E p) l0) (\<lambda>l.
        if snd l
        then cdo [udt_close_session E p, store_session (Some p) (\<lambda>r. r\<lparr>s_stat_lock := False\<rparr>)] (cret (Some (- 1)))
        else cdo [finish_timer E (Some p) s_transfer_t put_transfer,
                  udt_close_session E p,
                  udt_count_down E p,
                  store_session (Some p) (\<lambda>r. r\<lparr>s_stat_lock := False\<rparr>)]
               (cret None))))"

text \<open>One turn of the loop that takes in the connections that wait.\<close>

definition udt_accept_one :: "('w, 'e) senv_scheme \<Rightarrow> (('w, 'z) tb_state_scheme, bool) prog" where
  "udt_accept_one E =
     cbind (tb_create_session E) (\<lambda>p.
     cbind (cget lst) (\<lambda>l.
     cbind (do_sys E (Udt (Udt_accept (l_sock_d l)))) (\<lambda>a.
     cdo [store_session (Some p) (\<lambda>r. r\<lparr>s_sock_d := a_rc a,
            s_addr_in := (if a_rc a = UDT_ERROR then s_addr_in r else Some (a_peer a))\<rparr>)]
       (if a_rc a = UDT_ERROR then cdo [tb_destroy_session (Some p)] (cret False)
        else cdo [cbind (load_session (Some p)) (\<lambda>r.
                    store_stats (s_stats r) (\<lambda>st. st\<lparr>st_protocol := p_protocol (l_protocol l)\<rparr>)),
                  store_session (Some p) (\<lambda>r. r\<lparr>s_pack_size := l_bufsize l\<rparr>),
                  cbind (cmalloc E (to_size (l_bufsize l))) (\<lambda>d. store_session (Some p) (\<lambda>r. r\<lparr>s_data := d\<rparr>)),
                  cbind (do_sys E (Udt (Udt_setsockopt (a_rc a) UDT_RCVSYN 1))) (\<lambda>o1. cwhen (a_rc o1 < 0) (tb_abort E)),
                  cbind (tb_session_add (l_session_list l) (Some p)) (\<lambda>sl.
                    set_l (\<lambda>l. l\<lparr>l_session_list := sl\<rparr>)),
                  cbind (cget (\<lambda>s. l_session_list (lst s))) (\<lambda>sl.
                    cbind (tb_session_list_inc sl) (\<lambda>(_, sl'). set_l (\<lambda>l. l\<lparr>l_session_list := sl'\<rparr>))),
                  store_session (Some p) (\<lambda>r. r\<lparr>s_other_info := Some Ref_session_list\<rparr>),
                  cbind (do_sys E (Posix (Thread_create Start_tb_udt_m_server_conn p))) (\<lambda>t.
                    store_session (Some p) (\<lambda>r. r\<lparr>s_thread := Some (Thread_Id (a_val t))\<rparr>)),
                  cwhen (l_status l = TB_LISTENING)
                    (cseq [set_l (\<lambda>l. l\<lparr>l_status := TB_CONNECTED\<rparr>),
                           l_start_transfer E,
                           cbind (load_session (Some p)) (\<lambda>r.
                             set_l (\<lambda>l. l\<lparr>l_stats := (l_stats l)\<lparr>st_n_stats := s_stats r\<rparr>\<rparr>))])]
               (cret True)))))"

definition tb_udt_event :: "('w, 'e) senv_scheme \<Rightarrow> nat \<Rightarrow> (('w, 'z) tb_state_scheme, int) prog" where
  "tb_udt_event E fuel = cdo [cvoid (cwhile fuel cret (\<lambda>_. udt_accept_one E) True)] (cret 0)"

definition tb_udt_m_server ::
  "('w, 'e) lenv_scheme \<Rightarrow> (('w, 'z) tb_state_scheme, unit) prog \<Rightarrow> nat \<Rightarrow> nat \<Rightarrow> (('w, 'z) tb_state_scheme, int) prog" where
  "tb_udt_m_server E others polls fuel =
     cbind (cget lst) (\<lambda>l.
     cdo [cvoid (do_sys E (Udt (Udt_listen (l_sock_d l) 10))),
          set_l (\<lambda>l. l\<lparr>l_status := TB_LISTENING\<rparr>),
          cbind (do_sys E (Udt (Udt_setsockopt (l_sock_d l) UDT_RCVSYN 0))) (\<lambda>a. cwhen (a_rc a < 0) (tb_abort E))]
       (cbind (do_sys E (Udt Udt_epoll_create)) (\<lambda>ep.
        cdo [cbind (do_sys E (Udt (Udt_epoll_add_usock (a_rc ep) (l_sock_d l) (EPOLLIN OR EPOLLET)))) (\<lambda>a.
               cwhen (a_rc a < 0) (tb_abort E)),
             set_l (\<lambda>l. l\<lparr>l_session_list := (l_session_list l)\<lparr>sl_userdata := Some Ref_command\<rparr>\<rparr>),
             cvoid (cwhile polls (\<lambda>_. cdo [others] (in_loop E))
               (\<lambda>_. cbind (do_sys E (Udt (Udt_epoll_wait (a_rc ep) 50))) (\<lambda>a.
                  cwhen (0 < a_rc a) (cvoid (tb_udt_event E fuel)))) ()),
             l_finish_transfer E,
             log_l_info E ''exit main loop'',
             trylock_stat,
             cbind (cget lst) (\<lambda>l. cvoid (do_sys E (Udt (Udt_close (l_sock_d l))))),
             set_l (\<lambda>l. l\<lparr>l_status := TB_DISCONNECTED\<rparr>),
             cvoid (do_sys E (Udt Udt_cleanup)),
             unlock_stat]
          (cget (\<lambda>s. to_int (l_total_tx_rx (lst s)))))))"


section \<open>The client of one connection\<close>

definition udt_client_more :: "('w, 'e) env_scheme \<Rightarrow> int \<Rightarrow> (('w, 'z) tb_state_scheme, bool) prog" where
  "udt_client_more E sz =
     cbind (cget lst) (\<lambda>l. if l_total_tx_rx l < l_file_size l then not_ended E else cret False)"

definition udt_client_body :: "('w, 'e) env_scheme \<Rightarrow> int \<Rightarrow> (('w, 'z) tb_state_scheme, int) prog" where
  "udt_client_body E sz =
     cbind (cget lst) (\<lambda>l.
     let rmbytes = to_int (l_file_size l - l_total_tx_rx l);
         sz' = (if rmbytes < l_bufsize l then rmbytes else sz)
     in cbind (ptr_add (l_data l) (l_total_tx_rx l)) (\<lambda>data.
        cbind (cread data sz') (\<lambda>bs.
        cbind (do_sys E (Udt (Udt_send (l_sock_d l) bs))) (\<lambda>a.
        let rc = to_int (a_rc a) in
        cdo [cwhen (rc = UDT_ERROR) (tb_abort E),
             set_l (\<lambda>l. l\<lparr>l_total_tx_rx := l_total_tx_rx l + rc\<rparr>)] (cret sz')))))"

definition tb_udt_client :: "('w, 'e) env_scheme \<Rightarrow> nat \<Rightarrow> (('w, 'z) tb_state_scheme, int) prog" where
  "tb_udt_client E fuel =
     cdo [l_start_connect E,
          cvoid (tb_connect E),
          l_finish_connect E,
          set_l (\<lambda>l. l\<lparr>l_status := TB_CONNECTED\<rparr>),
          l_start_transfer E,
          cbind (cget lst) (\<lambda>l. cvoid (cwhile fuel (udt_client_more E) (udt_client_body E) (l_bufsize l))),
          l_finish_transfer E,
          trylock_stat,
          LOG E ''Closing Connection'' LOG_INFO,
          cbind (cget lst) (\<lambda>l. cvoid (do_sys E (Udt (Udt_close (l_sock_d l))))),
          set_l (\<lambda>l. l\<lparr>l_sock_d := - 1, l_status := TB_DISCONNECTED\<rparr>),
          cvoid (do_sys E (Udt Udt_cleanup)),
          unlock_stat]
       (cget (\<lambda>s. to_int (l_total_tx_rx (lst s))))"


section \<open>The client of several connections\<close>

text \<open>A session is created, given a socket and its part of the data, put on the list, and started.\<close>

definition udt_session_start :: "('w, 'e) lenv_scheme \<Rightarrow> tb_listener_t \<Rightarrow> nat \<Rightarrow> (('w, 'z) tb_state_scheme, unit) prog" where
  "udt_session_start E l p =
     cseq [cbind (tb_session_add (l_session_list l) (Some p)) (\<lambda>sl. set_l (\<lambda>l. l\<lparr>l_session_list := sl\<rparr>)),
           cbind (do_sys E (Posix (Thread_create Start_tb_udt_m_connection p))) (\<lambda>t.
             store_session (Some p) (\<lambda>r. r\<lparr>s_thread := Some (Thread_Id (a_val t))\<rparr>)),
           cbind (load_session (Some p)) (\<lambda>r.
             set_l (\<lambda>l. if st_n_stats (l_stats l) = None
                        then l\<lparr>l_stats := (l_stats l)\<lparr>st_n_stats := s_stats r\<rparr>\<rparr> else l))]"

definition udt_session_setup :: "('w, 'e) lenv_scheme \<Rightarrow> tb_listener_t \<Rightarrow> int \<Rightarrow> nat \<Rightarrow> (('w, 'z) tb_state_scheme, unit) prog" where
  "udt_session_setup E l x p =
     cbind (load_session (Some p)) (\<lambda>r.
     cbind (cderef Null_Deref (s_addr_info r)) (\<lambda>ai.
     cbind (do_sys E (Udt (Udt_socket (ai_family ai) (ai_socktype ai) (ai_protocol ai)))) (\<lambda>a.
     cdo [store_session (Some p) (\<lambda>r. r\<lparr>s_sock_d := a_rc a\<rparr>),
          cwhen (a_rc a = - 1) (tb_abort E)]
       (cbind (ptr_add (l_data l) (l_file_size l sdiv num_conn * x)) (\<lambda>data.
        cdo [store_session (Some p) (\<lambda>r. r\<lparr>s_l_status := Some Ref_status, s_l_txrx := Some Ref_txrx,
               s_data := data, s_data_size := to_size (l_file_size l sdiv num_conn)\<rparr>),
             store_stats (s_stats r) (\<lambda>st. st\<lparr>st_protocol := p_protocol (l_protocol l)\<rparr>),
             store_session (Some p) (\<lambda>r. r\<lparr>s_n_session := None, s_pack_size := l_bufsize l\<rparr>)]
          (udt_session_start E l p))))))"

definition udt_client_session :: "('w, 'e) lenv_scheme \<Rightarrow> int \<Rightarrow> (('w, 'z) tb_state_scheme, int) prog" where
  "udt_client_session E x =
     cbind (cget lst) (\<lambda>l.
     cbind (tb_create_session_full E (l_bind_address l) (l_bind_port l) SOCK_STREAM 0) (\<lambda>q.
     cdo [cwhen (q = None) (tb_abort E)]
       (cbind (cderef Null_Deref q) (\<lambda>p. cdo [udt_session_setup E l x p] (cret (x + 1))))))"

definition udt_join_session :: "('w, 'e) env_scheme \<Rightarrow> nat option \<Rightarrow> (('w, 'z) tb_state_scheme, nat option) prog" where
  "udt_join_session E cur =
     cbind (load_session cur) (\<lambda>r.
     case s_thread r of
       Some (Thread_Id t) \<Rightarrow>
         cdo [cvoid (do_sys E (Posix (Thread_join t)))]
           (cbind (load_session cur) (\<lambda>r.
            if s_stat_lock r then chalt Blocked
            else cdo [store_session cur (\<lambda>r. r\<lparr>s_stat_lock := True\<rparr>),
                      cvoid (do_sys E (Udt (Udt_close (s_sock_d r)))),
                      store_session cur (\<lambda>r. r\<lparr>s_stat_lock := False\<rparr>)]
                   (cbind (load_session cur) (\<lambda>r. cret (s_n_session r)))))
     | _ \<Rightarrow> chalt (Undefined Uninitialised))"

definition tb_udt_m_client ::
  "('w, 'e) lenv_scheme \<Rightarrow> (('w, 'z) tb_state_scheme, unit) prog \<Rightarrow> nat \<Rightarrow> nat \<Rightarrow> (('w, 'z) tb_state_scheme, int) prog" where
  "tb_udt_m_client E others waits fuel =
     cdo [cvoid (cwhile 4 (\<lambda>x. cret (x < num_conn)) (udt_client_session E) 0),
          cvoid (cwhile waits
            (\<lambda>_. cdo [others] (cbind (cget (\<lambda>s. sl_start (l_session_list (lst s)))) (\<lambda>st.
                    cbind (load_session st) (\<lambda>r. cret (s_status r = SESSION_CREATED)))))
            (\<lambda>_. cret ()) ()),
          l_start_transfer E,
          set_l (\<lambda>l. l\<lparr>l_status := TB_CONNECTED\<rparr>),
          cbind (cget (\<lambda>s. sl_start (l_session_list (lst s)))) (\<lambda>st.
            cvoid (cwhile fuel (\<lambda>cur. cret (cur \<noteq> None)) (\<lambda>cur. cdo [others] (udt_join_session E cur)) st)),
          l_finish_transfer E,
          lock_stat,
          set_l (\<lambda>l. l\<lparr>l_status := TB_DISCONNECTED\<rparr>),
          cvoid (do_sys E (Udt Udt_cleanup)),
          unlock_stat]
       (cget (\<lambda>s. to_int (l_total_tx_rx (lst s))))"

text \<open>The thread of a session; the second component of the locals says that a send has failed.\<close>

definition udt_connection_body ::
  "('w, 'e) senv_scheme \<Rightarrow> nat \<Rightarrow> int \<times> bool \<Rightarrow> (('w, 'z) tb_state_scheme, int \<times> bool) prog" where
  "udt_connection_body E p l =
     cbind (load_session (Some p)) (\<lambda>r.
     let rmbytes = to_int (to_size (s_data_size r - s_total_bytes r));
         sz = (if rmbytes < s_pack_size r then rmbytes else fst l)
     in cbind (ptr_add (s_data r) (s_total_bytes r)) (\<lambda>data.
        cbind (cread data sz) (\<lambda>bs.
        cbind (do_sys E (Udt (Udt_send (s_sock_d r) bs))) (\<lambda>a.
        if to_int (a_rc a) = UDT_ERROR then cret (sz, True)
        else cdo [store_session (Some p) (\<lambda>r. r\<lparr>s_total_bytes := s_total_bytes r + to_int (a_rc a)\<rparr>)]
               (cret (sz, False))))))"

definition udt_connection_transfer :: "('w, 'e) senv_scheme \<Rightarrow> nat \<Rightarrow> nat \<Rightarrow> (('w, 'z) tb_state_scheme, int) prog" where
  "udt_connection_transfer E fuel p =
     cbind (load_session (Some p)) (\<lambda>r.
     cbind (cwhile fuel (stream_connection_more p) (udt_connection_body E p) (s_pack_size r, False)) (\<lambda>l.
     if snd l then cret (- 1)
     else cdo [finish_timer E (Some p) s_transfer_t put_transfer,
               store_session (Some p) (\<lambda>r. r\<lparr>s_status := SESSION_COMPLETE\<rparr>),
               tb_print_times (Some p)] (cret 0)))"

definition tb_udt_m_connection :: "('w, 'e) senv_scheme \<Rightarrow> nat \<Rightarrow> nat \<Rightarrow> (('w, 'z) tb_state_scheme, int) prog" where
  "tb_udt_m_connection E fuel p =
     cdo [start_timer E (Some p) s_connect_t put_connect]
       (cbind (load_session (Some p)) (\<lambda>r.
        cbind (cderef Null_Deref (s_addr_info r)) (\<lambda>ai.
        cbind (do_sys E (Udt (Udt_connect (s_sock_d r) (ai_addr ai)))) (\<lambda>a.
        if a_rc a = - 1 then cret (- 1)
        else cdo [finish_timer E (Some p) s_connect_t put_connect,
                  store_session (Some p) (\<lambda>r. r\<lparr>s_status := SESSION_CONNECTED\<rparr>),
                  start_timer E (Some p) s_transfer_t put_transfer]
               (udt_connection_transfer E fuel p)))))"

end
