(* ===== verification/TB_Udt_Client.thy ===== *)
theory TB_Udt_Client
  imports TB_Udt TB_Stream_Client TB_Stream_Sessions
begin

text \<open>
  Correctness of the UDT clients: the loop of the client and that of a session's thread are
  transfer loops. The client, unlike the stream client, looks at its command between two
  sends, so it also ends when the user interrupts it.
\<close>

section \<open>The client of one connection\<close>

definition udt_ready :: "int \<Rightarrow> byte list \<Rightarrow> ('w, 'z) tb_state_scheme \<Rightarrow> bool" where
  "udt_ready fd data s \<longleftrightarrow> f_close (l_protocol (lst s)) \<noteq> None \<and> f_connect (l_protocol (lst s)) = Some Fn_udt_connect \<and>
     l_f_abort (lst s) \<noteq> None \<and> l_data (lst s) = Some data \<and> l_file_size (lst s) = int (length data) \<and>
     in_int (int (length data)) \<and> 0 < l_bufsize (lst s) \<and> in_int (l_bufsize (lst s)) \<and>
     l_sock_d (lst s) = fd \<and> l_addr_info (lst s) \<noteq> None"

definition udt_inv :: "('w, 'e) env_scheme \<Rightarrow> int \<Rightarrow> byte list \<Rightarrow> int \<Rightarrow> ('w, 'z) tb_state_scheme \<Rightarrow> bool" where
  "udt_inv E fd data sz s \<longleftrightarrow> send_contract E \<and> udt_ready fd data s \<and>
     0 \<le> l_total_tx_rx (lst s) \<and> l_total_tx_rx (lst s) \<le> int (length data) \<and>
     sent_on fd (trace s) = take (nat (l_total_tx_rx (lst s))) data \<and>
     (sz = l_bufsize (lst s) \<or> int (length data) - l_total_tx_rx (lst s) < l_bufsize (lst s))"

definition ended :: "('w, 'z) tb_state_scheme \<Rightarrow> bool" where
  "ended s \<longleftrightarrow> l_command (lst s) = TB_ABORT \<or> l_command (lst s) = TB_EXIT"

lemma udt_inv_frame:
  "udt_inv E fd data sz s \<Longrightarrow> sent_on fd (trace s') = sent_on fd (trace s) \<Longrightarrow>
    lst s' = (lst s)\<lparr>l_status := st, l_transfer_time := t, l_connect_time := t', l_command := c\<rparr> \<Longrightarrow> udt_inv E fd data sz s'"
  by (simp add: udt_inv_def udt_ready_def)

lemma udt_not_ended:
  assumes "udt_inv E fd data sz s"
  shows "wp (not_ended E) (\<lambda>go s'. udt_inv E fd data sz s' \<and> sent_on fd (trace s') = sent_on fd (trace s) \<and>
    l_total_tx_rx (lst s') = l_total_tx_rx (lst s) \<and> (\<not> go \<longrightarrow> ended s')) R s"
  using assms
  by (auto simp: not_ended_def read_command_def sig_action_def wp_rules udt_inv_def udt_ready_def ended_def
      split: prod.splits)

lemma udt_client_body_sends:
  fixes s :: "('w, 'z) tb_state_scheme"
  assumes inv: "udt_inv E fd data sz s" and more: "l_total_tx_rx (lst s) < int (length data)"
  shows "wp (udt_client_body E sz) (\<lambda>sz' s'. udt_inv E fd data sz' s' \<and>
      length (sent_on fd (trace s)) < length (sent_on fd (trace s'))) (client_stops fd data) s"
proof -
  let ?l = "lst s" and ?t = "l_total_tx_rx (lst s)"
  let ?rm = "int (length data) - ?t"
  define z where "z = (if ?rm < l_bufsize ?l then ?rm else sz)"
  define bs where "bs = take (nat z) (drop (nat ?t) data)"
  have rdy: "f_close (l_protocol ?l) \<noteq> None" "l_data ?l = Some data"
      "l_file_size ?l = int (length data)" "in_int (int (length data))" "0 < l_bufsize ?l"
      "in_int (l_bufsize ?l)" "l_sock_d ?l = fd" "0 \<le> ?t" "send_contract E"
      "sent_on fd (trace s) = take (nat ?t) data" "sz = l_bufsize ?l \<or> ?rm < l_bufsize ?l"
    using inv by (auto simp: udt_inv_def udt_ready_def)
  note piece = next_piece [OF rdy(8) more rdy(4-6,11) take_all [OF order_refl, symmetric] z_def bs_def]
  obtain a w where a: "sys E (Udt (Udt_send fd bs)) (world s) = (a, w)" by force
  let ?s = "\<lambda>r. s\<lparr>world := w, trace := (Udt (Udt_send fd bs), r) # trace s\<rparr>"
  let ?Q = "\<lambda>sz' s'. udt_inv E fd data sz' s' \<and> length (sent_on fd (trace s)) < length (sent_on fd (trace s'))"
  have "wp (cdo [cwhen (to_int (a_rc a) = UDT_ERROR) (tb_abort E),
      set_l (\<lambda>l. l\<lparr>l_total_tx_rx := l_total_tx_rx l + to_int (a_rc a)\<rparr>)] (cret z)) ?Q (client_stops fd data) (?s (a_rc a))"
  proof (cases "a_rc a = - 1")
    case True
    have "wp (tb_abort E) Q' (client_stops fd data) (?s (a_rc a))" for Q' :: "unit \<Rightarrow> _"
      using rdy(1,10) True by (intro wp_tb_abort) (auto simp: client_stops_def)
    with True show ?thesis by (simp add: wp_rules UDT_ERROR_def to_int_id in_int_def)
  next
    case False
    then have r: "1 \<le> a_rc a" "a_rc a \<le> int (length bs)" using send_contractD(2) [OF rdy(9) piece(10) a] by auto
    then have "to_int (a_rc a) = a_rc a" using piece(4,6,9) by (intro to_int_id) (auto simp: in_int_def)
    then show ?thesis
      using inv r piece(4,5,8,9) piece(12) [of "a_rc a"] rdy(7,8,10)
      by (auto simp: wp_rules UDT_ERROR_def udt_inv_def udt_ready_def)
  qed
  moreover have "cread (Some (drop (nat ?t) data)) z = (cret bs :: (('w, 'z) tb_state_scheme, byte list) prog)"
    by (rule piece)
  ultimately show ?thesis
    using rdy(2,3,7,8) a to_int_id [OF piece(1)] more
    by (simp add: udt_client_body_def wp_cbind wp_cget wp_do_sys wp_cret Let_def ptr_add_def z_def [symmetric]
        split del: if_split cong del: if_weak_cong)
qed

interpretation udt_client: transfer_loop
  "udt_client_more E" "udt_client_body E" "udt_inv E fd data" "\<lambda>_. False" ended
  "\<lambda>s. sent_on fd (trace s)" data "client_stops fd data"
  for E :: "('w, 'e) env_scheme" and fd :: int and data :: "byte list"
proof
  fix sz and s :: "('w, 'z) tb_state_scheme"
  assume inv: "udt_inv E fd data sz s"
  then have len: "int (length (sent_on fd (trace s))) = l_total_tx_rx (lst s)"
    and size: "l_file_size (lst s) = int (length data)" "l_total_tx_rx (lst s) \<le> int (length data)"
    by (auto simp: udt_inv_def udt_ready_def)
  show "\<exists>rest. data = sent_on fd (trace s) @ rest"
    using inv by (metis udt_inv_def append_take_drop_id)
  show "wp (udt_client_more E sz) (\<lambda>go s'. udt_inv E fd data sz s' \<and>
      sent_on fd (trace s') = sent_on fd (trace s) \<and> (if go then \<not> False \<and> length (sent_on fd (trace s)) < length data
       else False \<or> length (sent_on fd (trace s)) = length data \<or> ended s')) (client_stops fd data) s"
  proof (cases "l_total_tx_rx (lst s) < int (length data)")
    case True
    then show ?thesis using len size
      by (auto simp: udt_client_more_def wp_rules intro!: wp_mono [OF udt_not_ended [OF inv]] split: if_splits)
  next
    case False
    then show ?thesis using len size inv by (auto simp: udt_client_more_def wp_rules)
  qed
  assume "length (sent_on fd (trace s)) < length data"
  with len udt_client_body_sends [OF inv]
  show "wp (udt_client_body E sz) (\<lambda>sz' s'. udt_inv E fd data sz' s' \<and>
      (False \<or> length (sent_on fd (trace s)) < length (sent_on fd (trace s')))) (client_stops fd data) s"
    by simp
qed

lemma udt_timers:
  "udt_inv E fd data sz s \<Longrightarrow> wp (l_start_connect E) (\<lambda>_. udt_inv E fd data sz) R s"
  "udt_inv E fd data sz s \<Longrightarrow> wp (l_finish_connect E) (\<lambda>_. udt_inv E fd data sz) R s"
  "udt_inv E fd data sz s \<Longrightarrow> wp (l_start_transfer E) (\<lambda>_. udt_inv E fd data sz) R s"
  by (auto simp: l_start_connect_def l_finish_connect_def l_start_transfer_def
      wp_rules udt_inv_def udt_ready_def split: prod.splits)

lemma udt_connects:
  assumes inv: "udt_inv E fd data sz s"
  shows "wp (tb_connect E) (\<lambda>_. udt_inv E fd data sz) (client_stops fd data) s"
proof -
  from inv obtain ai where ai: "l_addr_info (lst s) = Some ai" "f_connect (l_protocol (lst s)) = Some Fn_udt_connect"
      "f_close (l_protocol (lst s)) \<noteq> None" "l_f_abort (lst s) \<noteq> None"
      "\<exists>n. sent_on fd (trace s) = take n data"
    by (auto simp: udt_inv_def udt_ready_def)
  obtain a w where a: "sys E (Udt (Udt_connect (l_sock_d (lst s)) (ai_addr ai))) (world s) = (a, w)" by force
  let ?s = "\<lambda>r. s\<lparr>world := w, trace := (Udt (Udt_connect (l_sock_d (lst s)) (ai_addr ai)), r) # trace s\<rparr>"
  have bad: "wp (tb_error E info e) (\<lambda>_. wp (cseq [call_f_abort E]) Q (client_stops fd data)) (client_stops fd data) (?s r)"
    for info e Q r
    using ai(3-5) by (intro wp_error_abort) (auto simp: client_stops_def)
  have good: "udt_inv E fd data sz (?s r)" for r using inv by (simp add: udt_inv_def udt_ready_def)
  show ?thesis
    using ai(1,2) a good by (cases "a_rc a = - 1") (simp_all add: tb_connect_def wp_rules bad)
qed

text \<open>What the loop leaves, and what the steps after it keep.\<close>

definition udt_sent :: "int \<Rightarrow> byte list \<Rightarrow> ('w, 'z) tb_state_scheme \<Rightarrow> bool" where
  "udt_sent fd data s \<longleftrightarrow> in_int (int (length data)) \<and> 0 \<le> l_total_tx_rx (lst s) \<and> l_total_tx_rx (lst s) \<le> int (length data) \<and>
     sent_on fd (trace s) = take (nat (l_total_tx_rx (lst s))) data \<and>
     (l_total_tx_rx (lst s) = int (length data) \<or> ended s)"

lemma udt_inv_sent: "udt_inv E fd data sz s \<Longrightarrow> sent_on fd (trace s) = data \<or> ended s \<Longrightarrow> udt_sent fd data s"
  using take_whole [of "l_total_tx_rx (lst s)" data] by (auto simp: udt_inv_def udt_ready_def udt_sent_def)

lemma udt_sent_frame:
  "udt_sent fd data s \<Longrightarrow> sent_on fd (trace s') = sent_on fd (trace s) \<Longrightarrow>
    l_total_tx_rx (lst s') = l_total_tx_rx (lst s) \<Longrightarrow> l_command (lst s') = l_command (lst s) \<Longrightarrow> udt_sent fd data s'"
  by (simp add: udt_sent_def ended_def)

lemma wp_tb_udt_client:
  assumes con: "send_contract E" and rdy: "udt_ready fd data s"
    and zero: "l_total_tx_rx (lst s) = 0" and none: "sent_on fd (trace s) = []" and fuel: "length data \<le> fuel"
  shows "wp (tb_udt_client E fuel) (\<lambda>rc s'. udt_sent fd data s' \<and> rc = l_total_tx_rx (lst s') \<and>
      l_status (lst s') = TB_DISCONNECTED \<and> l_sock_d (lst s') = - 1 \<and> \<not> l_stat_lock (lst s')) (client_stops fd data) s"
proof -
  let ?sz = "l_bufsize (lst s)"
  have start: "udt_inv E fd data ?sz s" using con rdy zero none by (simp add: udt_inv_def)
  have sz: "udt_inv E fd data ?sz t \<Longrightarrow> udt_inv E fd data (l_bufsize (lst t)) t" for t
    by (simp add: udt_inv_def)
  have loop: "wp (cbind (cget lst) (\<lambda>l. cvoid (cwhile fuel (udt_client_more E) (udt_client_body E) (l_bufsize l))))
      (\<lambda>_. udt_sent fd data) (client_stops fd data) t" if "udt_inv E fd data ?sz t" for t
    using udt_client.loop_ends [OF sz [OF that] fuel]
    by (auto simp: wp_rules elim!: wp_mono intro: udt_inv_sent)
  have log: "wp (LOG E info ty) (\<lambda>_ s'. udt_sent fd data s') (client_stops fd data) t"
    if "udt_sent fd data t" for t :: "('a, 'c) tb_state_scheme" and info ty
    using that by (intro wp_LOG) (auto simp: udt_sent_def ended_def client_stops_def ends_by_abort_def dest!: stdio_run_sent)
  show ?thesis
    unfolding tb_udt_client_def wp_cdo
    apply (rule wp_step [OF udt_timers(1) [OF start]])
    apply (rule wp_step, simp only: wp_cvoid, erule udt_connects)
    apply (rule wp_step, erule udt_timers)
    apply (rule wp_step [where I = "udt_inv E fd data ?sz"], simp add: wp_rules udt_inv_def udt_ready_def)
    apply (rule wp_step, erule udt_timers)
    apply (rule wp_step, erule loop)
    apply (rule wp_step [where I = "udt_sent fd data"])
     apply (auto simp: l_finish_transfer_def wp_rules udt_sent_def ended_def split: prod.splits)[1]
    apply (rule wp_step [where I = "udt_sent fd data"])
     apply (simp add: trylock_stat_def wp_rules udt_sent_def ended_def)
    apply (rule wp_step, erule log)
    apply (auto simp: wp_rules unlock_stat_def udt_sent_def ended_def split: prod.splits
        intro!: to_int_id simp: in_int_def)
    done
qed


section \<open>The thread of a session\<close>

lemma udt_connection_piece:
  "udt_connection_body E = send_piece E (\<lambda>fd bs. Udt (Udt_send fd bs)) id"
  by (simp add: fun_eq_iff udt_connection_body_def send_piece_def UDT_ERROR_def)

interpretation udt_connection: transfer_loop
  "stream_connection_more p" "udt_connection_body E p"
  "conn_inv E p fd data" snd "\<lambda>_. False" "\<lambda>s. sent_on fd (trace s)" data "\<lambda>_ _. False"
  for E :: "('w, 'e) senv_scheme" and p :: nat and fd :: int and data :: "byte list"
  unfolding udt_connection_piece by (rule send_piece_loop) (simp add: send_call_def)

lemma udt_conn_transfers:
  fixes s :: "('w, 'z) tb_state_scheme" and E :: "('w, 'e) senv_scheme"
  assumes inv: "conn_inv E p fd data (conn_pack p s, False) s" and fuel: "length data \<le> fuel"
  shows "wp (udt_connection_transfer E fuel p) (conn_result p fd data) R s"
proof -
  from inv obtain r where r: "sess s p = Some r" by (auto simp: conn_inv_def conn_ready_def)
  then have inv': "conn_inv E p fd data (s_pack_size r, False) s" using inv by (simp add: conn_pack_def)
  have "wp (if snd l then cret (- 1)
      else cdo [finish_timer E (Some p) s_transfer_t put_transfer,
                store_session (Some p) (\<lambda>r. r\<lparr>s_status := SESSION_COMPLETE\<rparr>),
                tb_print_times (Some p)] (cret 0)) (conn_result p fd data) R t"
    if t: "conn_inv E p fd data l t" "snd l \<or> sent_on fd (trace t) = data" for l and t :: "('w, 'z) tb_state_scheme"
  proof (cases "snd l")
    case True
    then show ?thesis using t by (auto simp: wp_cret conn_result_def conn_inv_def)
  next
    case False
    then have "conn_total p t = int (length data)"
      using t take_whole [of "conn_total p t" data] by (simp add: conn_inv_def)
    moreover obtain r where "sess t p = Some r" "s_connect_t r \<noteq> None" "s_transfer_t r \<noteq> None"
      using t by (auto simp: conn_inv_def conn_ready_def)
    ultimately show ?thesis using False t
      by (auto simp: finish_timer_def tb_print_times_def wp_rules conn_result_def conn_total_def split: prod.splits)
  qed
  then show ?thesis
    using r by (auto simp: udt_connection_transfer_def wp_cbind wp_load_session
        intro!: wp_mono [OF udt_connection.loop_ends [OF inv' fuel]])
qed

lemma wp_tb_udt_m_connection:
  fixes s :: "('w, 'z) tb_state_scheme" and E :: "('w, 'e) senv_scheme"
  assumes con: "send_contract E" and rdy: "conn_ready p fd data s"
    and zero: "conn_total p s = 0" and none: "sent_on fd (trace s) = []" and fuel: "length data \<le> fuel"
  shows "wp (tb_udt_m_connection E fuel p) (conn_result p fd data) (\<lambda>_ _. False) s"
proof -
  let ?I = "conn_inv E p fd data (conn_pack p s, False)"
  have start: "?I s" using con rdy zero none by (simp add: conn_inv_def)
  have pack: "?I t \<Longrightarrow> conn_inv E p fd data (conn_pack p t, False) t" for t :: "('w, 'z) tb_state_scheme"
    by (simp add: conn_inv_def)
  let ?rest = "cdo [finish_timer E (Some p) s_connect_t put_connect,
      store_session (Some p) (\<lambda>r. r\<lparr>s_status := SESSION_CONNECTED\<rparr>),
      start_timer E (Some p) s_transfer_t put_transfer] (udt_connection_transfer E fuel p)"
  have rest: "wp ?rest (conn_result p fd data) (\<lambda>_ _. False) t" if "?I t" for t :: "('w, 'z) tb_state_scheme"
    unfolding wp_cdo
    apply (rule wp_step, rule conn_steps(2) [OF that])
    apply (rule wp_step, erule conn_steps(5))
    apply (rule wp_step, erule conn_steps(3))
    apply (unfold wp_cseq_Nil)
    apply (rule udt_conn_transfers [OF pack fuel], assumption)
    done
  show ?thesis
    unfolding tb_udt_m_connection_def wp_cdo
  proof (rule wp_step, rule conn_steps(1) [OF start], unfold wp_cseq_Nil)
    fix t :: "('w, 'z) tb_state_scheme" assume t: "?I t"
    then obtain r ai where r: "sess t p = Some r" "s_addr_info r = Some ai" "s_sock_d r = fd"
      by (auto simp: conn_inv_def conn_ready_def)
    obtain a w where a: "sys E (Udt (Udt_connect fd (ai_addr ai))) (world t) = (a, w)" by force
    let ?t = "\<lambda>c. t\<lparr>world := w, trace := (Udt (Udt_connect fd (ai_addr ai)), c) # trace t\<rparr>"
    have t': "?I (?t c)" for c using t by (simp add: conn_inv_def conn_ready_def conn_total_def conn_pack_def)
    have fail: "conn_result p fd data (- 1) (?t c)" for c
      using t by (auto simp: conn_result_def conn_inv_def)
    show "wp (cbind (load_session (Some p)) (\<lambda>r. cbind (cderef Null_Deref (s_addr_info r)) (\<lambda>ai.
        cbind (do_sys E (Udt (Udt_connect (s_sock_d r) (ai_addr ai)))) (\<lambda>a.
        if a_rc a = - 1 then cret (- 1) else ?rest)))) (conn_result p fd data) (\<lambda>_ _. False) t"
      using r a fail rest [OF t'] by (simp add: wp_cbind wp_load_session wp_cderef wp_do_sys wp_cret)
  qed
qed


section \<open>Properties\<close>

text \<open>C4: the UDT client sends its file in order. Whatever libudt answers, when it takes at least
  one byte or reports an error, and whenever the user interrupts, the client either returns
  with a beginning of its data taken, all of it unless it was told to end, the count right, the
  socket closed and the status disconnected; or its thread ends through an abort, and then
  too what was taken is a beginning. It runs into no undefined behaviour.\<close>

theorem udt_client_sends_file:
  assumes "send_contract E" and "udt_ready fd data s"
    and "l_total_tx_rx (lst s) = 0" and "sent_on fd (trace s) = []" and "length data \<le> fuel"
  shows "(\<exists>n s'. tb_udt_client E fuel s = Ok (int n) s' \<and> n \<le> length data \<and> sent_on fd (trace s') = take n data \<and>
      (n = length data \<or> l_command (lst s') \<in> {TB_ABORT, TB_EXIT}) \<and> l_total_tx_rx (lst s') = int n \<and>
      l_status (lst s') = TB_DISCONNECTED \<and> l_sock_d (lst s') = - 1 \<and> \<not> l_stat_lock (lst s')) \<or>
    (\<exists>h s'. tb_udt_client E fuel s = Halt h s' \<and> h \<in> {Thread_Exit, Blocked, Assert_Fail} \<and>
      (h = Thread_Exit \<longrightarrow> l_status (lst s') = TB_ABORTING) \<and> (\<exists>n. sent_on fd (trace s') = take n data))"
proof (cases "tb_udt_client E fuel s")
  case (Ok rc t)
  with wp_tb_udt_client [OF assms] have "udt_sent fd data t" "rc = l_total_tx_rx (lst t)"
    "l_status (lst t) = TB_DISCONNECTED \<and> l_sock_d (lst t) = - 1 \<and> \<not> l_stat_lock (lst t)"
    by (auto simp: wp_def)
  with Ok show ?thesis
    by (intro disjI1 exI [of _ "nat rc"] exI [of _ t]) (auto simp: udt_sent_def ended_def)
next
  case (Halt h t)
  with wp_tb_udt_client [OF assms] show ?thesis
    by (auto simp: wp_def client_stops_def ends_by_abort_def)
qed


end
