(* ===== verification/TB_Udt_Server.thy ===== *)
theory TB_Udt_Server
  imports TB_Udt_Client TB_Stream_Server
begin

text \<open>
  Correctness of the UDT server of one connection: it ends, it counts what it receives, and
  unlike the stream server it leaves its session alone once it has freed it.
\<close>

section \<open>What libudt does\<close>

text \<open>The bytes that receives brought; a receive that fails brings none.\<close>

fun udt_received :: "(syscall \<times> int) list \<Rightarrow> int" where
  "udt_received [] = 0"
| "udt_received ((c, r) # tr) = udt_received tr + (case c of Udt (Udt_recv f n) \<Rightarrow> if r = - 1 then 0 else r | _ \<Rightarrow> 0)"

text \<open>
  The peer ends its connection some time: \<open>m\<close> bounds how often a receive can still succeed.
  A receive fails or brings at most what it was given room for.
\<close>

definition udt_peer_ends :: "('w, 'e) env_scheme \<Rightarrow> ('w \<Rightarrow> nat) \<Rightarrow> bool" where
  "udt_peer_ends E m \<longleftrightarrow> (\<forall>c w. m (snd (sys E c w)) \<le> m w) \<and> (\<forall>w. m (snd (sigint E w)) \<le> m w) \<and>
     (\<forall>fd n w. let (a, w') = sys E (Udt (Udt_recv fd n)) w in
        a_rc a = - 1 \<or> 0 \<le> a_rc a \<and> a_rc a \<le> n \<and> m w' < m w)"

lemma udt_peer_endsD:
  assumes "udt_peer_ends E m"
  shows "sys E c w = (a, w') \<Longrightarrow> m w' \<le> m w" and "sigint E w = (b, w') \<Longrightarrow> m w' \<le> m w"
    and "sys E (Udt (Udt_recv fd n)) w = (a, w') \<Longrightarrow> a_rc a = - 1 \<or> 0 \<le> a_rc a \<and> a_rc a \<le> n \<and> m w' < m w"
proof -
  show "sys E c w = (a, w') \<Longrightarrow> m w' \<le> m w" and "sigint E w = (b, w') \<Longrightarrow> m w' \<le> m w"
    using assms unfolding udt_peer_ends_def by (metis snd_conv)+
  have "case sys E (Udt (Udt_recv fd n)) w of (a, w') \<Rightarrow> a_rc a = - 1 \<or> 0 \<le> a_rc a \<and> a_rc a \<le> n \<and> m w' < m w"
    by (rule spec [OF spec [OF spec [OF conjunct2 [OF conjunct2 [OF assms [unfolded udt_peer_ends_def Let_def]]]]]])
  then show "sys E (Udt (Udt_recv fd n)) w = (a, w') \<Longrightarrow> a_rc a = - 1 \<or> 0 \<le> a_rc a \<and> a_rc a \<le> n \<and> m w' < m w"
    by simp
qed


section \<open>Receiving\<close>

text \<open>\<open>n\<close> bounds the receives to come; \<open>f\<close> is the heap of sessions without the one at hand.\<close>

definition udt_serving :: "('w \<Rightarrow> nat) \<Rightarrow> nat \<Rightarrow> (nat \<Rightarrow> tb_session_t option) \<Rightarrow> nat \<Rightarrow> ('w, 'z) tb_state_scheme \<Rightarrow> bool" where
  "udt_serving m n f p s \<longleftrightarrow> f_close (l_protocol (lst s)) \<noteq> None \<and> l_s_tx_end (lst s) = TB_EXIT \<and> l_total_tx_rx (lst s) = udt_received (trace s) \<and> m (world s) \<le> n \<and>
     (sess s)(p := None) = f \<and> (\<exists>r. sess s p = Some r \<and> s_thread r = None)"

lemma tb_abort_ends: "f_close (l_protocol (lst s)) \<noteq> None \<Longrightarrow> wp (tb_abort E) Q ends_by_abort s"
  by (rule wp_tb_abort)

lemma udt_recv_step_counts:
  assumes ends: "udt_peer_ends E m" and inv: "udt_serving m n f p s"
  shows "wp (udt_recv_step E p) (\<lambda>over s'. udt_serving m n f p s' \<and> (over \<or> m (world s') < m (world s))) ends_by_abort s"
proof -
  from inv obtain r where r: "sess s p = Some r" "s_thread r = None" "f_close (l_protocol (lst s)) \<noteq> None"
      "l_total_tx_rx (lst s) = udt_received (trace s)" "m (world s) \<le> n"
    by (auto simp: udt_serving_def)
  let ?c = "Udt (Udt_recv (s_sock_d r) (to_int (s_data_size r)))"
  obtain a w where a: "sys E ?c (world s) = (a, w)" by force
  obtain e w' where e: "sys E (Udt Udt_lasterror) w = (e, w')" by force
  have le: "m w \<le> n" "m w' \<le> n"
    using udt_peer_endsD(1) [OF ends a] udt_peer_endsD(1) [OF ends e] r(5) by auto
  from udt_peer_endsD(3) [OF ends a] show ?thesis
  proof
    assume rc: "a_rc a = - 1"
    then have "to_int (a_rc a) = UDT_ERROR" by (simp add: UDT_ERROR_def to_int_id in_int_def)
    then show ?thesis
      using r a e rc inv le
      by (auto simp: udt_recv_step_def wp_rules Let_def udt_serving_def tb_abort_ends)
  next
    assume rc: "0 \<le> a_rc a \<and> a_rc a \<le> to_int (s_data_size r) \<and> m w < m (world s)"
    then have "in_int (a_rc a)" using to_int_in_int [of "s_data_size r"] by (auto simp: in_int_def)
    then have "to_int (a_rc a) = a_rc a" by (rule to_int_id)
    then show ?thesis
      using r a rc inv le by (auto simp: udt_recv_step_def wp_rules Let_def udt_serving_def UDT_ERROR_def)
  qed
qed

lemma udt_in_loop:
  assumes ends: "udt_peer_ends E m" and inv: "udt_serving m n f p s"
  shows "wp (in_loop E) (\<lambda>go s'. udt_serving m n f p s' \<and> m (world s') \<le> m (world s) \<and> (\<not> go \<longrightarrow> leaves_loop (l_command (lst s')))) R s"
proof -
  obtain b w where b: "sigint E (world s) = (b, w)" by force
  obtain a w' where a: "sys E (Posix (Shutdown (l_sock_d (lst s)))) w = (a, w')" by force
  have "m w \<le> m (world s)" "m w' \<le> m w"
    using udt_peer_endsD(2) [OF ends b] udt_peer_endsD(1) [OF ends a] by auto
  then show ?thesis
    using inv a b by (auto simp: in_loop_def read_command_def sig_action_def wp_rules udt_serving_def)
qed

interpretation udt_receiving: receive_loop
  "\<lambda>over. if over then cret False else in_loop E" "\<lambda>_. udt_recv_step E p" "\<lambda>_ s. udt_peer_ends E m \<and> udt_serving m n f p s"
  "\<lambda>over _. over" "\<lambda>s. leaves_loop (l_command (lst s))" "\<lambda>s. m (world s)" ends_by_abort
  for E :: "('w, 'e) env_scheme" and p m n f
proof
  fix over and s :: "('w, 'z) tb_state_scheme"
  assume inv: "udt_peer_ends E m \<and> udt_serving m n f p s"
  show "wp (if over then cret False else in_loop E) (\<lambda>go s'. (udt_peer_ends E m \<and> udt_serving m n f p s') \<and> (over \<longleftrightarrow> over) \<and>
      m (world s') \<le> m (world s) \<and> (if go then \<not> over else over \<or> leaves_loop (l_command (lst s')))) ends_by_abort s"
    using inv by (cases over) (auto simp: wp_cret intro!: wp_mono [OF udt_in_loop [of E m n f p s]])
  show "wp (udt_recv_step E p) (\<lambda>over' s'. (udt_peer_ends E m \<and> udt_serving m n f p s') \<and>
      (over' \<or> m (world s') < m (world s))) ends_by_abort s"
    using inv by (auto intro!: wp_mono [OF udt_recv_step_counts [of E m n f p s]])
qed

lemma udt_server_loop:
  fixes s :: "('w, 'z) tb_state_scheme" and E :: "('w, 'e) env_scheme"
  assumes "udt_peer_ends E m" and "udt_serving m n f p s" and "n < fuel"
  shows "wp (cwhile fuel (\<lambda>over. if over then cret False else in_loop E) (\<lambda>_. udt_recv_step E p) False)
    (\<lambda>_. udt_serving m n f p) ends_by_abort s"
  by (rule wp_mono [OF udt_receiving.loop_ends]) (use assms in \<open>auto simp: udt_receiving.rounds_def udt_serving_def\<close>)


section \<open>One connection\<close>

lemma udt_serving_steps:
  assumes ends: "udt_peer_ends E m" and inv: "udt_serving m n f p s"
  shows "wp (cbind (cget lst) (\<lambda>l. cbind (cmalloc E (to_size (l_bufsize l))) (\<lambda>d.
             store_session (Some p) (\<lambda>r. r\<lparr>s_data := d, s_data_size := to_size (l_bufsize l)\<rparr>))))
      (\<lambda>_. udt_serving m n f p) R s"
    and "wp (l_start_transfer E) (\<lambda>_. udt_serving m n f p) R s"
    and "wp (l_finish_transfer E) (\<lambda>_. udt_serving m n f p) R s"
    and "wp (set_l (\<lambda>l. l\<lparr>l_curr_session := c, l_status := st\<rparr>)) (\<lambda>_. udt_serving m n f p) R s"
proof -
  have le: "m w' \<le> n" if "sys E c (world s) = (a, w')" for c a w'
    using udt_peer_endsD(1) [OF ends that] inv by (simp add: udt_serving_def)
  show "wp (cbind (cget lst) (\<lambda>l. cbind (cmalloc E (to_size (l_bufsize l))) (\<lambda>d.
             store_session (Some p) (\<lambda>r. r\<lparr>s_data := d, s_data_size := to_size (l_bufsize l)\<rparr>))))
      (\<lambda>_. udt_serving m n f p) R s"
    and "wp (l_start_transfer E) (\<lambda>_. udt_serving m n f p) R s"
    and "wp (l_finish_transfer E) (\<lambda>_. udt_serving m n f p) R s"
    and "wp (set_l (\<lambda>l. l\<lparr>l_curr_session := c, l_status := st\<rparr>)) (\<lambda>_. udt_serving m n f p) R s"
    using inv le
    by (auto simp: wp_rules l_start_transfer_def l_finish_transfer_def udt_serving_def split: prod.splits)
qed

text \<open>The session is freed and the command set; nothing touches the session after that.\<close>

lemma udt_serve_accepted_ends:
  fixes s :: "('w, 'z) tb_state_scheme" and E :: "('w, 'e) lenv_scheme"
  assumes ends: "udt_peer_ends E m" and inv: "udt_serving m n f p s" and fuel: "n < fuel"
  shows "wp (udt_serve_accepted E fuel p) (\<lambda>_ s'. f_close (l_protocol (lst s')) \<noteq> None \<and>
      l_total_tx_rx (lst s') = udt_received (trace s') \<and> sess s' = f \<and> ended s' \<and>
      l_status (lst s') = TB_DISCONNECTED) ends_by_abort s"
  unfolding udt_serve_accepted_def
  apply (rule wp_step, rule udt_serving_steps(1) [OF ends inv])
  apply (rule wp_step, erule udt_serving_steps(4) [OF ends])
  apply (rule wp_step, erule udt_serving_steps(2) [OF ends])
  apply (rule wp_step, unfold wp_cvoid, erule udt_server_loop [OF ends _ fuel])
  apply (rule wp_step, erule udt_serving_steps(3) [OF ends])
  apply (auto simp: wp_rules trylock_stat_def unlock_stat_def tb_destroy_session_def udt_serving_def ended_def
      split: prod.splits)
  done

text \<open>Between connections; at first nothing has been received.\<close>

definition udt_idle :: "('w \<Rightarrow> nat) \<Rightarrow> nat \<Rightarrow> (nat \<Rightarrow> tb_session_t option) \<Rightarrow> ('w, 'z) tb_state_scheme \<Rightarrow> bool" where
  "udt_idle m n f s \<longleftrightarrow> f_close (l_protocol (lst s)) \<noteq> None \<and> l_s_tx_end (lst s) = TB_EXIT \<and>
     l_total_tx_rx (lst s) = udt_received (trace s) \<and> m (world s) \<le> n \<and> sess s = f \<and> f (brk s) = None"

definition udt_over :: "(nat \<Rightarrow> tb_session_t option) \<Rightarrow> ('w, 'z) tb_state_scheme \<Rightarrow> bool" where
  "udt_over f s \<longleftrightarrow> f_close (l_protocol (lst s)) \<noteq> None \<and> l_total_tx_rx (lst s) = udt_received (trace s) \<and>
     sess s = f \<and> ended s"

lemma stdio_run_udt:
  "stdio_run E w tr w' tr' \<Longrightarrow> udt_peer_ends E m \<Longrightarrow> udt_received tr' = udt_received tr \<and> m w' \<le> m w"
  by (induction rule: stdio_run.induct) (auto dest: udt_peer_endsD(1) intro: order_trans)

lemma udt_serve_one_ends:
  fixes s :: "('w, 'z) tb_state_scheme" and E :: "('w, 'e) lenv_scheme"
  assumes ends: "udt_peer_ends E m" and inv: "udt_idle m n f s" and fuel: "n < fuel"
  shows "wp (udt_serve_one E fuel) (\<lambda>_. udt_over f) ends_by_abort s"
  unfolding udt_serve_one_def wp_cdo wp_cseq_Cons
proof (rule wp_LOG)
  fix w0 tr0 assume "stdio_run E (world s) (trace s) w0 tr0"
  then have quiet: "udt_received tr0 = udt_received (trace s)" "m w0 \<le> n"
    using stdio_run_udt [OF _ ends, of "world s" "trace s" w0 tr0] inv by (auto simp: udt_idle_def)
  let ?c = "Udt (Udt_accept (l_sock_d (lst s)))"
  obtain a w1 where a: "sys E ?c w0 = (a, w1)" by force
  have serving: "udt_serving m n f (brk s)
      (s\<lparr>brk := brk s + 1, world := w1, trace := (?c, a_rc a) # tr0, sess := f(brk s \<mapsto> r)\<rparr>)" if "s_thread r = None" for r
    using quiet udt_peer_endsD(1) [OF ends a] inv that by (auto simp: udt_serving_def udt_idle_def fun_upd_idem)
  have accepted: "wp (udt_serve_accepted E fuel (brk s)) (\<lambda>_. udt_over f) ends_by_abort
      (s\<lparr>brk := brk s + 1, world := w1, trace := (?c, a_rc a) # tr0, sess := f(brk s \<mapsto> r)\<rparr>)" if "s_thread r = None" for r
    by (rule wp_mono [OF udt_serve_accepted_ends [OF ends serving [OF that] fuel]]) (auto simp: udt_over_def)
  show "wp (cseq []) (\<lambda>_. wp (cbind (tb_create_server_session E) (\<lambda>p. cbind (cget lst) (\<lambda>l.
        cbind (do_sys E (Udt (Udt_accept (l_sock_d l)))) (\<lambda>a.
        cdo [store_session (Some p) (\<lambda>r. r\<lparr>s_sock_d := a_rc a,
               s_addr_in := (if a_rc a = UDT_ERROR then s_addr_in r else Some (a_peer a))\<rparr>),
             cwhen (a_rc a = UDT_ERROR) (tb_abort E)] (udt_serve_accepted E fuel p))))) (\<lambda>_. udt_over f) ends_by_abort)
      ends_by_abort (s\<lparr>world := w0, trace := tr0\<rparr>)"
    using a accepted inv
    by (auto simp: wp_rules tb_create_server_session_def tb_abort_ends udt_idle_def)
qed (simp add: ends_by_abort_def)

lemma udt_not_ended_idle:
  assumes ends: "udt_peer_ends E m" and inv: "udt_idle m n f s"
  shows "wp (not_ended E) (\<lambda>go s'. if go then udt_idle m n f s' else udt_over f s') R s"
proof -
  have "m w' \<le> n" if "sys E c w = (a, w')" "m w \<le> n" for c w a w'
    using udt_peer_endsD(1) [OF ends that(1)] that(2) by simp
  moreover have "m w' \<le> n" if "sigint E w = (b, w')" "m w \<le> n" for w b w'
    using udt_peer_endsD(2) [OF ends that(1)] that(2) by simp
  ultimately show ?thesis
    using inv by (auto simp: not_ended_def read_command_def sig_action_def wp_rules udt_idle_def udt_over_def ended_def
        split: prod.splits)
qed

lemma udt_over_stays: "udt_over f s \<Longrightarrow> wp (not_ended E) (\<lambda>go s'. \<not> go \<and> udt_over f s') R s"
  by (auto simp: not_ended_def read_command_def sig_action_def wp_rules udt_over_def ended_def split: prod.splits)

lemma udt_connections:
  fixes s :: "('w, 'z) tb_state_scheme" and E :: "('w, 'e) lenv_scheme"
  assumes ends: "udt_peer_ends E m" and inv: "udt_idle m n f s" and fuel: "n < fuel" and conns: "0 < conns"
  shows "wp (cwhile conns (\<lambda>_. not_ended E) (\<lambda>_. udt_serve_one E fuel) ()) (\<lambda>_. udt_over f) ends_by_abort s"
proof -
  from conns obtain k where k: "conns = Suc k" by (cases conns) auto
  have stop: "wp (cwhile k (\<lambda>_. not_ended E) (\<lambda>_. udt_serve_one E fuel) u) (\<lambda>_. udt_over f) ends_by_abort t"
    if "udt_over f t" for u and t :: "('w, 'z) tb_state_scheme"
    by (subst cwhile.simps) (auto simp: wp_rules intro!: wp_mono [OF udt_over_stays [OF that]])
  have serve: "wp (udt_serve_one E fuel) (\<lambda>_. wp (cwhile k (\<lambda>_. not_ended E) (\<lambda>_. udt_serve_one E fuel) ())
      (\<lambda>_. udt_over f) ends_by_abort) ends_by_abort t" if "udt_idle m n f t" for t :: "('w, 'z) tb_state_scheme"
    by (rule wp_mono [OF udt_serve_one_ends [OF ends that fuel]]) (auto intro: stop)
  show ?thesis
    unfolding k by (subst cwhile.simps)
      (auto simp: wp_rules intro!: wp_mono [OF udt_not_ended_idle [OF ends inv]] serve)
qed

lemma wp_tb_udt_server:
  fixes s :: "('w, 'z) tb_state_scheme" and E :: "('w, 'e) lenv_scheme"
  assumes ends: "udt_peer_ends E m" and inv: "udt_idle m n f s" and fuel: "n < fuel" and conns: "0 < conns"
  shows "wp (tb_udt_server E conns fuel) (\<lambda>rc s'. rc = to_int (udt_received (trace s')) \<and>
      l_total_tx_rx (lst s') = udt_received (trace s') \<and> sess s' = f \<and> ended s' \<and> l_sock_d (lst s') = - 1) ends_by_abort s"
proof -
  obtain a w where a: "sys E (Udt (Udt_listen (l_sock_d (lst s)) 10)) (world s) = (a, w)" by force
  have listens: "wp (cbind (cget lst) (\<lambda>l. cbind (do_sys E (Udt (Udt_listen (l_sock_d l) 10))) (\<lambda>a.
      cwhen (a_rc a = UDT_ERROR) (tb_abort E)))) (\<lambda>_. udt_idle m n f) ends_by_abort s"
    using inv a udt_peer_endsD(1) [OF ends a] by (auto simp: wp_rules udt_idle_def tb_abort_ends)
  have closes: "wp (cseq [cbind (cget lst) (\<lambda>l. cvoid (call_close E (f_close (l_protocol l)) (l_sock_d l))),
      set_l (\<lambda>l. l\<lparr>l_sock_d := - 1\<rparr>)]) (\<lambda>_ s'. udt_over f s' \<and> l_sock_d (lst s') = - 1) R t"
    if t: "udt_over f t" for t :: "('w, 'z) tb_state_scheme" and R
  proof -
    from t obtain c where "f_close (l_protocol (lst t)) = Some c" by (auto simp: udt_over_def)
    with t show ?thesis by (cases c) (auto simp: wp_rules udt_over_def ended_def split: prod.splits)
  qed
  show ?thesis
    unfolding tb_udt_server_def wp_cdo
    apply (rule wp_step, rule listens)
    apply (rule wp_step [where I = "udt_idle m n f"], simp add: wp_rules udt_idle_def)
    apply (rule wp_step, unfold wp_cvoid, erule udt_connections [OF ends _ fuel conns])
    apply (rule wp_mono, erule closes [unfolded wp_cvoid], auto simp: wp_cget udt_over_def)
    done
qed


section \<open>Properties\<close>


end
