(* ===== verification/TB_Udt_Transfer.thy ===== *)
theory TB_Udt_Transfer
  imports TB_Udt_Client TB_Udt_Server
begin

text \<open>
  A UDT client and a UDT server composed: what the client sent is on its way to the server, and
  the server receives all of it.
\<close>

section \<open>The way to the server\<close>

text \<open>
  \<open>left\<close> counts the bytes on their way. A receive brings at least one of them while there are any
  and then reports the end of the connection; no other call touches them, and nobody presses
  Ctrl-C.
\<close>

definition udt_pipe :: "('w, 'e) env_scheme \<Rightarrow> ('w \<Rightarrow> nat) \<Rightarrow> bool" where
  "udt_pipe E left \<longleftrightarrow>
     (\<forall>c w a w'. sys E c w = (a, w') \<longrightarrow>
        (case c of Udt (Udt_recv fd n) \<Rightarrow> 0 < n \<longrightarrow>
             (if left w = 0 then a_rc a = - 1 \<and> left w' = 0
              else 1 \<le> a_rc a \<and> a_rc a \<le> n \<and> int (left w') = int (left w) - a_rc a)
         | Udt Udt_lasterror \<Rightarrow> a_rc a = ECONNLOST \<and> left w' = left w
         | Udt (Udt_listen fd n) \<Rightarrow> a_rc a \<noteq> UDT_ERROR \<and> left w' = left w
         | Udt (Udt_accept fd) \<Rightarrow> a_rc a \<noteq> UDT_ERROR \<and> left w' = left w
         | _ \<Rightarrow> left w' = left w)) \<and>
     (\<forall>w b w'. sigint E w = (b, w') \<longrightarrow> \<not> b \<and> left w' = left w)"

lemma udt_pipeD:
  assumes "udt_pipe E left"
  shows "sys E (Posix c) w = (a, w') \<Longrightarrow> left w' = left w"
    and "sys E (Stdio d) w = (a, w') \<Longrightarrow> left w' = left w"
    and "sys E (Udt Udt_lasterror) w = (a, w') \<Longrightarrow> a_rc a = ECONNLOST \<and> left w' = left w"
    and "sys E (Udt (Udt_listen fd n)) w = (a, w') \<Longrightarrow> a_rc a \<noteq> UDT_ERROR \<and> left w' = left w"
    and "sys E (Udt (Udt_accept fd)) w = (a, w') \<Longrightarrow> a_rc a \<noteq> UDT_ERROR \<and> left w' = left w"
    and "sys E (Udt (Udt_close fd)) w = (a, w') \<Longrightarrow> left w' = left w"
    and "sys E (Udt (Udt_recv fd n)) w = (a, w') \<Longrightarrow> 0 < n \<Longrightarrow> left w = 0 \<Longrightarrow> a_rc a = - 1 \<and> left w' = 0"
    and "sys E (Udt (Udt_recv fd n)) w = (a, w') \<Longrightarrow> 0 < n \<Longrightarrow> left w \<noteq> 0 \<Longrightarrow>
      1 \<le> a_rc a \<and> a_rc a \<le> n \<and> int (left w') = int (left w) - a_rc a"
    and "sigint E w = (b, w') \<Longrightarrow> \<not> b \<and> left w' = left w"
proof -
  note all = conjunct1 [OF assms [unfolded udt_pipe_def], rule_format]
  show "sys E (Posix c) w = (a, w') \<Longrightarrow> left w' = left w" using all [of "Posix c"] by simp
  show "sys E (Stdio d) w = (a, w') \<Longrightarrow> left w' = left w" using all [of "Stdio d"] by simp
  show "sys E (Udt Udt_lasterror) w = (a, w') \<Longrightarrow> a_rc a = ECONNLOST \<and> left w' = left w"
    using all [of "Udt Udt_lasterror"] by simp
  show "sys E (Udt (Udt_listen fd n)) w = (a, w') \<Longrightarrow> a_rc a \<noteq> UDT_ERROR \<and> left w' = left w"
    using all [of "Udt (Udt_listen fd n)"] by simp
  show "sys E (Udt (Udt_accept fd)) w = (a, w') \<Longrightarrow> a_rc a \<noteq> UDT_ERROR \<and> left w' = left w"
    using all [of "Udt (Udt_accept fd)"] by simp
  show "sys E (Udt (Udt_close fd)) w = (a, w') \<Longrightarrow> left w' = left w" using all [of "Udt (Udt_close fd)"] by simp
  show "sys E (Udt (Udt_recv fd n)) w = (a, w') \<Longrightarrow> 0 < n \<Longrightarrow> left w = 0 \<Longrightarrow> a_rc a = - 1 \<and> left w' = 0"
    using all [of "Udt (Udt_recv fd n)" w a w'] by simp
  show "sys E (Udt (Udt_recv fd n)) w = (a, w') \<Longrightarrow> 0 < n \<Longrightarrow> left w \<noteq> 0 \<Longrightarrow>
      1 \<le> a_rc a \<and> a_rc a \<le> n \<and> int (left w') = int (left w) - a_rc a"
    using all [of "Udt (Udt_recv fd n)" w a w'] by simp
  show "sigint E w = (b, w') \<Longrightarrow> \<not> b \<and> left w' = left w"
    using assms unfolding udt_pipe_def by blast
qed

text \<open>The listener of the server while \<open>c\<close> is what it has received and what is on its way.\<close>

definition udt_flow :: "('w \<Rightarrow> nat) \<Rightarrow> int \<Rightarrow> ('w, 'z) tb_state_scheme \<Rightarrow> bool" where
  "udt_flow left c s \<longleftrightarrow> f_close (l_protocol (lst s)) \<noteq> None \<and> l_s_tx_end (lst s) = TB_EXIT \<and>
     l_command (lst s) = TB_CONTINUE \<and> 0 < l_bufsize (lst s) \<and> in_int (l_bufsize (lst s)) \<and>
     (l_log_enabled (lst s) \<noteq> 0 \<longrightarrow> l_log_info (lst s) \<noteq> None) \<and>
     l_total_tx_rx (lst s) + int (left (world s)) = c"

definition udt_filling :: "('w \<Rightarrow> nat) \<Rightarrow> int \<Rightarrow> nat \<Rightarrow> ('w, 'z) tb_state_scheme \<Rightarrow> bool" where
  "udt_filling left c p s \<longleftrightarrow> udt_flow left c s \<and> (\<exists>r. sess s p = Some r \<and> s_thread r = None \<and> 0 < s_data_size r \<and> in_int (s_data_size r))"

lemma udt_recv_step_fills:
  assumes pipe: "udt_pipe E left" and inv: "udt_filling left c p s"
  shows "wp (udt_recv_step E p) (\<lambda>over s'. udt_filling left c p s' \<and>
    (if over then left (world s') = 0 else left (world s') < left (world s))) (\<lambda>_ _. False) s"
proof -
  from inv obtain r where r: "sess s p = Some r" "0 < s_data_size r" "in_int (s_data_size r)"
    by (auto simp: udt_filling_def)
  let ?c = "Udt (Udt_recv (s_sock_d r) (s_data_size r))"
  obtain a w where a: "sys E ?c (world s) = (a, w)" by force
  show ?thesis
  proof (cases "left (world s) = 0")
    case True
    then have rc: "to_int (a_rc a) = UDT_ERROR" "left w = 0"
      using udt_pipeD(7) [OF pipe a r(2)] by (simp_all add: UDT_ERROR_def to_int_id in_int_def)
    obtain e w' where e: "sys E (Udt Udt_lasterror) w = (e, w')" by force
    show ?thesis
      using r a e rc inv True udt_pipeD(3) [OF pipe e]
      by (auto simp: udt_recv_step_def wp_rules Let_def udt_filling_def udt_flow_def to_int_id)
  next
    case False
    then have rc: "1 \<le> a_rc a" "a_rc a \<le> s_data_size r" "int (left w) = int (left (world s)) - a_rc a"
      using udt_pipeD(8) [OF pipe a r(2)] by auto
    then have "to_int (a_rc a) = a_rc a" using r(3) by (intro to_int_id) (auto simp: in_int_def)
    then show ?thesis
      using r a rc inv by (auto simp: udt_recv_step_def wp_rules Let_def udt_filling_def udt_flow_def UDT_ERROR_def to_int_id)
  qed
qed

lemma udt_stays_in_loop:
  assumes pipe: "udt_pipe E left" and inv: "udt_filling left c p s"
  shows "wp (in_loop E) (\<lambda>go s'. go \<and> udt_filling left c p s' \<and> left (world s') = left (world s)) R s"
  using inv udt_pipeD(9) [OF pipe]
  by (auto simp: in_loop_def read_command_def sig_action_def wp_rules udt_filling_def udt_flow_def split: prod.splits)

interpretation udt_filling: receive_loop
  "\<lambda>over. if over then cret False else in_loop E" "\<lambda>_. udt_recv_step E p"
  "\<lambda>over s. udt_pipe E left \<and> udt_filling left c p s \<and> (over \<longrightarrow> left (world s) = 0)"
  "\<lambda>over _. over" "\<lambda>_. False" "\<lambda>s. left (world s)" "\<lambda>_ _. False"
  for E :: "('w, 'e) env_scheme" and left c p
proof
  fix over and s :: "('w, 'z) tb_state_scheme"
  assume inv: "udt_pipe E left \<and> udt_filling left c p s \<and> (over \<longrightarrow> left (world s) = 0)"
  show "wp (if over then cret False else in_loop E) (\<lambda>go s'. (udt_pipe E left \<and> udt_filling left c p s' \<and>
      (over \<longrightarrow> left (world s') = 0)) \<and> (over \<longleftrightarrow> over) \<and> left (world s') \<le> left (world s) \<and> (if go then \<not> over else over \<or> False))
      (\<lambda>_ _. False) s"
    using inv by (cases over) (auto simp: wp_cret intro!: wp_mono [OF udt_stays_in_loop [of E left c p s]])
  show "wp (udt_recv_step E p) (\<lambda>over' s'. (udt_pipe E left \<and> udt_filling left c p s' \<and> (over' \<longrightarrow> left (world s') = 0)) \<and>
      (over' \<or> left (world s') < left (world s))) (\<lambda>_ _. False) s"
    using inv by (auto intro!: wp_mono [OF udt_recv_step_fills [of E left c p s]] split: if_splits)
qed

lemma udt_fill_loop:
  fixes s :: "('w, 'z) tb_state_scheme" and E :: "('w, 'e) env_scheme"
  assumes "udt_pipe E left" and "udt_filling left c p s" and "left (world s) < fuel"
  shows "wp (cwhile fuel (\<lambda>over. if over then cret False else in_loop E) (\<lambda>_. udt_recv_step E p) False)
    (\<lambda>_ s'. udt_filling left c p s' \<and> left (world s') = 0) (\<lambda>_ _. False) s"
  by (rule wp_mono [OF udt_filling.loop_ends]) (use assms in \<open>auto simp: udt_filling.rounds_def\<close>)


text \<open>The other steps of a connection.\<close>

lemma udt_filling_starts:
  assumes pipe: "udt_pipe E left" and inv: "udt_flow left c s" and r: "sess s p = Some r" "s_thread r = None"
  shows "wp (cbind (cget lst) (\<lambda>l. cbind (cmalloc E (to_size (l_bufsize l))) (\<lambda>d.
             store_session (Some p) (\<lambda>r. r\<lparr>s_data := d, s_data_size := to_size (l_bufsize l)\<rparr>))))
      (\<lambda>_ s'. udt_filling left c p s' \<and> left (world s') = left (world s)) R s"
proof -
  have "to_size (l_bufsize (lst s)) = l_bufsize (lst s)"
    using inv by (intro to_size_id) (auto simp: udt_flow_def in_int_def)
  then show ?thesis
    using inv r udt_pipeD(2) [OF pipe] by (auto simp: wp_rules udt_filling_def udt_flow_def split: prod.splits)
qed

lemma udt_filling_steps:
  assumes pipe: "udt_pipe E left" and inv: "udt_filling left c p s"
  shows "wp (l_start_transfer E) (\<lambda>_ s'. udt_filling left c p s' \<and> left (world s') = left (world s)) R s"
    and "wp (l_finish_transfer E) (\<lambda>_ s'. udt_filling left c p s' \<and> left (world s') = left (world s)) R s"
  using inv udt_pipeD(1) [OF pipe]
  by (auto simp: wp_rules l_start_transfer_def l_finish_transfer_def udt_filling_def udt_flow_def split: prod.splits)

text \<open>All has been received and the server has been told to end.\<close>

definition udt_received_all :: "int \<Rightarrow> ('w, 'z) tb_state_scheme \<Rightarrow> bool" where
  "udt_received_all c s \<longleftrightarrow> f_close (l_protocol (lst s)) \<noteq> None \<and> l_command (lst s) = TB_EXIT \<and> l_total_tx_rx (lst s) = c"

lemma udt_connection_closed:
  assumes pipe: "udt_pipe E left" and inv: "udt_filling left c p s" and none: "left (world s) = 0"
  shows "wp (cseq [trylock_stat, set_l (\<lambda>l. l\<lparr>l_status := TB_DISCONNECTED, l_curr_session := None\<rparr>),
           cbind (load_session (Some p)) (\<lambda>r. cvoid (do_sys E (Udt (Udt_close (s_sock_d r))))),
           tb_destroy_session (Some p), unlock_stat, set_l (\<lambda>l. l\<lparr>l_command := l_s_tx_end l\<rparr>)])
         (\<lambda>_. udt_received_all c) R s"
proof -
  obtain r where r: "sess s p = Some r" "s_thread r = None" using inv by (auto simp: udt_filling_def)
  obtain a w where a: "sys E (Udt (Udt_close (s_sock_d r))) (world s) = (a, w)" by force
  have fin: "f_close (l_protocol (lst s)) \<noteq> None" "l_s_tx_end (lst s) = TB_EXIT" "l_total_tx_rx (lst s) = c"
    using inv none by (auto simp: udt_filling_def udt_flow_def)
  show ?thesis
    using r a fin by (simp add: wp_rules trylock_stat_def unlock_stat_def tb_destroy_session_def udt_received_all_def)
qed

lemma udt_serve_accepted_all:
  fixes s :: "('w, 'z) tb_state_scheme" and E :: "('w, 'e) lenv_scheme"
  assumes pipe: "udt_pipe E left" and inv: "udt_flow left c s" "sess s p = Some r" "s_thread r = None"
    and fuel: "left (world s) < fuel"
  shows "wp (udt_serve_accepted E fuel p) (\<lambda>_. udt_received_all c) (\<lambda>_ _. False) s"
proof -
  let ?I = "\<lambda>s' :: ('w, 'z) tb_state_scheme. udt_filling left c p s' \<and> left (world s') < fuel"
  have mono: "wp m (\<lambda>_. ?I) R t" if "wp m (\<lambda>_ s'. udt_filling left c p s' \<and> left (world s') = left (world t)) R t" "?I t"
    for m :: "(('w, 'z) tb_state_scheme, unit) prog" and R t
    using that(1) by (rule wp_mono) (use that(2) in auto)
  show ?thesis
    unfolding udt_serve_accepted_def
    apply (rule wp_step [where I = ?I], rule wp_mono [OF udt_filling_starts [OF pipe inv]], simp add: fuel, simp)
    apply (rule wp_step [where I = ?I], simp add: wp_rules udt_filling_def udt_flow_def)
    apply (rule wp_step [where I = ?I], erule conjE, rule mono [OF udt_filling_steps(1) [OF pipe]], assumption, simp)
    apply (rule wp_step [where I = "\<lambda>s'. udt_filling left c p s' \<and> left (world s') = 0"], unfold wp_cvoid, erule conjE,
        rule udt_fill_loop [OF pipe], assumption, assumption)
    apply (rule wp_step [where I = "\<lambda>s'. udt_filling left c p s' \<and> left (world s') = 0"], erule conjE,
        rule wp_mono [OF udt_filling_steps(2) [OF pipe]], assumption, simp, simp)
    apply (erule conjE, erule udt_connection_closed [OF pipe], assumption)
    done
qed

lemma stdio_run_pipe: "stdio_run E w tr w' tr' \<Longrightarrow> udt_pipe E left \<Longrightarrow> left w' = left w"
  by (induction rule: stdio_run.induct) (auto dest: udt_pipeD(2))

lemma wp_LOG_ok:
  assumes "l_log_enabled (lst s) \<noteq> 0 \<longrightarrow> l_log_info (lst s) \<noteq> None"
    and "\<And>w tr. stdio_run E (world s) (trace s) w tr \<Longrightarrow> Q () (s\<lparr>world := w, trace := tr\<rparr>)"
  shows "wp (LOG E info ty) Q R s"
proof -
  have "Q () s" using assms(2) [OF stdio_refl] by simp
  then show ?thesis using assms(1)
    by (auto simp: LOG_def wp_rules tb_write_log_def Let_def split: option.splits prod.splits
        intro!: assms(2) stdio_more intro: stdio_refl)
qed

lemma udt_serve_one_all:
  fixes s :: "('w, 'z) tb_state_scheme" and E :: "('w, 'e) lenv_scheme"
  assumes pipe: "udt_pipe E left" and inv: "udt_flow left c s" and fuel: "left (world s) < fuel"
  shows "wp (udt_serve_one E fuel) (\<lambda>_. udt_received_all c) (\<lambda>_ _. False) s"
  unfolding udt_serve_one_def wp_cdo wp_cseq_Cons
proof (rule wp_LOG_ok)
  show "l_log_enabled (lst s) \<noteq> 0 \<longrightarrow> l_log_info (lst s) \<noteq> None" using inv by (simp add: udt_flow_def)
  fix w0 tr0 assume "stdio_run E (world s) (trace s) w0 tr0"
  then have w0: "left w0 = left (world s)" using stdio_run_pipe [OF _ pipe] by blast
  let ?c = "Udt (Udt_accept (l_sock_d (lst s)))"
  obtain a w1 where a: "sys E ?c w0 = (a, w1)" by force
  note acc = udt_pipeD(5) [OF pipe a]
  have accepted: "wp (udt_serve_accepted E fuel (brk s)) (\<lambda>_. udt_received_all c) (\<lambda>_ _. False)
      (s\<lparr>brk := brk s + 1, world := w1, trace := (?c, a_rc a) # tr0, sess := (sess s)(brk s \<mapsto> r)\<rparr>)" if "s_thread r = None" for r
    by (rule udt_serve_accepted_all [OF pipe]) (use inv that w0 acc fuel in \<open>simp_all add: udt_flow_def\<close>)
  show "wp (cseq []) (\<lambda>_. wp (cbind (tb_create_server_session E) (\<lambda>p. cbind (cget lst) (\<lambda>l.
        cbind (do_sys E (Udt (Udt_accept (l_sock_d l)))) (\<lambda>a.
        cdo [store_session (Some p) (\<lambda>r. r\<lparr>s_sock_d := a_rc a,
               s_addr_in := (if a_rc a = UDT_ERROR then s_addr_in r else Some (a_peer a))\<rparr>),
             cwhen (a_rc a = UDT_ERROR) (tb_abort E)] (udt_serve_accepted E fuel p))))) (\<lambda>_. udt_received_all c) (\<lambda>_ _. False))
      (\<lambda>_ _. False) (s\<lparr>world := w0, trace := tr0\<rparr>)"
    using a acc accepted
    by (auto simp: wp_rules tb_create_server_session_def)
qed


lemma continue_goes_on: "TB_CONTINUE \<noteq> TB_ABORT" "TB_CONTINUE \<noteq> TB_EXIT" "TB_ABORT \<noteq> TB_EXIT"
  by (simp_all add: TB_CONTINUE_def TB_ABORT_def TB_EXIT_def)

lemma udt_not_ended_flow:
  assumes pipe: "udt_pipe E left" and inv: "udt_flow left c s"
  shows "wp (not_ended E) (\<lambda>go s'. go \<and> udt_flow left c s' \<and> left (world s') = left (world s)) R s"
  using inv udt_pipeD(9) [OF pipe]
  by (auto simp: not_ended_def read_command_def sig_action_def wp_rules udt_flow_def continue_goes_on split: prod.splits)

lemma udt_all_stays: "udt_received_all c s \<Longrightarrow> wp (not_ended E) (\<lambda>go s'. \<not> go \<and> udt_received_all c s') R s"
  by (auto simp: not_ended_def read_command_def sig_action_def wp_rules udt_received_all_def split: prod.splits)

lemma wp_tb_udt_server_all:
  fixes s :: "('w, 'z) tb_state_scheme" and E :: "('w, 'e) lenv_scheme"
  assumes pipe: "udt_pipe E left" and inv: "udt_flow left c s" and fuel: "left (world s) < fuel" and conns: "0 < conns"
  shows "wp (tb_udt_server E conns fuel) (\<lambda>rc s'. rc = to_int c \<and> l_total_tx_rx (lst s') = c) (\<lambda>_ _. False) s"
proof -
  let ?I = "\<lambda>s' :: ('w, 'z) tb_state_scheme. udt_flow left c s' \<and> left (world s') < fuel"
  from conns obtain k where k: "conns = Suc k" by (cases conns) auto
  have stop: "wp (cwhile k (\<lambda>_. not_ended E) (\<lambda>_. udt_serve_one E fuel) u) (\<lambda>_. udt_received_all c) (\<lambda>_ _. False) t"
    if "udt_received_all c t" for u and t :: "('w, 'z) tb_state_scheme"
    by (subst cwhile.simps) (auto simp: wp_rules intro!: wp_mono [OF udt_all_stays [OF that]])
  have serve: "wp (udt_serve_one E fuel) (\<lambda>_. wp (cwhile k (\<lambda>_. not_ended E) (\<lambda>_. udt_serve_one E fuel) ())
      (\<lambda>_. udt_received_all c) (\<lambda>_ _. False)) (\<lambda>_ _. False) t" if "?I t" for t :: "('w, 'z) tb_state_scheme"
    by (rule wp_mono [OF udt_serve_one_all [OF pipe]]) (use that in \<open>auto intro: stop\<close>)
  have loop: "wp (cwhile conns (\<lambda>_. not_ended E) (\<lambda>_. udt_serve_one E fuel) ()) (\<lambda>_. udt_received_all c) (\<lambda>_ _. False) t"
    if "?I t" for t :: "('w, 'z) tb_state_scheme"
    unfolding k by (subst cwhile.simps)
      (use that in \<open>auto simp: wp_rules intro!: wp_mono [OF udt_not_ended_flow [OF pipe]] serve\<close>)
  have listens: "wp (cbind (cget lst) (\<lambda>l. cbind (do_sys E (Udt (Udt_listen (l_sock_d l) 10))) (\<lambda>a.
      cwhen (a_rc a = UDT_ERROR) (tb_abort E)))) (\<lambda>_. ?I) (\<lambda>_ _. False) s"
    using inv fuel udt_pipeD(4) [OF pipe] by (auto simp: wp_rules udt_flow_def split: prod.splits)
  have closes: "wp (cseq [cbind (cget lst) (\<lambda>l. cvoid (call_close E (f_close (l_protocol l)) (l_sock_d l))),
      set_l (\<lambda>l. l\<lparr>l_sock_d := - 1\<rparr>)]) (\<lambda>_. udt_received_all c) R t"
    if t: "udt_received_all c t" for t :: "('w, 'z) tb_state_scheme" and R
  proof -
    from t obtain f where "f_close (l_protocol (lst t)) = Some f" by (auto simp: udt_received_all_def)
    with t show ?thesis by (cases f) (auto simp: wp_rules udt_received_all_def split: prod.splits)
  qed
  show ?thesis
    unfolding tb_udt_server_def wp_cdo
    apply (rule wp_step [where I = ?I], rule listens)
    apply (rule wp_step [where I = ?I], simp add: wp_rules udt_flow_def)
    apply (rule wp_step [where I = "udt_received_all c"], unfold wp_cvoid, erule loop)
    apply (rule wp_mono, erule closes [unfolded wp_cvoid], auto simp: wp_cget udt_received_all_def)
    done
qed


section \<open>Properties\<close>

text \<open>C9: a file sent by a UDT client arrives. The client is run on its machine, on a libudt that
  takes at least one byte with each send; then the server is run on its own, with the bytes the
  client's libudt took on their way to it. When the client has returned without having been
  told to end, the server returns, without any abort, and its total and its result are the size
  of the file.\<close>

theorem udt_file_arrives:
  assumes "send_contract E" and "udt_ready fd data s" and "l_total_tx_rx (lst s) = 0" and "sent_on fd (trace s) = []"
    and "length data \<le> fuel" and "tb_udt_client E fuel s = Ok rc s'" and "l_command (lst s') \<notin> {TB_ABORT, TB_EXIT}"
    and "udt_pipe E2 left" and "left (world t) = length (sent_on fd (trace s'))" and "udt_flow left (int (left (world t))) t"
    and "length data < fuel2" and "0 < conns"
  shows "\<exists>t'. tb_udt_server E2 conns fuel2 t = Ok (int (length data)) t' \<and> l_total_tx_rx (lst t') = l_file_size (lst s)"
proof -
  have "udt_sent fd data s'" using wp_tb_udt_client [OF assms(1-5)] assms(6) by (simp add: wp_def)
  then have "int (length (sent_on fd (trace s'))) = int (length data)" "in_int (int (length data))"
    using assms(7) by (auto simp: udt_sent_def ended_def)
  then have len: "left (world t) = length data" "to_int (int (length data)) = int (length data)"
    using assms(9) by (simp_all add: to_int_id)
  have "wp (tb_udt_server E2 conns fuel2) (\<lambda>rc t'. rc = int (length data) \<and> l_total_tx_rx (lst t') = int (length data)) (\<lambda>_ _. False) t"
    using wp_tb_udt_server_all [OF assms(8,10) _ assms(12), of fuel2] assms(11) len by simp
  then show ?thesis using assms(2) by (auto simp: wp_returns udt_ready_def)
qed

end
