(* ===== verification/TB_Udp.thy ===== *)
theory TB_Udp
  imports TB_Udt
begin

text \<open>
  The UDP endpoints (\<open>src/src/tb_udp.h\<close>, \<open>src/src/tb_udp.c\<close>): server and client of one
  connection, server and client of several. The end of a transfer is an empty datagram, sent
  again and again until the server answers. The client of several connections puts a header
  of two numbers, the session and the length, in front of the data of every datagram.
\<close>

section \<open>A queue of data\<close>

text \<open>Nothing uses the queue yet. Its elements are heap blocks; here the state is that heap.\<close>

record tb_queue_data_t =
  q_data :: "byte list option"
  q_data_len :: int
  q_n_data :: "nat option"

record tb_queue_t =
  q_start :: "nat option"
  q_end :: "nat option"

definition tb_queue_add :: "tb_queue_t \<Rightarrow> nat option \<Rightarrow> (nat \<Rightarrow> tb_queue_data_t option, tb_queue_t) prog" where
  "tb_queue_add queue data =
     (if q_start queue = None then cret (queue\<lparr>q_start := data, q_end := data\<rparr>)
      else cbind (cderef Null_Deref (q_end queue)) (\<lambda>e.
        cbind (cget (\<lambda>h. h e)) (\<lambda>b. cbind (cderef Use_After_Free b) (\<lambda>d.
        cdo [cmod (\<lambda>h. h(e \<mapsto> d\<lparr>q_n_data := data\<rparr>))] (cret (queue\<lparr>q_end := data\<rparr>))))))"


section \<open>Numbers in memory\<close>

text \<open>An \<open>int\<close> as its four bytes, least significant first, and back.\<close>

definition int_bytes :: "int \<Rightarrow> byte list" where
  "int_bytes x = map (\<lambda>i. word_of_int (x div 256 ^ i)) [0..<4]"

definition bytes_int :: "byte list \<Rightarrow> int" where
  "bytes_int bs = to_int (foldr (\<lambda>b v. uint b + 256 * v) bs 0)"

definition EWOULDBLOCK :: int where "EWOULDBLOCK = EAGAIN"


section \<open>The client of one connection\<close>

definition tb_udp_ack :: "('w, 'e) env_scheme \<Rightarrow> int \<Rightarrow> tb_e_data \<Rightarrow> (('w, 'z) tb_state_scheme, int) prog" where
  "tb_udp_ack E events data =
     cdo [log_l_info E ''Ack received'', set_l (\<lambda>l. l\<lparr>l_command := TB_EXIT\<rparr>)] (cret 0)"

text \<open>The epoll instance of the listener, polled with \<open>tb_udp_ack\<close>.\<close>

definition udp_poll_ack :: "('w, 'e) env_scheme \<Rightarrow> (('w, 'z) tb_state_scheme, unit) prog" where
  "udp_poll_ack E =
     cbind (cget (\<lambda>s. l_epoll (lst s))) (\<lambda>q.
     cbind (cderef Null_Deref q) (\<lambda>ep.
     cbind (tb_poll_for_events E (\<lambda>_. tb_udp_ack E) ep) (\<lambda>(_, ep').
     set_l (\<lambda>l. l\<lparr>l_epoll := Some ep'\<rparr>))))"

text \<open>An instance for the acknowledgement; its timeout and callback are set through the pointer.\<close>

definition udp_ack_epoll :: "('w, 'e) lenv_scheme \<Rightarrow> (('w, 'z) tb_state_scheme, unit) prog" where
  "udp_ack_epoll E =
     cbind (cget lst) (\<lambda>l.
     cbind (tb_create_e_poll E (mem_epoll E) (l_sock_d l) 5 0) (\<lambda>q.
     cdo [set_l (\<lambda>l. l\<lparr>l_epoll := q\<rparr>)]
       (cbind (cderef Null_Deref q) (\<lambda>ep.
        set_l (\<lambda>l. l\<lparr>l_epoll := Some (ep\<lparr>ep_w_time := 50, ep_f_event := Some Fn_tb_udp_ack\<rparr>)\<rparr>)))))"

text \<open>A turn of the sending loop: a piece is sent when the queue of the socket has room for it.\<close>

definition udp_client_body :: "('w, 'e) env_scheme \<Rightarrow> int \<Rightarrow> int \<Rightarrow> (('w, 'z) tb_state_scheme, int) prog" where
  "udp_client_body E snd_buff_sz sz =
     cbind (cget lst) (\<lambda>l.
     cbind (do_sys E (Posix (Ioctl_outq (l_sock_d l)))) (\<lambda>q.
     cdo [cwhen (a_rc q = - 1)
            (cseq [log_l_errno E ''Error: tb_upload_random_udp: ioctl'' (a_errno q), tb_abort E])]
       (let rm = l_file_size l - l_total_tx_rx l;
            sz' = (if rm < l_bufsize l then to_int rm else sz)
        in cbind (cint (snd_buff_sz - a_val q)) (\<lambda>room.
           if sz' < room
           then cbind (ptr_add (l_data l) (l_total_tx_rx l)) (\<lambda>data.
                cbind (cread data (to_size sz')) (\<lambda>bs.
                cbind (do_sys E (Posix (Send (l_sock_d l) bs))) (\<lambda>a.
                let rc = to_int (a_rc a) in
                cdo [if rc < 0
                     then cseq [log_l_errno E ''Error: send: '' (a_errno a), tb_abort E]
                     else set_l (\<lambda>l. l\<lparr>l_total_tx_rx := l_total_tx_rx l + rc\<rparr>)] (cret sz'))))
           else cret sz'))))"

text \<open>The end of the transfer, sent until it is acknowledged; the local says that a send failed.\<close>

definition udp_eof_body :: "('w, 'e) env_scheme \<Rightarrow> (('w, 'z) tb_state_scheme, answer) prog \<Rightarrow> (('w, 'z) tb_state_scheme, bool) prog" where
  "udp_eof_body E send_eof =
     cbind send_eof (\<lambda>a.
     if to_int (a_rc a) < 0 \<and> a_errno a \<noteq> EWOULDBLOCK
     then cdo [log_l_errno E ''Error: udp_send: '' (a_errno a)] (cret True)
     else cdo [udp_poll_ack E] (cret False))"

definition udp_eof_turn :: "('w, 'e) env_scheme \<Rightarrow> bool \<Rightarrow> (('w, 'z) tb_state_scheme, bool) prog" where
  "udp_eof_turn E failed = udp_eof_body E (cbind (cget lst) (\<lambda>l. do_sys E (Posix (Send (l_sock_d l) []))))"

definition udp_eof_more :: "('w, 'e) env_scheme \<Rightarrow> bool \<Rightarrow> (('w, 'z) tb_state_scheme, bool) prog" where
  "udp_eof_more E failed =
     (if failed then cret False else cbind (read_command E) (\<lambda>c. cret (c \<noteq> TB_EXIT)))"

definition tb_udp_client :: "('w, 'e) lenv_scheme \<Rightarrow> nat \<Rightarrow> nat \<Rightarrow> (('w, 'z) tb_state_scheme, int) prog" where
  "tb_udp_client E fuel eofs =
     cdo [l_start_connect E,
          cvoid (tb_connect E),
          l_finish_connect E,
          set_l (\<lambda>l. l\<lparr>l_status := TB_CONNECTED\<rparr>),
          udp_ack_epoll E,
          cbind (cget lst) (\<lambda>l. cbind (do_sys E (Posix (Getsockopt (l_sock_d l) SO_SNDBUF))) (\<lambda>b.
            cseq [cwhen (a_rc b = - 1)
                    (cseq [log_l_errno E ''Error: tb_upload_random_udp: getsockopt'' (a_errno b), tb_abort E]),
                  l_start_transfer E,
                  cvoid (cwhile fuel (\<lambda>_. cget (\<lambda>s. l_total_tx_rx (lst s) < l_file_size (lst s)))
                    (udp_client_body E (a_val b)) (l_bufsize l))])),
          l_finish_transfer E,
          log_l_info E ''Waiting for ack'',
          cvoid (cwhile eofs (udp_eof_more E) (udp_eof_turn E) False),
          trylock_stat,
          log_l_info E ''Closing Connection'',
          cbind (cget lst) (\<lambda>l. cvoid (call_close E (f_close (l_protocol l)) (l_sock_d l))),
          set_l (\<lambda>l. l\<lparr>l_sock_d := - 1, l_status := TB_DISCONNECTED\<rparr>),
          unlock_stat]
       (cget (\<lambda>s. to_int (l_total_tx_rx (lst s))))"


section \<open>The client of several connections\<close>

text \<open>The list is kept by hand here: the statistics are not linked and the sessions not counted.\<close>

definition udp_list_add :: "tb_session_list_t \<Rightarrow> nat \<Rightarrow> (('w, 'z) tb_heap_scheme, tb_session_list_t) prog" where
  "udp_list_add l p =
     cbind (cint (sl_current_max_id l + 1)) (\<lambda>i.
     cdo [store_session (Some p) (\<lambda>r. r\<lparr>s_id := i\<rparr>)]
       (if sl_start l = None
        then cret (l\<lparr>sl_current_max_id := i, sl_start := Some p, sl_end := Some p\<rparr>)
        else cdo [store_session (sl_end l) (\<lambda>r. r\<lparr>s_n_session := Some p\<rparr>)]
               (cret (l\<lparr>sl_current_max_id := i, sl_end := Some p\<rparr>))))"

definition udp_session_start :: "('w, 'e) lenv_scheme \<Rightarrow> tb_listener_t \<Rightarrow> nat \<Rightarrow> (('w, 'z) tb_state_scheme, unit) prog" where
  "udp_session_start E l p =
     cseq [cbind (udp_list_add (l_session_list l) p) (\<lambda>sl. set_l (\<lambda>l. l\<lparr>l_session_list := sl\<rparr>)),
           cbind (load_session (Some p)) (\<lambda>r.
             set_l (\<lambda>l. if st_n_stats (l_stats l) = None
                        then l\<lparr>l_stats := (l_stats l)\<lparr>st_n_stats := s_stats r\<rparr>\<rparr> else l)),
           cbind (do_sys E (Posix (Thread_create Start_tb_udp_m_client_conn p))) (\<lambda>t.
             store_session (Some p) (\<lambda>r. r\<lparr>s_thread := Some (Thread_Id (a_val t))\<rparr>))]"

definition udp_session_setup :: "('w, 'e) lenv_scheme \<Rightarrow> tb_listener_t \<Rightarrow> int \<Rightarrow> nat \<Rightarrow> (('w, 'z) tb_state_scheme, unit) prog" where
  "udp_session_setup E l x p =
     cbind (load_session (Some p)) (\<lambda>r.
     cbind (cderef Null_Deref (s_addr_info r)) (\<lambda>ai.
     cbind (do_sys E (Posix (Socket (ai_family ai) (ai_socktype ai) (ai_protocol ai)))) (\<lambda>a.
     cdo [store_session (Some p) (\<lambda>r. r\<lparr>s_sock_d := a_rc a\<rparr>),
          cwhen (a_rc a = - 1) (tb_abort E)]
       (cbind (ptr_add (l_data l) (l_file_size l sdiv num_conn * x)) (\<lambda>data.
        cdo [store_session (Some p) (\<lambda>r. r\<lparr>s_l_status := Some Ref_status, s_l_txrx := Some Ref_txrx,
               s_data := data, s_data_size := to_size (l_file_size l sdiv num_conn)\<rparr>),
             store_stats (s_stats r) (\<lambda>st. st\<lparr>st_protocol := p_protocol (l_protocol l)\<rparr>),
             store_session (Some p) (\<lambda>r. r\<lparr>s_n_session := None, s_pack_size := l_bufsize l\<rparr>)]
          (udp_session_start E l p))))))"

definition udp_client_session :: "('w, 'e) lenv_scheme \<Rightarrow> int \<Rightarrow> (('w, 'z) tb_state_scheme, int) prog" where
  "udp_client_session E x =
     cbind (cget lst) (\<lambda>l.
     cbind (tb_create_session_full E (l_bind_address l) (l_bind_port l) SOCK_DGRAM 0) (\<lambda>q.
     cdo [cwhen (q = None) (cseq [log_l_errno E ''Error creating session'' 0, tb_abort E])]
       (cbind (cderef Null_Deref q) (\<lambda>p. cdo [udp_session_setup E l x p] (cret (x + 1))))))"

definition tb_udp_m_close_conn :: "('w, 'e) lenv_scheme \<Rightarrow> nat \<Rightarrow> (('w, 'z) tb_state_scheme, unit) prog" where
  "tb_udp_m_close_conn E eofs =
     cseq [udp_ack_epoll E,
           cbind (cget lst) (\<lambda>l. cbind (cderef Null_Deref (l_addr_info l)) (\<lambda>ai.
             cvoid (cwhile eofs (udp_eof_more E)
               (\<lambda>_. udp_eof_body E (cbind (cget lst) (\<lambda>l. do_sys E (Posix (Sendmsg (l_sock_d l) [] (ai_addr ai)))))) False)))]"

definition tb_udp_m_client ::
  "('w, 'e) lenv_scheme \<Rightarrow> (('w, 'z) tb_state_scheme, unit) prog \<Rightarrow> nat \<Rightarrow> nat \<Rightarrow> nat \<Rightarrow> (('w, 'z) tb_state_scheme, int) prog" where
  "tb_udp_m_client E others waits fuel eofs =
     cdo [cvoid (cwhile 4 (\<lambda>x. cret (x < num_conn)) (udp_client_session E) 0),
          cvoid (cwhile waits
            (\<lambda>_. cdo [others] (cbind (cget (\<lambda>s. sl_start (l_session_list (lst s)))) (\<lambda>st.
                    cbind (load_session st) (\<lambda>r. cret (s_status r = SESSION_CREATED)))))
            (\<lambda>_. cret ()) ()),
          l_start_transfer E,
          set_l (\<lambda>l. l\<lparr>l_status := TB_CONNECTED\<rparr>),
          cbind (cget (\<lambda>s. sl_start (l_session_list (lst s)))) (\<lambda>st.
            cvoid (cwhile fuel (\<lambda>cur. cret (cur \<noteq> None)) (\<lambda>cur. cdo [others] (join_session E cur)) st)),
          l_finish_transfer E,
          lock_stat,
          tb_udp_m_close_conn E eofs,
          set_l (\<lambda>l. l\<lparr>l_status := TB_DISCONNECTED\<rparr>),
          lock_stat]
       (cget (\<lambda>s. to_int (l_total_tx_rx (lst s))))"

text \<open>
  The thread of a session. Its locals are the result of the last \<open>sendmsg\<close>, whether it
  failed, and the last message, which is sent once more at the end. The arithmetic on
  \<open>data_size\<close> is that of \<open>size_t\<close>.
\<close>

definition udp_conn_body ::
  "('w, 'e) senv_scheme \<Rightarrow> nat \<Rightarrow> int \<times> bool \<times> byte list \<Rightarrow> (('w, 'z) tb_state_scheme, int \<times> bool \<times> byte list) prog" where
  "udp_conn_body E p l =
     cbind (load_session (Some p)) (\<lambda>r.
     cbind (cderef Null_Deref (s_addr_info r)) (\<lambda>ai.
     cbind (ptr_add (s_data r) (fst l)) (\<lambda>data.
     let rest = to_size (s_data_size r - s_total_bytes r);
         len = (if rest < to_size (s_pack_size r) then rest else to_size (s_pack_size r))
     in cbind (cread data len) (\<lambda>bs.
        let msg = int_bytes (s_id r) @ int_bytes (to_int len) @ bs in
        cbind (do_sys E (Posix (Sendmsg (s_sock_d r) msg (ai_addr ai)))) (\<lambda>a.
        let sent = to_int (a_rc a) in
        if sent = - 1 then cret (sent, True, msg)
        else cdo [store_session (Some p) (\<lambda>r. r\<lparr>s_total_bytes := s_total_bytes r + sent\<rparr>)]
               (cret (sent, False, msg)))))))"

definition udp_conn_more :: "nat \<Rightarrow> int \<times> bool \<times> byte list \<Rightarrow> (('w, 'z) tb_state_scheme, bool) prog" where
  "udp_conn_more p l =
     (if fst (snd l) then cret False
      else cbind (load_session (Some p)) (\<lambda>r. cret (to_size (s_total_bytes r) < s_data_size r)))"

definition udp_conn_end :: "('w, 'e) senv_scheme \<Rightarrow> nat \<Rightarrow> byte list \<Rightarrow> (('w, 'z) tb_state_scheme, int) prog" where
  "udp_conn_end E p msg =
     cdo [finish_timer E (Some p) s_transfer_t put_transfer,
          cbind (load_session (Some p)) (\<lambda>r. cbind (cderef Null_Deref (s_addr_info r)) (\<lambda>ai.
            cvoid (do_sys E (Posix (Sendmsg (s_sock_d r) msg (ai_addr ai)))))),
          store_session (Some p) (\<lambda>r. r\<lparr>s_status := SESSION_COMPLETE\<rparr>)]
       (cret 0)"

definition tb_udp_m_client_conn :: "('w, 'e) senv_scheme \<Rightarrow> nat \<Rightarrow> nat \<Rightarrow> (('w, 'z) tb_state_scheme, int) prog" where
  "tb_udp_m_client_conn E fuel p =
     cdo [start_timer E (Some p) s_transfer_t put_transfer]
       (cbind (load_session (Some p)) (\<lambda>r.
        cbind (cderef Null_Deref (s_addr_info r)) (\<lambda>ai.
        cbind (do_sys E (Posix (Connect (s_sock_d r) (ai_addr ai)))) (\<lambda>a.
        if a_rc a < 0 then cret (- 1)
        else cdo [finish_timer E (Some p) s_transfer_t put_transfer,
                  store_session (Some p) (\<lambda>r. r\<lparr>s_status := SESSION_CONNECTED\<rparr>),
                  start_timer E (Some p) s_transfer_t put_transfer]
               (cbind (udp_conn_body E p (0, False, [])) (\<lambda>l0.
                cbind (cwhile fuel (udp_conn_more p) (udp_conn_body E p) l0) (\<lambda>l.
                if fst (snd l) then cret (- 1) else udp_conn_end E p (snd (snd l)))))))))"


section \<open>The server of one connection\<close>

text \<open>The session the server receives into.\<close>

definition udp_server_session :: "('w, 'e) lenv_scheme \<Rightarrow> (('w, 'z) tb_state_scheme, unit) prog" where
  "udp_server_session E =
     cbind (tb_create_server_session E) (\<lambda>p.
     cbind (cget lst) (\<lambda>l.
     cseq [set_l (\<lambda>l. l\<lparr>l_curr_session := Some p\<rparr>),
           cbind (cmalloc E (to_size (l_bufsize l))) (\<lambda>d. store_session (Some p) (\<lambda>r. r\<lparr>s_data := d\<rparr>)),
           store_session (Some p) (\<lambda>r. r\<lparr>s_data_size := to_size (l_bufsize l)\<rparr>)]))"

definition udp_add_received :: "(('w, 'z) tb_state_scheme, unit) prog" where
  "udp_add_received =
     cbind (cget (\<lambda>s. l_curr_session (lst s))) (\<lambda>q.
     cbind (load_session q) (\<lambda>r. set_l (\<lambda>l. l\<lparr>l_total_tx_rx := l_total_tx_rx l + s_last_trans r\<rparr>)))"

definition udp_server_recv :: "('w, 'e) lenv_scheme \<Rightarrow> (('w, 'z) tb_state_scheme, bool) prog" where
  "udp_server_recv E =
     cbind (cget (\<lambda>s. l_curr_session (lst s))) (\<lambda>q.
     cdo [cvoid (tb_recv_from E q)]
       (cbind (cget lst) (\<lambda>l.
        cbind (load_session q) (\<lambda>r.
        if s_last_trans r = p_eot (l_protocol l)
        then cdo [log_l_info E ''UDP Sending ack'', cvoid (tb_send_to E q)] (cret True)
        else cdo [udp_add_received] (cret False)))))"

definition tb_udp_server :: "('w, 'e) lenv_scheme \<Rightarrow> nat \<Rightarrow> (('w, 'z) tb_state_scheme, int) prog" where
  "tb_udp_server E fuel =
     cdo [set_l (\<lambda>l. l\<lparr>l_status := TB_LISTENING\<rparr>),
          udp_server_session E,
          cbind (cget (\<lambda>s. l_curr_session (lst s))) (\<lambda>q. cvoid (tb_recv_from E q)),
          udp_add_received,
          set_l (\<lambda>l. l\<lparr>l_status := TB_CONNECTED\<rparr>),
          log_l_info E ''UDP Connected'',
          l_start_transfer E,
          cvoid (cwhile fuel (\<lambda>over. if over then cret False else not_ended E) (\<lambda>_. udp_server_recv E) False),
          l_finish_transfer E,
          log_l_info E ''Closing UDP Connection'',
          lock_stat,
          cbind (cget lst) (\<lambda>l. cvoid (do_sys E (Posix (Close (l_sock_d l))))),
          set_l (\<lambda>l. l\<lparr>l_sock_d := - 1, l_status := TB_DISCONNECTED\<rparr>),
          unlock_stat]
       (cget (\<lambda>s. to_int (l_total_tx_rx (lst s))))"


section \<open>The server of several connections\<close>

text \<open>
  A datagram for session \<open>i\<close>: the session is looked up by its number, or created with it, and
  counts the \<open>rc\<close> bytes that were received. \<open>q\<close> is the session of the listener.
\<close>

definition udp_session_of :: "('w, 'e) senv_scheme \<Rightarrow> nat \<Rightarrow> int \<Rightarrow> (('w, 'z) tb_state_scheme, nat) prog" where
  "udp_session_of E fuel i =
     cbind (cget (\<lambda>s. l_session_list (lst s))) (\<lambda>sl.
     cbind (tb_session_list_search fuel sl i) (\<lambda>found.
     case found of
       Some p \<Rightarrow> cret p
     | None \<Rightarrow>
         cbind (tb_create_session E) (\<lambda>p.
         cdo [store_session (Some p) (\<lambda>r. r\<lparr>s_id := i\<rparr>)]
           (cbind (tb_session_add_to sl (Some p)) (\<lambda>sl1.
            cbind (tb_session_list_inc sl1) (\<lambda>(_, sl2).
            cdo [set_l (\<lambda>l. l\<lparr>l_session_list := sl2\<rparr>)] (cret p)))))))"

definition udp_datagram :: "('w, 'e) senv_scheme \<Rightarrow> nat \<Rightarrow> nat option \<Rightarrow> int \<Rightarrow> int \<Rightarrow> (('w, 'z) tb_state_scheme, unit) prog" where
  "udp_datagram E fuel q i rc =
     cbind (udp_session_of E fuel i) (\<lambda>p.
     cseq [cbind (load_session q) (\<lambda>r. cwhen (s_n_session r = None) (store_session q (\<lambda>r. r\<lparr>s_n_session := Some p\<rparr>))),
           store_session (Some p) (\<lambda>r. r\<lparr>s_total_bytes := s_total_bytes r + rc\<rparr>)])"

text \<open>
  One turn of the receiving loop. The locals are the eight bytes of the header, which keep
  what an earlier datagram left in them, and the result once there is one. The message the
  server receives into has room for the header only: \<open>msg_iovlen\<close> is 2.
\<close>

definition udp_event_body ::
  "('w, 'e) senv_scheme \<Rightarrow> nat \<Rightarrow> int \<Rightarrow> byte list \<times> int option \<Rightarrow> (('w, 'z) tb_state_scheme, byte list \<times> int option) prog" where
  "udp_event_body E fuel sock_d l =
     cbind (cget (\<lambda>s. l_curr_session (lst s))) (\<lambda>q.
     cbind (do_sys E (Posix (Recvmsg sock_d 8))) (\<lambda>a.
     let rc = to_int (a_rc a);
         hdr = overwrite (take (nat rc) (a_bytes a)) (fst l) in
     if rc < 0 then cret (hdr, Some (if a_errno a = EWOULDBLOCK then 0 else - 1))
     else cdo [store_session q (\<lambda>r. r\<lparr>s_addr_in := Some (a_peer a)\<rparr>)]
       (if 0 < bytes_int (drop 4 hdr)
        then cdo [udp_datagram E fuel q (bytes_int (take 4 hdr)) rc] (cret (hdr, None))
        else cbind (cget lst) (\<lambda>l.
          cdo [cvoid (do_sys E (Posix (Sendmsg (l_sock_d l) [] (a_peer a)))),
               set_l (\<lambda>l. l\<lparr>l_command := TB_EXIT\<rparr>)] (cret (hdr, Some 0))))))"

definition tb_udp_event :: "('w, 'e) senv_scheme \<Rightarrow> nat \<Rightarrow> nat \<Rightarrow> int \<Rightarrow> tb_e_data \<Rightarrow> (('w, 'z) tb_state_scheme, int) prog" where
  "tb_udp_event E dgrams fuel events e_data =
     cbind (cget lst) (\<lambda>l.
     cdo [cwhen (l_status l = TB_LISTENING) (cseq [set_l (\<lambda>l. l\<lparr>l_status := TB_CONNECTED\<rparr>), l_start_transfer E]),
          cvoid (load_session (l_curr_session l))]
       (cbind (cwhile dgrams (\<lambda>l. cret (snd l = None)) (udp_event_body E fuel (ed_fd e_data))
          (int_bytes (- 1) @ int_bytes 0, None)) (\<lambda>l.
        cret (the (snd l)))))"

definition tb_udp_m_server :: "('w, 'e) lenv_scheme \<Rightarrow> nat \<Rightarrow> nat \<Rightarrow> nat \<Rightarrow> (('w, 'z) tb_state_scheme, int) prog" where
  "tb_udp_m_server E polls dgrams fuel =
     cdo [set_l (\<lambda>l. l\<lparr>l_status := TB_LISTENING\<rparr>)]
       (cbind (cget lst) (\<lambda>l.
        cbind (tb_create_e_poll E (mem_epoll E) (l_sock_d l) 10 0) (\<lambda>q.
        cdo [udp_server_session E]
          (cbind (cderef Null_Deref q) (\<lambda>ep.
           cbind (cwhile polls
              (\<lambda>l. if snd l then cret False else in_loop E)
              (\<lambda>l. cbind (tb_poll_for_events E (\<lambda>_. tb_udp_event E dgrams fuel) (fst l)) (\<lambda>(rc, ep'). cret (ep', rc < 0)))
              (ep\<lparr>ep_w_time := 50, ep_f_event := Some Fn_tb_udp_event\<rparr>, False)) (\<lambda>l.
           if snd l then cret (- 1)
           else cdo [l_finish_transfer E,
                     lock_stat,
                     cbind (cget lst) (\<lambda>l. cvoid (do_sys E (Posix (Close (l_sock_d l))))),
                     set_l (\<lambda>l. l\<lparr>l_sock_d := - 1, l_status := TB_DISCONNECTED\<rparr>),
                     lock_stat,
                     log_l_info E ''exiting m server'']
                  (cret 0)))))))"

end
