(* ===== verification/TB_Udp_Client.thy ===== *)
theory TB_Udp_Client
  imports TB_Udp TB_Stream_Sessions
begin

text \<open>
  The datagrams of the UDP client of several connections: the header of a datagram is read as
  it was written, and exactly which datagrams the thread of a session sends. The end of
  several connections: both functions lock the same lock twice.
\<close>

section \<open>The header\<close>

lemma bytes_int_eq: "bytes_int bs = to_int (foldr (\<lambda>b v. uint b + 256 * v) bs 0)"
  by (simp add: bytes_int_def)

lemma to_int_cong: "x mod 4294967296 = y mod 4294967296 \<Longrightarrow> to_int x = to_int y"
  unfolding to_int_eq_mod by (metis mod_add_left_eq)

lemma uint_byte: "uint (word_of_int x :: byte) = x mod 256"
  by (simp add: uint_word_of_int)

lemma int_bytes_expand:
  "int_bytes x = [word_of_int x, word_of_int (x div 256), word_of_int (x div 65536), word_of_int (x div 16777216)]"
  by (simp add: int_bytes_def numeral_eq_Suc)

lemma length_int_bytes [simp]: "length (int_bytes x) = 4"
  by (simp add: int_bytes_def)

lemma div_bytes: "x div 65536 = x div 256 div 256" "x div 16777216 = x div 256 div 256 div 256" for x :: int
  by (simp_all add: zdiv_zmult2_eq [symmetric])

lemma bytes_int_bytes:
  assumes "in_int x"
  shows "bytes_int (int_bytes x) = x"
proof -
  have "x mod (256 * (256 * (256 * 256))) =
      256 * (256 * (256 * (x div 256 div 256 div 256 mod 256) + x div 256 div 256 mod 256) + x div 256 mod 256) + x mod 256"
    by (simp only: zmod_zmult2_eq zero_le_numeral mult_nonneg_nonneg)
  then have "bytes_int (int_bytes x) = to_int (x mod 4294967296)"
    by (simp add: bytes_int_def int_bytes_expand uint_byte div_bytes add.commute)
  also have "\<dots> = to_int x" by (rule to_int_cong) simp
  finally show ?thesis using assms by (simp add: to_int_id)
qed

lemma low_byte: "0 \<le> a \<Longrightarrow> a < 256 \<Longrightarrow> (a + 256 * z) mod 256 = a" "0 \<le> a \<Longrightarrow> a < 256 \<Longrightarrow> (a + 256 * z) div 256 = z"
  for a z :: int
  by simp_all

lemma uint_byte_lim: "0 \<le> uint a" "uint a < 256" for a :: byte
  using uint_range_size [of a] by (simp_all add: word_size)

lemma word_of_low_byte: "word_of_int (uint a + 256 * z) = a" for a :: byte
proof -
  have "uint (word_of_int (uint a + 256 * z) :: byte) = uint a"
    by (simp only: uint_byte low_byte(1) [OF uint_byte_lim])
  then show ?thesis by (rule word_uint_eqI)
qed

lemma int_bytes_bytes:
  assumes "length bs = 4"
  shows "int_bytes (bytes_int bs) = bs"
proof -
  obtain a b c d where bs: "bs = [a, b, c, d]"
    using assms by (auto simp: numeral_eq_Suc length_Suc_conv)
  let ?x = "uint a + 256 * (uint b + 256 * (uint c + 256 * uint d))"
  have lim: "0 \<le> ?x" "?x < 4294967296"
    using uint_byte_lim [of a] uint_byte_lim [of b] uint_byte_lim [of c] uint_byte_lim [of d] by simp_all
  have "to_int ?x = ?x \<or> to_int ?x = ?x - 4294967296"
  proof (cases "?x < 2147483648")
    case True
    then show ?thesis using lim by (simp add: to_int_eq_mod)
  next
    case False
    then have "(?x + 2147483648 - 4294967296) mod 4294967296 = ?x + 2147483648 - 4294967296"
      using lim by (intro mod_pos_pos_trivial) simp_all
    then have "(?x + 2147483648) mod 4294967296 = ?x + 2147483648 - 4294967296"
      by (metis minus_mod_self2)
    then show ?thesis by (simp only: to_int_eq_mod) simp
  qed
  then obtain k where "bytes_int bs = uint a + 256 * (uint b + 256 * (uint c + 256 * (uint d + 256 * k)))"
  proof
    assume "to_int ?x = ?x"
    then show ?thesis by (intro that [of 0]) (simp add: bytes_int_def bs)
  next
    assume "to_int ?x = ?x - 4294967296"
    then show ?thesis by (intro that [of "- 1"]) (simp add: bytes_int_def bs algebra_simps)
  qed
  then show ?thesis
    by (simp only: int_bytes_expand div_bytes low_byte [OF uint_byte_lim] word_of_low_byte bs)
qed


section \<open>The datagrams of a session\<close>

text \<open>The datagrams a socket has sent, in order; the trace is newest first.\<close>

fun datagrams :: "int \<Rightarrow> (syscall \<times> int) list \<Rightarrow> byte list list" where
  "datagrams fd [] = []"
| "datagrams fd ((c, r) # tr) = datagrams fd tr @
     (case c of Posix (Sendmsg f bs to) \<Rightarrow> if f = fd \<and> r \<noteq> - 1 then [bs] else [] | _ \<Rightarrow> [])"

text \<open>A datagram is sent as a whole or not at all.\<close>

definition datagram_contract :: "('w, 'e) env_scheme \<Rightarrow> bool" where
  "datagram_contract E \<longleftrightarrow> (\<forall>fd bs to w. a_rc (fst (sys E (Posix (Sendmsg fd bs to)) w)) \<in> {- 1, int (length bs)})"

text \<open>
  What the datagrams are, for packets of \<open>P\<close> bytes: number \<open>k\<close> announces what would be left if
  every datagram so far had taken its header out of the data; the first carries the beginning
  of the data, and all others what is at \<open>P + 8\<close>.
\<close>

definition msg_len :: "nat \<Rightarrow> byte list \<Rightarrow> nat \<Rightarrow> nat" where
  "msg_len P data k = min P (length data - k * (P + 8))"

definition udp_msg :: "int \<Rightarrow> nat \<Rightarrow> byte list \<Rightarrow> nat \<Rightarrow> byte list" where
  "udp_msg i P data k = int_bytes i @ int_bytes (int (msg_len P data k)) @
     take (msg_len P data k) (drop (if k = 0 then 0 else P + 8) data)"

definition msg_total :: "nat \<Rightarrow> byte list \<Rightarrow> nat \<Rightarrow> nat" where
  "msg_total P data k = min (k * (P + 8)) (length data + 8)"

text \<open>The session after \<open>k\<close> datagrams.\<close>

definition udp_sent :: "nat \<Rightarrow> int \<Rightarrow> int \<Rightarrow> nat \<Rightarrow> byte list \<Rightarrow> nat \<Rightarrow> ('w, 'z) tb_state_scheme \<Rightarrow> bool" where
  "udp_sent p fd i P data k s \<longleftrightarrow> conn_ready p fd data s \<and> s_id (the (sess s p)) = i \<and> conn_pack p s = int P \<and>
     in_int (int P + 8) \<and> conn_total p s = int (msg_total P data k) \<and>
     datagrams fd (trace s) = map (udp_msg i P data) [0..<k]"

definition goes_on :: "nat \<Rightarrow> byte list \<Rightarrow> nat \<Rightarrow> bool" where
  "goes_on P data k \<longleftrightarrow> k = 0 \<or> k * (P + 8) < length data"

lemma msg_arith:
  assumes "goes_on P data k"
  shows "msg_total P data k = k * (P + 8)"
    and "msg_len P data k = min P (length data - msg_total P data k)"
    and "(if k = 0 then 0 else P + 8) + msg_len P data k \<le> length data"
    and "msg_total P data (Suc k) = msg_total P data k + (8 + msg_len P data k)"
    and "goes_on P data (Suc k) \<longleftrightarrow> msg_total P data (Suc k) < length data"
    and "goes_on P data (Suc k) \<Longrightarrow> msg_len P data k = P"
proof -
  define n where "n = k * (P + 8)"
  have suc: "Suc k * (P + 8) = n + P + 8" by (simp add: n_def)
  have le: "k \<noteq> 0 \<Longrightarrow> P + 8 \<le> n" unfolding n_def by (cases k) auto
  have n: "k = 0 \<Longrightarrow> n = 0" "k = 0 \<or> n < length data" using assms by (auto simp: n_def goes_on_def)
  note defs = msg_total_def msg_len_def goes_on_def n_def [symmetric] suc
  show "msg_total P data k = k * (P + 8)" using n by (auto simp: defs)
  show "msg_len P data k = min P (length data - msg_total P data k)" using n by (auto simp: defs)
  show "(if k = 0 then 0 else P + 8) + msg_len P data k \<le> length data" using n le by (auto simp: defs)
  show "msg_total P data (Suc k) = msg_total P data k + (8 + msg_len P data k)" using n by (auto simp: defs)
  show "goes_on P data (Suc k) \<longleftrightarrow> msg_total P data (Suc k) < length data" using n by (auto simp: defs)
  show "goes_on P data (Suc k) \<Longrightarrow> msg_len P data k = P" using n by (auto simp: defs)
qed

lemma udp_conn_body_sends:
  fixes s :: "('w, 'z) tb_state_scheme"
  assumes con: "datagram_contract E" and inv: "udp_sent p fd i P data k s" and on: "goes_on P data k"
    and off: "fst l = (if k = 0 then 0 else int P + 8)"
  shows "wp (udp_conn_body E p l) (\<lambda>l' s'. if fst (snd l') then udp_sent p fd i P data k s'
      else udp_sent p fd i P data (Suc k) s' \<and> snd (snd l') = udp_msg i P data k \<and> fst l' = int (8 + msg_len P data k)) R s"
proof -
  from inv obtain r d ai where r: "sess s p = Some r" "s_data r = Some d" "s_sock_d r = fd" "s_data_size r = int (length data)"
      "data = take (length data) d" "in_int (int (length data))" "s_addr_info r = Some ai" "s_id r = i"
      "s_pack_size r = int P" "in_int (int P + 8)" "s_total_bytes r = int (msg_total P data k)"
      "datagrams fd (trace s) = map (udp_msg i P data) [0..<k]" "s_connect_t r \<noteq> None" "s_transfer_t r \<noteq> None" "0 < P"
    by (auto simp: udp_sent_def conn_ready_def conn_pack_def conn_total_def)
  let ?len = "msg_len P data k" and ?off = "if k = 0 then 0 else P + 8"
  note ar = msg_arith [OF on]
  have total: "msg_total P data k \<le> length data" using on ar(1) by (auto simp: goes_on_def)
  have rest: "to_size (int (length data) - int (msg_total P data k)) = int (length data - msg_total P data k)"
    using total r(6) by (subst to_size_id) (auto simp: in_int_def)
  have size: "to_size (int P) = int P" using r(10) by (intro to_size_id) (auto simp: in_int_def)
  have len: "(if length data - msg_total P data k < P then int (length data - msg_total P data k) else int P) = int ?len"
    unfolding ar(2) by auto
  have le: "length data \<le> length d" using r(5) by (metis length_take min.cobounded1 min.commute nat_le_linear take_all_iff)
  have offi: "fst l = int ?off" using off by simp
  have ptr: "ptr_add (Some d) (int ?off) = (cret (Some (drop ?off d)) :: (('w, 'z) tb_state_scheme, _) prog)"
    using ar(3) le by (simp only: ptr_add_def) auto
  have payload: "take ?len (drop ?off d) = take ?len (drop ?off data)"
  proof -
    have "take ?len (drop ?off (take (length data) d)) = take ?len (drop ?off d)"
      using ar(3) by (simp add: drop_take min_absorb1)
    then show ?thesis using r(5) by simp
  qed
  have buf: "cread (Some (drop ?off d)) (int ?len) = (cret (take ?len (drop ?off data)) :: (('w, 'z) tb_state_scheme, _) prog)"
    using ar(3) le payload by (auto simp: cread_def)
  have int: "to_int (int ?len) = int ?len" "to_int (int (8 + ?len)) = int (8 + ?len)"
    using r(10) by (auto intro!: to_int_id simp: in_int_def msg_len_def)
  let ?c = "Posix (Sendmsg fd (udp_msg i P data k) (ai_addr ai))"
  obtain a w where a: "sys E ?c (world s) = (a, w)" by force
  have body: "wp (udp_conn_body E p l) Q R s = (let t = s\<lparr>world := w, trace := (?c, a_rc a) # trace s\<rparr> in
      if to_int (a_rc a) = - 1 then Q (to_int (a_rc a), True, udp_msg i P data k) t
      else Q (to_int (a_rc a), False, udp_msg i P data k)
        (t\<lparr>sess := (sess s)(p \<mapsto> r\<lparr>s_total_bytes := s_total_bytes r + to_int (a_rc a)\<rparr>)\<rparr>))" for Q
    using r(1-4,7-9,11) a
    by (simp add: udp_conn_body_def wp_cbind wp_load_session wp_cderef wp_do_sys wp_if wp_cret wp_cdo wp_cseq_Cons
        wp_cseq_Nil wp_store_session Let_def rest size len offi ptr buf int udp_msg_def split del: if_split cong del: if_weak_cong)
  have "a_rc a = - 1 \<or> a_rc a = int (length (udp_msg i P data k))"
    using con a unfolding datagram_contract_def by (metis fst_conv insertE singletonD)
  moreover have "length (udp_msg i P data k) = 8 + ?len" using ar(3) by (simp add: udp_msg_def)
  ultimately consider "a_rc a = - 1" | "a_rc a = int (8 + ?len)" by fastforce
  then show ?thesis
  proof cases
    case 1
    then have "to_int (a_rc a) = - 1" by (simp add: to_int_id in_int_def)
    then show ?thesis using inv 1
      by (auto simp: body Let_def udp_sent_def conn_ready_def conn_pack_def conn_total_def)
  next
    case 2
    then show ?thesis using inv r(1) int(2) ar(4)
      by (auto simp: body Let_def udp_sent_def conn_ready_def conn_pack_def conn_total_def)
  qed
qed


text \<open>The number of datagrams, which the data alone would have needed fewer of.\<close>

definition msg_count :: "nat \<Rightarrow> byte list \<Rightarrow> nat" where
  "msg_count P data = (if data = [] then 1 else (length data + (P + 7)) div (P + 8))"

lemma msg_count_last:
  assumes "goes_on P data k" and "\<not> goes_on P data (Suc k)"
  shows "msg_count P data = Suc k"
proof (cases "data = []")
  case True
  with assms show ?thesis by (simp add: msg_count_def goes_on_def)
next
  case False
  then have "k * (P + 8) < length data" "length data \<le> Suc k * (P + 8)" using assms by (auto simp: goes_on_def)
  then have "(length data + (P + 7)) div (P + 8) = Suc k"
    by (intro div_nat_eqI) (simp_all add: algebra_simps)
  with False show ?thesis by (simp add: msg_count_def)
qed

definition udp_loop_inv ::
  "nat \<Rightarrow> int \<Rightarrow> int \<Rightarrow> nat \<Rightarrow> byte list \<Rightarrow> int \<times> bool \<times> byte list \<Rightarrow> ('w, 'z) tb_state_scheme \<Rightarrow> bool" where
  "udp_loop_inv p fd i P data l s \<longleftrightarrow> (if fst (snd l) then \<exists>k. udp_sent p fd i P data k s
     else \<exists>k. udp_sent p fd i P data (Suc k) s \<and> goes_on P data k \<and> snd (snd l) = udp_msg i P data k \<and>
       fst l = int (8 + msg_len P data k))"

lemma udp_conn_body_keeps:
  fixes s :: "('w, 'z) tb_state_scheme"
  assumes con: "datagram_contract E" and inv: "udp_sent p fd i P data k s" and on: "goes_on P data k"
    and off: "fst l = (if k = 0 then 0 else int P + 8)"
  shows "wp (udp_conn_body E p l) (\<lambda>l' s'. udp_loop_inv p fd i P data l' s' \<and>
      (fst (snd l') \<or> conn_total p s < conn_total p s')) R s"
proof (rule wp_mono [OF udp_conn_body_sends [OF assms]])
  fix l' s'
  assume l': "if fst (snd l') then udp_sent p fd i P data k s'
      else udp_sent p fd i P data (Suc k) s' \<and> snd (snd l') = udp_msg i P data k \<and> fst l' = int (8 + msg_len P data k)"
  have "conn_total p s' = conn_total p s + int (8 + msg_len P data k)" if "udp_sent p fd i P data (Suc k) s'"
    using that inv msg_arith(4) [OF on] by (simp add: udp_sent_def)
  with l' on show "udp_loop_inv p fd i P data l' s' \<and> (fst (snd l') \<or> conn_total p s < conn_total p s')"
    by (auto simp: udp_loop_inv_def split: if_splits)
qed

lemma udp_sent_more:
  assumes "udp_sent p fd i P data k s"
  shows "wp (udp_conn_more p (n, False, msg)) (\<lambda>go s'. s' = s \<and> (go \<longleftrightarrow> msg_total P data k < length data)) R s"
proof -
  from assms obtain r where r: "sess s p = Some r" "s_data_size r = int (length data)"
      "s_total_bytes r = int (msg_total P data k)" "in_int (int (length data))"
    by (auto simp: udp_sent_def conn_ready_def conn_total_def)
  have "to_size (int (msg_total P data k)) = int (msg_total P data k)"
    using r(4) by (intro to_size_id) (auto simp: in_int_def msg_total_def)
  with r show ?thesis by (simp add: udp_conn_more_def wp_rules)
qed

lemma udp_conn_loop:
  fixes s :: "('w, 'z) tb_state_scheme" and E :: "('w, 'e) senv_scheme"
  assumes con: "datagram_contract E" and inv: "udp_loop_inv p fd i P data l s" and fuel: "length data \<le> fuel"
  shows "wp (cwhile fuel (udp_conn_more p) (udp_conn_body E p) l) (\<lambda>l' s'. udp_loop_inv p fd i P data l' s' \<and>
      (fst (snd l') \<or> int (length data) \<le> conn_total p s')) R s"
proof (rule wp_cwhile [where I = "udp_loop_inv p fd i P data" and
      \<mu> = "\<lambda>l (s :: ('w, 'z) tb_state_scheme). if fst (snd l) then 0 else nat (int (length data) - conn_total p s)"])
  show "udp_loop_inv p fd i P data l s" by (rule inv)
  have "conn_total p s \<ge> 0 \<or> fst (snd l)" using inv by (auto simp: udp_loop_inv_def udp_sent_def split: if_splits)
  then show "(if fst (snd l) then 0 else nat (int (length data) - conn_total p s)) \<le> fuel" using fuel by auto
  fix l and s :: "('w, 'z) tb_state_scheme"
  assume inv: "udp_loop_inv p fd i P data l s"
  obtain n failed msg where l: "l = (n, failed, msg)" by (cases l)
  show "wp (udp_conn_more p l) (\<lambda>go s'. if go then udp_loop_inv p fd i P data l s' \<and>
        (if fst (snd l) then 0 else nat (int (length data) - conn_total p s')) \<le>
          (if fst (snd l) then 0 else nat (int (length data) - conn_total p s)) \<and>
        0 < (if fst (snd l) then 0 else nat (int (length data) - conn_total p s')) \<and>
        wp (udp_conn_body E p l) (\<lambda>l'' s''. udp_loop_inv p fd i P data l'' s'' \<and>
          (if fst (snd l'') then 0 else nat (int (length data) - conn_total p s'')) <
          (if fst (snd l) then 0 else nat (int (length data) - conn_total p s'))) R s'
      else udp_loop_inv p fd i P data l s' \<and> (fst (snd l) \<or> int (length data) \<le> conn_total p s')) R s"
  proof (cases failed)
    case True
    then show ?thesis using inv by (simp add: l udp_conn_more_def wp_cret)
  next
    case False
    then obtain k where k: "udp_sent p fd i P data (Suc k) s" "goes_on P data k" "n = int (8 + msg_len P data k)"
      using inv by (auto simp: l udp_loop_inv_def)
    have total: "conn_total p s = int (msg_total P data (Suc k))" using k(1) by (simp add: udp_sent_def)
    have body: "wp (udp_conn_body E p (n, False, msg)) (\<lambda>l'' s''. udp_loop_inv p fd i P data l'' s'' \<and>
          (if fst (snd l'') then 0 else nat (int (length data) - conn_total p s'')) < nat (int (length data) - conn_total p s)) R s"
      if less: "msg_total P data (Suc k) < length data"
    proof (rule wp_mono [OF udp_conn_body_keeps [OF con k(1)]])
      have on: "goes_on P data (Suc k)" using less msg_arith(5) [OF k(2)] by simp
      then show "goes_on P data (Suc k)" .
      show "fst (n, False, msg) = (if Suc k = 0 then 0 else int P + 8)"
        using msg_arith(6) [OF k(2) on] k(3) by simp
    qed (use less total in auto)
    have l: "l = (n, False, msg)" using l False by simp
    show ?thesis
      unfolding l
    proof (rule wp_mono [OF udp_sent_more [OF k(1)]])
      fix go s' assume "s' = s \<and> go = (msg_total P data (Suc k) < length data)"
      with body inv total show "if go then udp_loop_inv p fd i P data (n, False, msg) s' \<and>
        (if fst (snd (n, False, msg)) then 0 else nat (int (length data) - conn_total p s')) \<le>
          (if fst (snd (n, False, msg)) then 0 else nat (int (length data) - conn_total p s)) \<and>
        0 < (if fst (snd (n, False, msg)) then 0 else nat (int (length data) - conn_total p s')) \<and>
        wp (udp_conn_body E p (n, False, msg)) (\<lambda>l'' s''. udp_loop_inv p fd i P data l'' s'' \<and>
          (if fst (snd l'') then 0 else nat (int (length data) - conn_total p s'')) <
          (if fst (snd (n, False, msg)) then 0 else nat (int (length data) - conn_total p s'))) R s'
      else udp_loop_inv p fd i P data (n, False, msg) s' \<and> (fst (snd (n, False, msg)) \<or> int (length data) \<le> conn_total p s')"
        by (simp add: l)
    qed
  qed
qed


text \<open>The thread of a session.\<close>

definition udp_result :: "nat \<Rightarrow> int \<Rightarrow> int \<Rightarrow> nat \<Rightarrow> byte list \<Rightarrow> int \<Rightarrow> ('w, 'z) tb_state_scheme \<Rightarrow> bool" where
  "udp_result p fd i P data rc s \<longleftrightarrow>
     (rc = 0 \<and> s_status (the (sess s p)) = SESSION_COMPLETE \<and>
       (\<exists>ms\<in>{[], [udp_msg i P data (msg_count P data - 1)]}.
          datagrams fd (trace s) = map (udp_msg i P data) [0..<msg_count P data] @ ms)) \<or>
     (rc = - 1 \<and> (\<exists>k. datagrams fd (trace s) = map (udp_msg i P data) [0..<k]))"

lemma udp_sent_steps:
  assumes inv: "udp_sent p fd i P data k s"
  shows "wp (start_timer E (Some p) s_transfer_t put_transfer) (\<lambda>_. udp_sent p fd i P data k) R s"
    and "wp (finish_timer E (Some p) s_transfer_t put_transfer) (\<lambda>_. udp_sent p fd i P data k) R s"
    and "wp (store_session (Some p) (\<lambda>r. r\<lparr>s_status := st\<rparr>)) (\<lambda>_. udp_sent p fd i P data k) R s"
proof -
  from inv obtain r where r: "sess s p = Some r" "s_transfer_t r \<noteq> None" by (auto simp: udp_sent_def conn_ready_def)
  show "wp (start_timer E (Some p) s_transfer_t put_transfer) (\<lambda>_. udp_sent p fd i P data k) R s"
    and "wp (finish_timer E (Some p) s_transfer_t put_transfer) (\<lambda>_. udp_sent p fd i P data k) R s"
    and "wp (store_session (Some p) (\<lambda>r. r\<lparr>s_status := st\<rparr>)) (\<lambda>_. udp_sent p fd i P data k) R s"
    using r inv by (auto simp: start_timer_def finish_timer_def wp_rules udp_sent_def conn_ready_def conn_total_def
        conn_pack_def split: prod.splits)
qed

lemma udp_conn_ends:
  assumes con: "datagram_contract E" and inv: "udp_sent p fd i P data (Suc k) s" and last: "msg_count P data = Suc k"
    and msg: "msg = udp_msg i P data k"
  shows "wp (udp_conn_end E p msg) (udp_result p fd i P data) R s"
proof -
  from inv obtain r ai where r: "sess s p = Some r" "s_transfer_t r \<noteq> None" "s_addr_info r = Some ai" "s_sock_d r = fd"
    by (auto simp: udp_sent_def conn_ready_def)
  then show ?thesis
    using inv last msg
    by (auto simp: udp_conn_end_def finish_timer_def wp_rules udp_sent_def udp_result_def split: prod.splits)
qed

lemma udp_conn_transfers:
  fixes s :: "('w, 'z) tb_state_scheme" and E :: "('w, 'e) senv_scheme"
  assumes con: "datagram_contract E" and inv: "udp_sent p fd i P data 0 s" and fuel: "length data \<le> fuel"
  shows "wp (cbind (udp_conn_body E p (0, False, [])) (\<lambda>l0.
      cbind (cwhile fuel (udp_conn_more p) (udp_conn_body E p) l0) (\<lambda>l.
      if fst (snd l) then cret (- 1) else udp_conn_end E p (snd (snd l))))) (udp_result p fd i P data) R s"
proof -
  have finish: "wp (if fst (snd l) then cret (- 1) else udp_conn_end E p (snd (snd l))) (udp_result p fd i P data) R t"
    if t: "udp_loop_inv p fd i P data l t" "fst (snd l) \<or> int (length data) \<le> conn_total p t"
    for l and t :: "('w, 'z) tb_state_scheme"
  proof (cases "fst (snd l)")
    case True
    then show ?thesis using t(1) by (auto simp: udp_loop_inv_def udp_sent_def udp_result_def wp_cret)
  next
    case False
    then obtain k where k: "udp_sent p fd i P data (Suc k) t" "goes_on P data k" "snd (snd l) = udp_msg i P data k"
      using t(1) by (auto simp: udp_loop_inv_def)
    have "\<not> goes_on P data (Suc k)"
      using t(2) False k(1) msg_arith(5) [OF k(2)] by (simp add: udp_sent_def)
    with False k show ?thesis
      using udp_conn_ends [OF con k(1) msg_count_last k(3), OF k(2), of R] by simp
  qed
  show ?thesis
    unfolding wp_cbind
  proof (rule wp_mono [OF udp_conn_body_keeps [OF con inv]])
    fix l0 :: "int \<times> bool \<times> byte list" and t :: "('w, 'z) tb_state_scheme"
    assume "udp_loop_inv p fd i P data l0 t \<and> (fst (snd l0) \<or> conn_total p s < conn_total p t)"
    then show "wp (cwhile fuel (udp_conn_more p) (udp_conn_body E p) l0) (\<lambda>l. wp (if fst (snd l) then cret (- 1)
        else udp_conn_end E p (snd (snd l))) (udp_result p fd i P data) R) R t"
      using finish by (auto intro!: wp_mono [OF udp_conn_loop [OF con _ fuel]])
  qed (auto simp: goes_on_def)
qed

lemma wp_tb_udp_m_client_conn:
  fixes s :: "('w, 'z) tb_state_scheme" and E :: "('w, 'e) senv_scheme"
  assumes con: "datagram_contract E" and inv: "udp_sent p fd i P data 0 s" and fuel: "length data \<le> fuel"
  shows "wp (tb_udp_m_client_conn E fuel p) (udp_result p fd i P data) (\<lambda>_ _. False) s"
proof -
  let ?I = "udp_sent p fd i P data 0"
  let ?rest = "cdo [finish_timer E (Some p) s_transfer_t put_transfer,
      store_session (Some p) (\<lambda>r. r\<lparr>s_status := SESSION_CONNECTED\<rparr>),
      start_timer E (Some p) s_transfer_t put_transfer]
    (cbind (udp_conn_body E p (0, False, [])) (\<lambda>l0.
      cbind (cwhile fuel (udp_conn_more p) (udp_conn_body E p) l0) (\<lambda>l.
      if fst (snd l) then cret (- 1) else udp_conn_end E p (snd (snd l)))))"
  have rest: "wp ?rest (udp_result p fd i P data) (\<lambda>_ _. False) t" if "?I t" for t :: "('w, 'z) tb_state_scheme"
    unfolding wp_cdo
    apply (rule wp_step, rule udp_sent_steps(2) [OF that])
    apply (rule wp_step, erule udp_sent_steps(3))
    apply (rule wp_step, erule udp_sent_steps(1))
    apply (unfold wp_cseq_Nil)
    apply (erule udp_conn_transfers [OF con _ fuel])
    done
  show ?thesis
    unfolding tb_udp_m_client_conn_def wp_cdo
  proof (rule wp_step, rule udp_sent_steps(1) [OF inv], unfold wp_cseq_Nil)
    fix t :: "('w, 'z) tb_state_scheme" assume t: "?I t"
    then obtain r ai where r: "sess t p = Some r" "s_addr_info r = Some ai" "s_sock_d r = fd"
      by (auto simp: udp_sent_def conn_ready_def)
    obtain a w where a: "sys E (Posix (Connect fd (ai_addr ai))) (world t) = (a, w)" by force
    let ?t = "t\<lparr>world := w, trace := (Posix (Connect fd (ai_addr ai)), a_rc a) # trace t\<rparr>"
    have t': "?I ?t" using t by (simp add: udp_sent_def conn_ready_def conn_total_def conn_pack_def)
    have "datagrams fd (trace ?t) = map (udp_msg i P data) [0..<0]" using t' by (simp add: udp_sent_def)
    then have fail: "udp_result p fd i P data (- 1) ?t" unfolding udp_result_def by blast
    show "wp (cbind (load_session (Some p)) (\<lambda>r. cbind (cderef Null_Deref (s_addr_info r)) (\<lambda>ai.
        cbind (do_sys E (Posix (Connect (s_sock_d r) (ai_addr ai)))) (\<lambda>a.
        if a_rc a < 0 then cret (- 1) else ?rest)))) (udp_result p fd i P data) (\<lambda>_ _. False) t"
      using r a fail rest [OF t'] by (simp add: wp_cbind wp_load_session wp_cderef wp_do_sys wp_cret)
  qed
qed


section \<open>The end of several connections\<close>

text \<open>What holds of the state throughout, however a function ends.\<close>

lemma wp_true [simp]: "wp m (\<lambda>_ _. True) (\<lambda>_ _. True) s"
  by (simp add: wp_def split: result.splits)

lemma cwhile_keeps:
  assumes "I s" and "\<And>l s. I s \<Longrightarrow> wp (c l) (\<lambda>_. I) (\<lambda>_ _. True) s" and "\<And>l s. I s \<Longrightarrow> wp (b l) (\<lambda>_. I) (\<lambda>_ _. True) s"
  shows "wp (cwhile n c b l) (\<lambda>_. I) (\<lambda>_ _. True) s"
  using assms(1)
proof (induction n arbitrary: l s)
  case 0
  then show ?case by (subst cwhile.simps) (auto simp: wp_rules intro!: wp_mono [OF assms(2)])
next
  case (Suc n)
  have "wp (b l) (\<lambda>x. wp (cwhile n c b x) (\<lambda>_. I) (\<lambda>_ _. True)) (\<lambda>_ _. True) s'" if "I s'" for s'
    by (rule wp_mono [OF assms(3) [OF that]]) (auto intro: Suc.IH)
  then show ?case
    by (subst cwhile.simps) (auto simp: wp_rules intro!: wp_mono [OF assms(2) [OF Suc.prems]])
qed

lemma poll_loop_keeps:
  assumes "I s" and "\<And>ev s. I s \<Longrightarrow> wp (f ev (ep_grp_data ep)) (\<lambda>_. I) (\<lambda>_ _. True) s"
  shows "wp (tb_poll_loop f ep i k) (\<lambda>_. I) (\<lambda>_ _. True) s"
  using assms(1)
proof (induction k arbitrary: i s)
  case (Suc k)
  have "wp (f ev (ep_grp_data ep)) (\<lambda>_. wp (cseq []) (\<lambda>_. wp (tb_poll_loop f ep (Suc i) k) (\<lambda>_. I) (\<lambda>_ _. True))
      (\<lambda>_ _. True)) (\<lambda>_ _. True) s" for ev
    by (rule wp_mono [OF assms(2) [OF Suc.prems]]) (auto simp: wp_cseq_Nil intro: Suc.IH)
  then show ?case using Suc.prems by (simp add: wp_rules)
qed (simp add: wp_rules)

text \<open>Waiting for the acknowledgement keeps the lock of the statistics.\<close>

abbreviation (input) locked :: "('w, 'z) tb_state_scheme \<Rightarrow> bool" where
  "locked s \<equiv> l_stat_lock (lst s)"

lemma ack_wait_keeps:
  fixes s :: "('w, 'z) tb_state_scheme"
  assumes "locked s"
  shows "wp (udp_poll_ack E) (\<lambda>_. locked) (\<lambda>_ _. True) s"
    and "wp (udp_ack_epoll F) (\<lambda>_. locked) (\<lambda>_ _. True) s"
    and "wp (read_command E) (\<lambda>_. locked) (\<lambda>_ _. True) s"
    and "wp (log_l_info E info) (\<lambda>_. locked) (\<lambda>_ _. True) s"
    and "wp (log_l_errno E info e) (\<lambda>_. locked) (\<lambda>_ _. True) s"
proof -
  have infos: "wp (log_l_info E info) (\<lambda>_. locked) (\<lambda>_ _. True) s" if "locked s" for info and s :: "('w, 'z) tb_state_scheme"
    using that by (auto simp: log_l_info_def tb_log_info_def tb_write_log_def wp_rules Let_def split: option.splits prod.splits)
  then show "wp (log_l_info E info) (\<lambda>_. locked) (\<lambda>_ _. True) s" using assms by blast
  have ack: "wp (tb_udp_ack E ev d) (\<lambda>_. locked) (\<lambda>_ _. True) s" if "locked s" for ev d and s :: "('w, 'z) tb_state_scheme"
    using wp_mono [OF infos [OF that]] by (auto simp: tb_udp_ack_def wp_rules)
  have polls: "wp (tb_poll_for_events E (\<lambda>_. tb_udp_ack E) ep) (\<lambda>_. locked) (\<lambda>_ _. True) s" for ep
  proof -
    have poll: "wp (tb_poll_loop (\<lambda>ev d. case ep_f_event ep of None \<Rightarrow> chalt (Undefined Null_Call) | Some f \<Rightarrow> tb_udp_ack E ev d)
        ep' i k) (\<lambda>_. locked) (\<lambda>_ _. True) (s\<lparr>world := w, trace := tr\<rparr>)" for ep' i k w tr
      using assms by (intro poll_loop_keeps) (auto simp: wp_rules ack split: option.split)
    show ?thesis
      by (auto simp: tb_poll_for_events_def wp_cbind wp_do_sys wp_cret Let_def split: prod.splits intro!: wp_mono [OF poll])
  qed
  show "wp (udp_poll_ack E) (\<lambda>_. locked) (\<lambda>_ _. True) s"
    by (auto simp: udp_poll_ack_def wp_rules split: option.splits intro!: wp_mono [OF polls])
  show "wp (udp_ack_epoll F) (\<lambda>_. locked) (\<lambda>_ _. True) s"
    using assms by (auto simp: udp_ack_epoll_def tb_create_e_poll_def tb_add_socket_def tb_destroy_epoll_def wp_rules Let_def
        split: prod.splits option.splits)
  show "wp (read_command E) (\<lambda>_. locked) (\<lambda>_ _. True) s"
    using assms by (auto simp: read_command_def sig_action_def wp_rules split: prod.splits)
  show "wp (log_l_errno E info e) (\<lambda>_. locked) (\<lambda>_ _. True) s"
    using assms by (auto simp: log_l_errno_def tb_log_error_no_def tb_log_info_def tb_write_log_def wp_rules Let_def
        split: option.splits prod.splits)
qed

lemma close_conn_keeps:
  fixes s :: "('w, 'z) tb_state_scheme"
  assumes "locked s"
  shows "wp (tb_udp_m_close_conn E eofs) (\<lambda>_. locked) (\<lambda>_ _. True) s"
proof -
  have more: "wp (udp_eof_more E l) (\<lambda>_. locked) (\<lambda>_ _. True) t" if "locked t" for l and t :: "('w, 'z) tb_state_scheme"
    using that by (auto simp: udp_eof_more_def wp_rules intro!: wp_mono [OF ack_wait_keeps(3) [OF that]])
  have body: "wp (udp_eof_body E (cbind (cget lst) (\<lambda>l. do_sys E (Posix (Sendmsg (l_sock_d l) [] ad))))) (\<lambda>_. locked) (\<lambda>_ _. True) t"
    if "locked t" for ad and t :: "('w, 'z) tb_state_scheme"
  proof -
    have wait: "wp (udp_poll_ack E) (\<lambda>_. locked) (\<lambda>_ _. True) (t\<lparr>world := w, trace := tr\<rparr>)"
      and fail: "wp (log_l_errno E info e) (\<lambda>_. locked) (\<lambda>_ _. True) (t\<lparr>world := w, trace := tr\<rparr>)" for w tr info e
      using that by (auto intro!: ack_wait_keeps)
    show ?thesis
      by (auto simp: udp_eof_body_def wp_rules split: prod.splits intro!: wp_mono [OF wait] wp_mono [OF fail])
  qed
  have loop: "wp (cwhile eofs (udp_eof_more E) (\<lambda>_. udp_eof_body E (cbind (cget lst) (\<lambda>l. do_sys E (Posix (Sendmsg (l_sock_d l) [] ad))))) False)
      (\<lambda>_. locked) (\<lambda>_ _. True) t" if "locked t" for ad and t :: "('w, 'z) tb_state_scheme"
    using that more body by (rule cwhile_keeps)
  show ?thesis
    unfolding tb_udp_m_close_conn_def
    by (rule wp_step, rule ack_wait_keeps(2) [OF assms])
      (auto simp: wp_rules split: option.splits intro!: wp_mono [OF loop])
qed

text \<open>What comes after the first lock leads to the second.\<close>

lemma m_client_blocks:
  assumes "\<not> locked s"
  shows "wp (cseq [lock_stat, tb_udp_m_close_conn E eofs, set_l (\<lambda>l. l\<lparr>l_status := TB_DISCONNECTED\<rparr>), lock_stat])
    (\<lambda>_ _. False) (\<lambda>_ _. True) s"
proof -
  have "locked (s\<lparr>lst := (lst s)\<lparr>l_stat_lock := True\<rparr>\<rparr>)" by simp
  from close_conn_keeps [OF this, of E eofs] show ?thesis
    using assms by (auto simp: lock_stat_def wp_rules elim!: wp_mono)
qed

lemma wp_tb_udp_m_client: "wp (tb_udp_m_client E others waits fuel eofs) (\<lambda>_ _. False) (\<lambda>_ _. True) s"
proof -
  have blocks: "wp (cseq [lock_stat, tb_udp_m_close_conn E eofs, set_l (\<lambda>l. l\<lparr>l_status := TB_DISCONNECTED\<rparr>), lock_stat])
    (\<lambda>_ _. False) (\<lambda>_ _. True) t" for t
    using m_client_blocks [of t E eofs] by (cases "locked t") (simp_all add: lock_stat_def wp_rules)
  show ?thesis
    unfolding tb_udp_m_client_def wp_cdo
    by (rule wp_step [where I = "\<lambda>_. True", OF wp_true], rule wp_step [where I = "\<lambda>_. True", OF wp_true],
        rule wp_step [where I = "\<lambda>_. True", OF wp_true], rule wp_step [where I = "\<lambda>_. True", OF wp_true],
        rule wp_step [where I = "\<lambda>_. True", OF wp_true], rule wp_step [where I = "\<lambda>_. True", OF wp_true],
        rule wp_mono [OF blocks]) simp_all
qed

lemma m_server_blocks:
  "wp (cdo [l_finish_transfer E, lock_stat,
        cbind (cget lst) (\<lambda>l. cvoid (do_sys E (Posix (Close (l_sock_d l))))),
        set_l (\<lambda>l. l\<lparr>l_sock_d := - 1, l_status := TB_DISCONNECTED\<rparr>), lock_stat,
        log_l_info E ''exiting m server''] (cret 0)) Q
     (\<lambda>h t. h = Blocked \<and> (\<not> locked s \<longrightarrow> l_sock_d (lst t) = - 1 \<and> l_status (lst t) = TB_DISCONNECTED)) s"
  by (auto simp: l_finish_transfer_def lock_stat_def wp_rules split: prod.splits)

lemma wp_tb_udp_m_server:
  fixes s :: "('w, 'z) tb_state_scheme"
  shows "wp (tb_udp_m_server E polls dgrams fuel) (\<lambda>rc _. rc = - 1) (\<lambda>_ _. True) s"
proof -
  have rest: "wp (if snd l then cret (- 1) else cdo [l_finish_transfer E, lock_stat,
        cbind (cget lst) (\<lambda>l. cvoid (do_sys E (Posix (Close (l_sock_d l))))),
        set_l (\<lambda>l. l\<lparr>l_sock_d := - 1, l_status := TB_DISCONNECTED\<rparr>), lock_stat,
        log_l_info E ''exiting m server''] (cret 0)) (\<lambda>rc _. rc = - 1) (\<lambda>_ _. True) t"
    for l :: "tb_epoll_t \<times> bool" and t :: "('w, 'z) tb_state_scheme"
    by (cases "snd l") (auto simp: wp_cret intro!: wp_mono [OF m_server_blocks])
  have any: "wp m P (\<lambda>_ _. True) t" if "\<And>x t. P x t" for m :: "(('w, 'z) tb_state_scheme, 'x) prog" and P t
    by (rule wp_mono [OF wp_true]) (use that in auto)
  show ?thesis
    unfolding tb_udp_m_server_def wp_cdo wp_cbind
    by (rule rest | rule any | simp only: wp_cseq_Nil)+
qed


section \<open>Properties\<close>


text \<open>C18: what the thread of a UDP client's session sends. When a datagram is sent whole or not at
  all, the thread always returns; with 0 it has sent, in order, the \<open>msg_count\<close> datagrams that
  \<open>udp_msg\<close> lists, and the last one once more if that could be sent. The first carries the first
  packet of the session's data, and every other one the bytes that start at the packet size
  plus eight: the offset is the size of the last datagram, not the sum. The rest of the data is
  never sent, and as the headers are counted as data there are fewer datagrams than packets.
  With -1 a call has failed after a beginning of them.\<close>

theorem udp_session_datagrams:
  assumes "datagram_contract E" and "conn_ready p fd data s" and "conn_total p s = 0"
    and "conn_pack p s = int P" and "in_int (int P + 8)" and "datagrams fd (trace s) = []" and "length data \<le> fuel"
  shows "\<exists>rc s'. tb_udp_m_client_conn E fuel p s = Ok rc s' \<and>
    (let msg = udp_msg (s_id (the (sess s p))) P data; n = msg_count P data in
      rc = 0 \<and> s_status (the (sess s' p)) = SESSION_COMPLETE \<and>
        (\<exists>ms\<in>{[], [msg (n - 1)]}. datagrams fd (trace s') = map msg [0..<n] @ ms) \<or>
      rc = - 1 \<and> (\<exists>k. datagrams fd (trace s') = map msg [0..<k]))"
proof -
  have "udp_sent p fd (s_id (the (sess s p))) P data 0 s" using assms by (simp add: udp_sent_def msg_total_def)
  from wp_tb_udp_m_client_conn [OF assms(1) this assms(7)] show ?thesis
    unfolding wp_returns udp_result_def Let_def .
qed


end
