(* ===== verification/TB_Udp_Server.thy ===== *)
theory TB_Udp_Server
  imports TB_Udp_Client
begin

text \<open>
  The UDP server of several connections against what it is for: an account per session
  number, to which every datagram adds the bytes it brought. The abstract state is a map from
  session numbers to totals; a batch of datagrams is the list of their numbers and sizes.
\<close>

section \<open>Accounts\<close>

definition account :: "('w, 'z) tb_heap_scheme \<Rightarrow> nat \<Rightarrow> (int \<times> int) option" where
  "account s a = map_option (\<lambda>r. (s_id r, s_total_bytes r)) (sess s a)"

definition tally :: "('w, 'z) tb_heap_scheme \<Rightarrow> (nat \<times> nat) list \<Rightarrow> int \<Rightarrow> int option" where
  "tally s ps = map_of (map (\<lambda>(a, b). the (account s a)) ps)"

text \<open>What a datagram of \<open>n\<close> bytes for session \<open>i\<close> does to the accounts.\<close>

definition count :: "int \<times> int \<Rightarrow> (int \<Rightarrow> int option) \<Rightarrow> int \<Rightarrow> int option" where
  "count d m = (case d of (i, n) \<Rightarrow> m(i \<mapsto> (case m i of None \<Rightarrow> 0 | Some t \<Rightarrow> t) + n))"

lemma session_ids_accounts: "session_ids s ps = map (\<lambda>(a, b). s_id (the (sess s a))) ps"
  by (simp add: session_ids_def)

lemma account_links: "same_but_links s s' \<Longrightarrow> account s' a = account s a"
proof -
  assume "same_but_links s s'"
  then have eq: "map_option (s_n_session_update (\<lambda>_. None)) (sess s' a) = map_option (s_n_session_update (\<lambda>_. None)) (sess s a)"
    by (simp add: same_but_links_def)
  show ?thesis
  proof (cases "sess s a")
    case (Some r)
    with eq obtain r' where r': "sess s' a = Some r'" "r'\<lparr>s_n_session := None\<rparr> = r\<lparr>s_n_session := None\<rparr>" by auto
    from arg_cong [OF r'(2), of s_id] arg_cong [OF r'(2), of s_total_bytes] r'(1) Some
    show ?thesis by (simp add: account_def)
  qed (use eq in \<open>simp add: account_def\<close>)
qed

lemma tally_cong: "(\<And>a. a \<in> fst ` set ps \<Longrightarrow> account s' a = account s a) \<Longrightarrow> tally s' ps = tally s ps"
  unfolding tally_def by (rule arg_cong [where f = map_of]) force

lemma session_ids_account: "(\<And>a. a \<in> fst ` set ps \<Longrightarrow> account s a \<noteq> None) \<Longrightarrow>
    session_ids s ps = map (\<lambda>(a, b). fst (the (account s a))) ps"
  by (force simp: session_ids_def account_def)

lemma tally_Cons: "tally s ((x, y) # ps) = (tally s ps)(fst (the (account s x)) \<mapsto> snd (the (account s x)))"
  by (simp add: tally_def)

lemma tally_snoc:
  "tally s ps i = None \<Longrightarrow> account s x = Some (i, t) \<Longrightarrow> tally s (ps @ [(x, y)]) = (tally s ps)(i \<mapsto> t)"
  by (auto simp: tally_def fun_eq_iff map_add_def split: option.split)

text \<open>Adding to the account of one session, when no two have the same number.\<close>

lemma tally_update:
  assumes "distinct (session_ids s ps)" and "distinct (map fst ps)" and "(a, b) \<in> set ps" and "sess s a = Some r"
    and "\<forall>c\<in>fst ` set ps. sess s c \<noteq> None"
    and "account s' a = Some (s_id r, t)" and "\<And>c. c \<noteq> a \<Longrightarrow> account s' c = account s c"
  shows "tally s' ps = (tally s ps)(s_id r \<mapsto> t)"
  using assms(1-3,5)
proof (induction ps)
  case (Cons c ps)
  obtain x y where c: "c = (x, y)" by force
  show ?case
  proof (cases "x = a")
    case True
    then have notin: "a \<notin> fst ` set ps" using Cons.prems(2) c by auto
    have "tally s' ps = tally s ps" by (rule tally_cong) (metis notin assms(7))
    moreover have "account s a = Some (s_id r, s_total_bytes r)" using assms(4) by (simp add: account_def)
    ultimately show ?thesis using True c assms(6) by (simp add: tally_Cons fun_eq_iff)
  next
    case False
    then have IH: "tally s' ps = (tally s ps)(s_id r \<mapsto> t)" using Cons c by (intro Cons.IH) (auto simp: session_ids_def)
    obtain rx where rx: "sess s x = Some rx" using Cons.prems(4) c by auto
    have "(a, b) \<in> set ps" using Cons.prems(3) False c by auto
    then have "s_id (the (sess s a)) \<in> set (session_ids s ps)" by (force simp: session_ids_def)
    then have "s_id rx \<noteq> s_id r" using Cons.prems(1) c rx assms(4) by (auto simp: session_ids_def)
    moreover have "account s x = Some (s_id rx, s_total_bytes rx)" using rx by (simp add: account_def)
    ultimately show ?thesis using IH c assms(7) [OF False] by (auto simp: tally_Cons fun_eq_iff)
  qed
qed simp

text \<open>The listener's session \<open>q\<close> is not one of the list, and the numbers on the list are distinct.\<close>

definition tallied :: "nat \<Rightarrow> nat \<Rightarrow> (nat \<times> nat) list \<Rightarrow> ('w, 'z) tb_state_scheme \<Rightarrow> bool" where
  "tallied room q ps s \<longleftrightarrow> list_ok s (l_session_list (lst s)) ps \<and> distinct (session_ids s ps) \<and> heap_ok s \<and>
     l_curr_session (lst s) = Some q \<and> sess s q \<noteq> None \<and> q \<notin> fst ` set ps \<and>
     in_int (int (length ps + room)) \<and> in_int (sl_num_active_conn (l_session_list (lst s))) \<and>
     sl_num_active_conn (l_session_list (lst s)) + int room \<le> 2147483647"

lemma tallied_allocated: "tallied room q ps s \<Longrightarrow> (a, b) \<in> set ps \<Longrightarrow> sess s a \<noteq> None \<and> sstats s b \<noteq> None"
proof -
  assume "tallied room q ps s" and mem: "(a, b) \<in> set ps"
  then have "slist (sess s) (sstats s) (sl_start (l_session_list (lst s))) (first_stats ps) ps"
    by (simp add: tallied_def list_ok_def)
  from slist_mem [OF this mem] show ?thesis by auto
qed

lemma tally_dom:
  assumes "tallied room q ps s"
  shows "tally s ps i = None \<longleftrightarrow> i \<notin> set (session_ids s ps)"
proof -
  have "account s a \<noteq> None" if "a \<in> fst ` set ps" for a
    using tallied_allocated [OF assms] that by (auto simp: account_def)
  from session_ids_account [OF this] show ?thesis
    by (force simp: tally_def map_of_eq_None_iff)
qed


section \<open>One datagram\<close>

lemma tb_create_session_wp:
  assumes "\<And>r. s_n_session r = None \<Longrightarrow> s_stats r = Some (brk s) \<Longrightarrow> s_total_bytes r = 0 \<Longrightarrow>
    Q (Suc (brk s)) (s\<lparr>sstats := (sstats s)(brk s \<mapsto> tb_create_stats),
      sess := (sess s)(Suc (brk s) \<mapsto> r), brk := Suc (Suc (brk s))\<rparr>)"
  shows "wp (tb_create_session E) Q R s"
proof -
  have eq: "tb_create_stats\<lparr>st_prot_data := None, st_n_stats := None\<rparr> = tb_create_stats" by (simp add: tb_create_stats_def)
  show ?thesis by (auto simp: tb_create_session_def eq wp_rules intro!: assms)
qed

lemma find_session:
  assumes "list_ok s l ps"
  shows "find (\<lambda>(a, b). s_id (the (sess s a)) = i) ps = None \<longleftrightarrow> i \<notin> set (session_ids s ps)"
  by (auto simp: find_None_iff session_ids_def)

text \<open>A session that was looked up or made, with its account as it was, or empty.\<close>

definition looked_up :: "nat \<Rightarrow> nat \<Rightarrow> (nat \<times> nat) list \<Rightarrow> int \<Rightarrow> ('w, 'z) tb_state_scheme \<Rightarrow> nat \<Rightarrow> ('w, 'z) tb_state_scheme \<Rightarrow> bool" where
  "looked_up room q ps i s p s' \<longleftrightarrow> (\<exists>more. tallied room q (ps @ more) s' \<and> p \<in> fst ` set (ps @ more) \<and> length more \<le> 1 \<and>
     s_id (the (sess s' p)) = i \<and> s_total_bytes (the (sess s' p)) = (case tally s ps i of None \<Rightarrow> 0 | Some t \<Rightarrow> t) \<and>
     tally s' (ps @ more) = (tally s ps)(i \<mapsto> (case tally s ps i of None \<Rightarrow> 0 | Some t \<Rightarrow> t)) \<and>
     world s' = world s \<and> lst s' = (lst s)\<lparr>l_session_list := l_session_list (lst s')\<rparr>)"

lemma looked_up_found:
  assumes inv: "tallied (Suc room) q ps s" and mem: "(p, b) \<in> set ps" and id: "s_id (the (sess s p)) = i"
  shows "looked_up room q ps i s p s"
proof -
  obtain r where r: "sess s p = Some r" using tallied_allocated [OF inv mem] by auto
  have "tally s ps = (tally s ps)(s_id r \<mapsto> s_total_bytes r)"
    by (rule tally_update [OF _ _ mem r]) (use inv r in \<open>auto simp: tallied_def list_ok_def account_def dest: tallied_allocated [OF inv]\<close>)
  then have t: "tally s ps i = Some (s_total_bytes r)" using id r by (metis fun_upd_same option.sel)
  have "tallied room q ps s" using inv by (auto simp: tallied_def in_int_def)
  with t r id mem show ?thesis
    unfolding looked_up_def by (intro exI [of _ "[]"]) (force simp: fun_upd_idem)
qed

lemma looked_up_made:
  fixes s s1 s2 :: "('w, 'z) tb_state_scheme"
  assumes inv: "tallied (Suc room) q ps s" and new: "tally s ps i = None"
    and s1: "s1 = s\<lparr>sstats := (sstats s)(brk s \<mapsto> tb_create_stats), brk := Suc (Suc (brk s)), sess := (sess s)(Suc (brk s) \<mapsto> r)\<rparr>"
    and r: "s_id r = i" "s_total_bytes r = 0"
    and ok: "list_ok s2 l2 (ps @ [(Suc (brk s), brk s)])" and links: "same_but_links s1 s2"
    and ids: "session_ids s2 (ps @ [(Suc (brk s), brk s)]) = session_ids s1 (ps @ [(Suc (brk s), brk s)])"
    and act: "sl_num_active_conn l2 = sl_num_active_conn (l_session_list (lst s))"
  shows "looked_up room q ps i s (Suc (brk s)) (s2\<lparr>lst := (lst s)\<lparr>l_session_list :=
    l2\<lparr>sl_num_active_conn := sl_num_active_conn l2 + 1, sl_nac_lock := k\<rparr>\<rparr>\<rparr>)"
proof -
  let ?p = "Suc (brk s)" and ?b = "brk s"
  let ?ps = "ps @ [(?p, ?b)]"
  let ?t = "s2\<lparr>lst := (lst s)\<lparr>l_session_list := l2\<lparr>sl_num_active_conn := sl_num_active_conn l2 + 1, sl_nac_lock := k\<rparr>\<rparr>\<rparr>"
  have free: "sess s c = None" if "brk s \<le> c" for c using inv that by (simp add: tallied_def heap_ok_def)
  have notin: "?p \<notin> fst ` set ps" using tallied_allocated [OF inv] free by fastforce
  have acc: "account ?t c = account s1 c" for c using account_links [OF links] by (simp add: account_def)
  have old: "tally ?t ps = tally s ps"
  proof (rule tally_cong)
    fix c assume "c \<in> fst ` set ps"
    then have "c \<noteq> ?p" using notin by blast
    then show "account ?t c = account s c" unfolding acc by (simp add: s1 account_def)
  qed
  have p: "account ?t ?p = Some (i, 0)" unfolding acc by (simp add: s1 account_def r)
  have tl: "tally ?t ?ps = (tally s ps)(i \<mapsto> 0)"
    using tally_snoc [of ?t ps i ?p 0 ?b] p new unfolding old by blast
  have none: "sess s2 c = None \<longleftrightarrow> sess s1 c = None" "sstats s2 c = None \<longleftrightarrow> sstats s1 c = None" for c
    using links unfolding same_but_links_def by (metis map_option_is_None)+
  have brk2: "brk s2 = Suc (Suc (brk s))" "world s2 = world s"
  proof -
    obtain u v where "s2 = s1\<lparr>sess := u, sstats := v\<rparr>" using links unfolding same_but_links_def by blast
    then show "brk s2 = Suc (Suc (brk s))" "world s2 = world s" by (simp_all add: s1)
  qed
  have idr: "session_ids ?t ?ps = session_ids s ps @ [i]"
  proof -
    have "session_ids s1 ps = session_ids s ps" using notin by (force simp: session_ids_def s1)
    then show ?thesis using ids r by (simp add: session_ids_append) (simp add: session_ids_def s1)
  qed
  have "tallied room q ?ps ?t"
    unfolding tallied_def
  proof (intro conjI)
    show "list_ok ?t (l_session_list (lst ?t)) ?ps" using ok by (simp add: list_ok_def)
    show "distinct (session_ids ?t ?ps)"
      using inv new tally_dom [OF inv, of i] unfolding idr by (auto simp: tallied_def)
    show "heap_ok ?t" using none free brk2 inv by (auto simp: heap_ok_def s1 tallied_def)
    show "sess ?t q \<noteq> None" using none [of q] inv by (auto simp: s1 tallied_def)
    show "q \<notin> fst ` set ?ps" using inv free [of ?p] by (auto simp: tallied_def)
  qed (use inv act in \<open>auto simp: tallied_def in_int_def\<close>)
  moreover have "s_id (the (sess ?t ?p)) = i" "s_total_bytes (the (sess ?t ?p)) = 0"
    using p by (auto simp: account_def)
  ultimately show ?thesis
    using tl new brk2 unfolding looked_up_def by (intro exI [of _ "[(?p, ?b)]"]) auto
qed

lemma slist_keep:
  "slist h g p q ps \<Longrightarrow> h a = Some r \<Longrightarrow> s_n_session r' = s_n_session r \<Longrightarrow> s_stats r' = s_stats r \<Longrightarrow>
    slist (h(a \<mapsto> r')) g p q ps"
  by (induction h g p q ps rule: slist.induct) (auto split: option.splits)

lemma wp_udp_session_of:
  fixes s :: "('w, 'z) tb_state_scheme"
  assumes inv: "tallied (Suc room) q ps s" and fuel: "length ps \<le> fuel"
  shows "wp (udp_session_of E fuel i) (looked_up room q ps i s) R s"
proof -
  let ?sl = "l_session_list (lst s)"
  have ok: "list_ok s ?sl ps" using inv by (simp add: tallied_def)
  have search: "wp (tb_session_list_search fuel ?sl i) Q R s = Q (map_option fst (find (\<lambda>(a, b). s_id (the (sess s a)) = i) ps)) s"
    for Q R using tb_session_list_search_eq [OF ok fuel, of i] by (simp add: wp_def)
  show ?thesis
  proof (cases "find (\<lambda>(a, b). s_id (the (sess s a)) = i) ps")
    case (Some c)
    obtain p b where c: "c = (p, b)" by force
    with Some have "(p, b) \<in> set ps" "s_id (the (sess s p)) = i"
      by (auto simp: find_Some_iff in_set_conv_nth)
    from looked_up_found [OF inv this] show ?thesis
      by (simp add: udp_session_of_def wp_cbind wp_cget search Some c wp_cret)
  next
    case None
    let ?p = "Suc (brk s)" and ?b = "brk s"
    have new: "tally s ps i = None" using None find_session [OF ok] tally_dom [OF inv] by simp
    have free: "sess s c = None" "sstats s c = None" if "brk s \<le> c" for c
      using inv that by (simp_all add: tallied_def heap_ok_def)
    have notin: "?p \<notin> fst ` set ps" "?b \<notin> snd ` set ps"
      using tallied_allocated [OF inv] free by fastforce+
    have made: "wp (cdo [store_session (Some ?p) (\<lambda>r. r\<lparr>s_id := i\<rparr>)]
        (cbind (tb_session_add_to ?sl (Some ?p)) (\<lambda>sl1. cbind (tb_session_list_inc sl1) (\<lambda>(_, sl2).
          cdo [set_l (\<lambda>l. l\<lparr>l_session_list := sl2\<rparr>)] (cret ?p))))) (looked_up room q ps i s) R
        (s\<lparr>sstats := (sstats s)(?b \<mapsto> tb_create_stats), sess := (sess s)(?p \<mapsto> r), brk := Suc (Suc (brk s))\<rparr>)"
      if r: "s_n_session r = None" "s_stats r = Some ?b" "s_total_bytes r = 0" for r
    proof -
      let ?r = "r\<lparr>s_id := i\<rparr>"
      let ?s1 = "s\<lparr>sstats := (sstats s)(?b \<mapsto> tb_create_stats), brk := Suc (Suc (brk s)), sess := (sess s)(?p \<mapsto> ?r)\<rparr>"
      have "list_ok ?s1 ?sl ps"
        using ok notin by (auto simp: list_ok_def intro!: slist_frame_session slist_frame_stats)
      moreover have "fresh_session ?s1 ps ?p ?b"
        using r notin by (auto simp: fresh_session_def tb_create_stats_def)
      moreover have "in_int (sl_num_sessions ?sl + 1)"
        using inv ok by (auto simp: tallied_def list_ok_def in_int_def)
      ultimately have "wp (tb_session_add_to ?sl (Some ?p)) (\<lambda>sl1. wp (cbind (tb_session_list_inc sl1) (\<lambda>(_, sl2).
          cdo [set_l (\<lambda>l. l\<lparr>l_session_list := sl2\<rparr>)] (cret ?p))) (looked_up room q ps i s) R) R ?s1"
      proof (rule wp_tb_session_add_to)
        fix l' and s' :: "('w, 'z) tb_state_scheme"
        assume l': "list_ok s' l' (ps @ [(?p, ?b)])" "sl_num_active_conn l' = sl_num_active_conn ?sl"
          "session_ids s' (ps @ [(?p, ?b)]) = session_ids ?s1 (ps @ [(?p, ?b)])" "same_but_links ?s1 s'"
        have lst: "lst s' = lst s"
        proof -
          obtain u v where "s' = ?s1\<lparr>sess := u, sstats := v\<rparr>" using l'(4) unfolding same_but_links_def by blast
          then show ?thesis by simp
        qed
        have "in_int (sl_num_active_conn l' + 1)" using inv l'(2) by (auto simp: tallied_def in_int_def)
        then show "wp (cbind (tb_session_list_inc l') (\<lambda>(_, sl2).
          cdo [set_l (\<lambda>l. l\<lparr>l_session_list := sl2\<rparr>)] (cret ?p))) (looked_up room q ps i s) R s'"
          using looked_up_made [OF inv new refl _ _ l'(1,4,3,2), of False] r lst
          by (simp add: tb_session_list_inc_def wp_rules Let_def)
      qed
      then show ?thesis by (simp add: wp_cdo wp_cseq_Cons wp_cseq_Nil wp_store_session wp_cbind)
    qed
    show ?thesis
      using made
      by (simp add: udp_session_of_def wp_cbind wp_cget search None wp_cret tb_create_session_wp)
  qed
qed

text \<open>One datagram adds its bytes to the account of its session.\<close>

definition tallied_to :: "nat \<Rightarrow> nat \<Rightarrow> (nat \<times> nat) list \<Rightarrow> (int \<Rightarrow> int option) \<Rightarrow> ('w, 'z) tb_state_scheme \<Rightarrow> ('w, 'z) tb_state_scheme \<Rightarrow> bool" where
  "tallied_to room q ps m s s' \<longleftrightarrow> (\<exists>more. tallied room q (ps @ more) s' \<and> length more \<le> 1 \<and> tally s' (ps @ more) = m \<and>
     world s' = world s \<and> lst s' = (lst s)\<lparr>l_session_list := l_session_list (lst s')\<rparr>)"

lemma wp_udp_datagram:
  fixes s :: "('w, 'z) tb_state_scheme"
  assumes inv: "tallied (Suc room) q ps s" and fuel: "length ps \<le> fuel"
  shows "wp (udp_datagram E fuel (Some q) i n) (\<lambda>_. tallied_to room q ps (count (i, n) (tally s ps)) s) R s"
  unfolding udp_datagram_def wp_cbind
proof (rule wp_mono [OF wp_udp_session_of [OF inv fuel]])
  fix p and s' :: "('w, 'z) tb_state_scheme"
  assume "looked_up room q ps i s p s'"
  then obtain more where s': "tallied room q (ps @ more) s'" "p \<in> fst ` set (ps @ more)" "length more \<le> 1"
      "s_id (the (sess s' p)) = i" "s_total_bytes (the (sess s' p)) = (case tally s ps i of None \<Rightarrow> 0 | Some t \<Rightarrow> t)"
      "tally s' (ps @ more) = (tally s ps)(i \<mapsto> (case tally s ps i of None \<Rightarrow> 0 | Some t \<Rightarrow> t))"
      "world s' = world s" "lst s' = (lst s)\<lparr>l_session_list := l_session_list (lst s')\<rparr>"
    unfolding looked_up_def by blast
  then obtain b where b: "(p, b) \<in> set (ps @ more)" by force
  obtain r rq where r: "sess s' p = Some r" "sess s' q = Some rq" "p \<noteq> q"
    using tallied_allocated [OF s'(1) b] s'(1,2) unfolding tallied_def by blast
  let ?n = "s_total_bytes r + n"
  have upd: "tallied_to room q ps (count (i, n) (tally s ps)) s
      (s'\<lparr>sess := (sess s')(q \<mapsto> x, p \<mapsto> r\<lparr>s_total_bytes := ?n\<rparr>)\<rparr>)" if x: "s_id x = s_id rq" "s_total_bytes x = s_total_bytes rq" for x
  proof -
    let ?t = "s'\<lparr>sess := (sess s')(q \<mapsto> x, p \<mapsto> r\<lparr>s_total_bytes := ?n\<rparr>)\<rparr>"
    have qn: "q \<notin> fst ` set (ps @ more)" using s'(1) by (simp add: tallied_def)
    have ids: "session_ids ?t (ps @ more) = session_ids s' (ps @ more)"
      using r x by (auto simp: session_ids_def)
    have all: "\<forall>c\<in>fst ` set (ps @ more). sess s' c \<noteq> None" using tallied_allocated [OF s'(1)] by fastforce
    have t: "tally ?t (ps @ more) = (tally s' (ps @ more))(s_id r \<mapsto> ?n)"
    proof (rule tally_update [OF _ _ b r(1) all])
      show "account ?t c = account s' c" if "c \<noteq> p" for c using that r x by (simp add: account_def)
    qed (use s'(1) r in \<open>auto simp: tallied_def list_ok_def account_def\<close>)
    have h: "sess ?t = (sess s')(q \<mapsto> x, p \<mapsto> r\<lparr>s_total_bytes := ?n\<rparr>)" and g: "sstats ?t = sstats s'" and l: "lst ?t = lst s'"
      by simp_all
    have old: "slist (sess s') (sstats s') (sl_start (l_session_list (lst s'))) (first_stats (ps @ more)) (ps @ more)"
      using s'(1) unfolding tallied_def list_ok_def by blast
    have "slist (sess ?t) (sstats ?t) (sl_start (l_session_list (lst ?t))) (first_stats (ps @ more)) (ps @ more)"
      unfolding h g l
    proof (rule slist_keep)
      show "((sess s')(q \<mapsto> x)) p = Some r" using r by simp
    qed (rule slist_frame_session [OF old qn], simp, simp)
    then have "list_ok ?t (l_session_list (lst ?t)) (ps @ more)"
      using s'(1) unfolding tallied_def list_ok_def l by blast
    then have "tallied room q (ps @ more) ?t"
      using s'(1) ids r unfolding tallied_def by (auto simp: heap_ok_def)
    then show ?thesis
      using s'(3-8) r(1) t unfolding tallied_to_def by (intro exI [of _ more]) (auto simp: count_def)
  qed
  show "wp (cseq [cbind (load_session (Some q)) (\<lambda>r. cwhen (s_n_session r = None) (store_session (Some q) (\<lambda>r. r\<lparr>s_n_session := Some p\<rparr>))),
      store_session (Some p) (\<lambda>r. r\<lparr>s_total_bytes := s_total_bytes r + n\<rparr>)])
      (\<lambda>_. tallied_to room q ps (count (i, n) (tally s ps)) s) R s'"
  proof (cases "s_n_session rq = None")
    case True
    then show ?thesis using r upd [of "rq\<lparr>s_n_session := Some p\<rparr>"] by (simp add: wp_rules)
  next
    case False
    then obtain y where y: "s_n_session rq = Some y" by blast
    have "(sess s')(q \<mapsto> rq) = sess s'" using r by (simp add: fun_upd_idem)
    then show ?thesis using r upd [of rq] y by (simp add: wp_rules)
  qed
qed auto


section \<open>A batch of datagrams\<close>

text \<open>
  What the environment delivers to one call of the handler on the socket \<open>fd\<close> from the world
  \<open>w\<close>: datagrams \<open>ds\<close> with their session numbers and sizes, read through a header that keeps
  its old bytes when a datagram is short, until nothing is left or one has no length.
\<close>

inductive batch :: "('w, 'e) env_scheme \<Rightarrow> int \<Rightarrow> byte list \<Rightarrow> 'w \<Rightarrow> (int \<times> int) list \<Rightarrow> bool \<Rightarrow> bool" for E fd where
  batch_end: "sys E (Posix (Recvmsg fd 8)) w = (a, w') \<Longrightarrow> to_int (a_rc a) < 0 \<Longrightarrow> a_errno a = EWOULDBLOCK \<Longrightarrow>
    batch E fd hdr w [] False"
| batch_exit: "sys E (Posix (Recvmsg fd 8)) w = (a, w') \<Longrightarrow> 0 \<le> to_int (a_rc a) \<Longrightarrow>
    bytes_int (drop 4 (overwrite (take (nat (to_int (a_rc a))) (a_bytes a)) hdr)) \<le> 0 \<Longrightarrow> batch E fd hdr w [] True"
| batch_step: "sys E (Posix (Recvmsg fd 8)) w = (a, w') \<Longrightarrow> 0 \<le> to_int (a_rc a) \<Longrightarrow>
    hdr' = overwrite (take (nat (to_int (a_rc a))) (a_bytes a)) hdr \<Longrightarrow> 0 < bytes_int (drop 4 hdr') \<Longrightarrow>
    batch E fd hdr' w' ds ex \<Longrightarrow> batch E fd hdr w ((bytes_int (take 4 hdr'), to_int (a_rc a)) # ds) ex"

definition tallied_end :: "nat \<Rightarrow> nat \<Rightarrow> (nat \<times> nat) list \<Rightarrow> (int \<Rightarrow> int option) \<Rightarrow> COMMAND \<Rightarrow> ('w, 'z) tb_state_scheme \<Rightarrow> bool" where
  "tallied_end room q ps m cmd s' \<longleftrightarrow> (\<exists>more. tallied room q (ps @ more) s' \<and> tally s' (ps @ more) = m \<and> l_command (lst s') = cmd)"

lemma tallied_world:
  "tallied room q ps s \<Longrightarrow> tallied room q ps (s\<lparr>world := w, trace := t\<rparr>)"
  by (simp add: tallied_def list_ok_def session_ids_def heap_ok_def)

lemma tallied_less: "tallied room q ps s \<Longrightarrow> room' \<le> room \<Longrightarrow> tallied room' q ps s"
  by (auto simp: tallied_def in_int_def)

lemma tally_world [simp]: "tally (s\<lparr>world := w, trace := t\<rparr>) ps = tally s ps"
  by (simp add: tally_def account_def)

lemma tallied_address:
  assumes "tallied room q ps s" and "sess s q = Some r"
  shows "tallied room q ps (s\<lparr>sess := (sess s)(q \<mapsto> r\<lparr>s_addr_in := x\<rparr>)\<rparr>)"
    and "tally (s\<lparr>sess := (sess s)(q \<mapsto> r\<lparr>s_addr_in := x\<rparr>)\<rparr>) ps = tally s ps"
proof -
  have q: "q \<notin> fst ` set ps" using assms(1) by (simp add: tallied_def)
  have "session_ids (s\<lparr>sess := (sess s)(q \<mapsto> r\<lparr>s_addr_in := x\<rparr>)\<rparr>) ps = session_ids s ps"
    using assms(2) by (auto simp: session_ids_def)
  moreover have "slist ((sess s)(q \<mapsto> r\<lparr>s_addr_in := x\<rparr>)) (sstats s) (sl_start (l_session_list (lst s))) (first_stats ps) ps"
    using assms(1) by (intro slist_frame_session q) (simp add: tallied_def list_ok_def)
  ultimately show "tallied room q ps (s\<lparr>sess := (sess s)(q \<mapsto> r\<lparr>s_addr_in := x\<rparr>)\<rparr>)"
    using assms unfolding tallied_def list_ok_def heap_ok_def by auto
  show "tally (s\<lparr>sess := (sess s)(q \<mapsto> r\<lparr>s_addr_in := x\<rparr>)\<rparr>) ps = tally s ps"
    by (rule tally_cong) (use q in \<open>auto simp: account_def\<close>)
qed

lemma wp_udp_event_loop:
  fixes s :: "('w, 'z) tb_state_scheme"
  assumes "batch E fd hdr w ds ex" and "world s = w" and "tallied (length ds) q ps s"
    and "length ps + length ds \<le> fuel" and "length ds < n"
  shows "wp (cwhile n (\<lambda>l. cret (snd l = None)) (udp_event_body E fuel fd) (hdr, None))
    (\<lambda>l s'. snd l = Some 0 \<and> tallied_end 0 q ps (fold count ds (tally s ps)) (if ex then TB_EXIT else l_command (lst s)) s') R s"
  using assms
proof (induction arbitrary: s ps n rule: batch.induct)
  case (batch_end w a w' hdr)
  then obtain n' where n: "n = Suc n'" by (cases n) auto
  have "tallied_end 0 q ps (tally s ps) (l_command (lst s)) (s\<lparr>world := w', trace := t\<rparr>)" for t
    using tallied_world [OF batch_end.prems(2), where w = w' and t = t] unfolding tallied_end_def by (intro exI [of _ "[]"]) simp
  then show ?case
    using batch_end.hyps batch_end.prems(1)
    by (simp add: n cwhile.simps [of "Suc n'"] cwhile.simps [of n'] udp_event_body_def wp_rules Let_def)
next
  case (batch_exit w a w' hdr)
  then obtain n' where n: "n = Suc n'" by (cases n) auto
  obtain r where r: "l_curr_session (lst s) = Some q" "sess s q = Some r"
    using batch_exit.prems(2) unfolding tallied_def by blast
  have "tallied_end 0 q ps (tally s ps) TB_EXIT
      (s\<lparr>sess := (sess s)(q \<mapsto> r\<lparr>s_addr_in := x\<rparr>), world := w2, trace := t, lst := (lst s)\<lparr>l_command := TB_EXIT\<rparr>\<rparr>)" for w2 t x
    using tallied_address [OF batch_exit.prems(2) r(2), of x] unfolding tallied_end_def
    by (intro exI [of _ "[]"]) (simp add: tallied_def list_ok_def session_ids_def heap_ok_def tally_def account_def)
  then show ?case
    using batch_exit.hyps batch_exit.prems(1) r
    by (simp add: n cwhile.simps [of "Suc n'"] cwhile.simps [of n'] udp_event_body_def wp_rules Let_def split: prod.splits)
next
  case (batch_step w a w' hdr' hdr ds ex)
  then obtain n' where n: "n = Suc n'" "length ds < n'" by (cases n) auto
  obtain r where r: "l_curr_session (lst s) = Some q" "sess s q = Some r"
    using batch_step.prems(2) unfolding tallied_def by blast
  let ?i = "bytes_int (take 4 hdr')" and ?k = "to_int (a_rc a)"
  let ?I = "\<lambda>l s'. snd l = Some (0::int) \<and> tallied_end 0 q ps (fold count ((?i, ?k) # ds) (tally s ps))
    (if ex then TB_EXIT else l_command (lst s)) s'"
  have turn: "wp (udp_datagram E fuel (Some q) ?i ?k)
      (\<lambda>_. wp (cwhile n' (\<lambda>l. cret (snd l = None)) (udp_event_body E fuel fd) (hdr', None)) ?I R) R
      (s\<lparr>world := w', trace := t, sess := (sess s)(q \<mapsto> r\<lparr>s_addr_in := x\<rparr>)\<rparr>)" for t x
  proof -
    let ?s = "s\<lparr>world := w', trace := t, sess := (sess s)(q \<mapsto> r\<lparr>s_addr_in := x\<rparr>)\<rparr>"
    have tal: "tallied (Suc (length ds)) q ps ?s" "tally ?s ps = tally s ps"
      using tallied_address [OF tallied_world [OF batch_step.prems(2), where w = w' and t = t], of r x] r(2)
      by simp_all
    show ?thesis
    proof (rule wp_mono [OF wp_udp_datagram [OF tal(1)]])
      fix s2 :: "('w, 'z) tb_state_scheme"
      assume "tallied_to (length ds) q ps (count (?i, ?k) (tally ?s ps)) ?s s2"
      then obtain more where s2: "tallied (length ds) q (ps @ more) s2" "length more \<le> 1"
          "tally s2 (ps @ more) = count (?i, ?k) (tally s ps)" "world s2 = w'"
          "lst s2 = (lst s)\<lparr>l_session_list := l_session_list (lst s2)\<rparr>"
        unfolding tallied_to_def tal(2) by auto
      have cmd: "l_command (lst s2) = l_command (lst s)" using arg_cong [OF s2(5), of l_command] by simp
      have "wp (cwhile n' (\<lambda>l. cret (snd l = None)) (udp_event_body E fuel fd) (hdr', None))
        (\<lambda>l s'. snd l = Some 0 \<and> tallied_end 0 q (ps @ more) (fold count ds (tally s2 (ps @ more)))
          (if ex then TB_EXIT else l_command (lst s2)) s') R s2"
        by (rule batch_step.IH [OF s2(4,1)]) (use batch_step.prems(3) s2(2) n in auto)
      then show "wp (cwhile n' (\<lambda>l. cret (snd l = None)) (udp_event_body E fuel fd) (hdr', None)) ?I R s2"
        by (rule wp_mono) (auto simp: s2(3) cmd tallied_end_def)
    qed (use batch_step.prems(3) in auto)
  qed
  show ?case
    using batch_step.hyps(1-4) batch_step.prems(1) r
    by (simp add: n cwhile.simps [of "Suc n'"] udp_event_body_def [of E fuel fd "(hdr, None)"] wp_rules Let_def
        split del: if_split)
       (rule wp_mono [OF turn [unfolded batch_step.hyps(3)]], simp_all add: wp_rules split del: if_split)
qed


section \<open>Properties\<close>

text \<open>The world the handler reads its first datagram from: after the clock, when it is the first call.\<close>

definition event_world :: "('w, 'e) env_scheme \<Rightarrow> ('w, 'z) tb_state_scheme \<Rightarrow> 'w" where
  "event_world E s = (if l_status (lst s) = TB_LISTENING
     then snd (sys E (Posix (Clock_gettime (t_clk_id (l_transfer_time (lst s))))) (world s)) else world s)"

lemma tallied_listener:
  "tallied room q ps s \<Longrightarrow> l_session_list l = l_session_list (lst s) \<Longrightarrow> l_curr_session l = l_curr_session (lst s) \<Longrightarrow>
    tallied room q ps (s\<lparr>world := w, trace := t, lst := l\<rparr>)"
  by (simp add: tallied_def list_ok_def session_ids_def heap_ok_def)

text \<open>C15: a call of the server's event handler that finds the datagrams \<open>ds\<close> on the socket credits
  each to the account of its session number, opening the accounts that do not exist: the
  accounts after the call are those before it with the datagrams counted in order. It returns
  0, and it tells the server to end exactly when a datagram had no length.\<close>

theorem udp_event_tallies:
  assumes "batch E (ed_fd e) (int_bytes (- 1) @ int_bytes 0) (event_world E s) ds ex"
    and "tallied (length ds) q ps s" and "length ps + length ds \<le> fuel" and "length ds < dgrams"
  shows "\<exists>s' more. tb_udp_event E dgrams fuel events e s = Ok 0 s' \<and>
    tally s' (ps @ more) = fold count ds (tally s ps) \<and> tallied 0 q (ps @ more) s' \<and>
    l_command (lst s') = (if ex then TB_EXIT else l_command (lst s))"
proof -
  obtain r where r: "l_curr_session (lst s) = Some q" "sess s q = Some r"
    using assms(2) unfolding tallied_def by blast
  let ?J = "\<lambda>l s'. snd l = Some (0::int) \<and> tallied_end 0 q ps (fold count ds (tally s ps))
    (if ex then TB_EXIT else l_command (lst s)) s'"
  have loop: "wp (cwhile dgrams (\<lambda>l. cret (snd l = None)) (udp_event_body E fuel (ed_fd e))
      (int_bytes (- 1) @ int_bytes 0, None)) ?J (\<lambda>_ _. False) (s\<lparr>world := event_world E s, trace := t, lst := l\<rparr>)"
    if "l_session_list l = l_session_list (lst s)" "l_curr_session l = l_curr_session (lst s)" "l_command l = l_command (lst s)" for t l
  proof -
    let ?t = "s\<lparr>world := event_world E s, trace := t, lst := l\<rparr>"
    have eq: "tally ?t ps = tally s ps" "l_command (lst ?t) = l_command (lst s)" "world ?t = event_world E s"
      using that by (simp_all add: tally_def account_def)
    from wp_udp_event_loop [OF assms(1) eq(3) tallied_listener [OF assms(2) that(1,2)] assms(3,4)]
    show ?thesis unfolding eq .
  qed
  have all: "wp (cwhile dgrams (\<lambda>l. cret (snd l = None)) (udp_event_body E fuel (ed_fd e))
      (int_bytes (- 1) @ int_bytes 0, None)) (\<lambda>l s'. the (snd l) = 0 \<and> tallied_end 0 q ps (fold count ds (tally s ps))
      (if ex then TB_EXIT else l_command (lst s)) s') (\<lambda>_ _. False) (s\<lparr>world := w, trace := t, lst := l\<rparr>)"
    if "l_session_list l = l_session_list (lst s)" "l_curr_session l = l_curr_session (lst s)" "l_command l = l_command (lst s)"
      "w = event_world E s" for t l w
    unfolding that(4) by (rule wp_mono [OF loop [OF that(1-3)]]) auto
  have "wp (tb_udp_event E dgrams fuel events e) (\<lambda>rc s'. rc = 0 \<and> tallied_end 0 q ps (fold count ds (tally s ps))
      (if ex then TB_EXIT else l_command (lst s)) s') (\<lambda>_ _. False) s"
  proof (cases "l_status (lst s) = TB_LISTENING")
    case True
    then show ?thesis using r
      by (simp add: tb_udp_event_def wp_rules l_start_transfer_def Let_def split: prod.splits)
         (auto intro!: wp_mono [OF all] simp: event_world_def wp_rules split: if_splits)
  next
    case False
    have "wp (cwhile dgrams (\<lambda>l. cret (snd l = None)) (udp_event_body E fuel (ed_fd e))
      (int_bytes (- 1) @ int_bytes 0, None)) (\<lambda>l s'. the (snd l) = 0 \<and> tallied_end 0 q ps (fold count ds (tally s ps))
      (if ex then TB_EXIT else l_command (lst s)) s') (\<lambda>_ _. False) s"
      using all [of "lst s" "world s" "trace s"] False by (simp add: event_world_def)
    from wp_mono [OF this] show ?thesis using False r
      by (simp add: tb_udp_event_def wp_rules split del: if_split)
  qed
  then show ?thesis by (auto simp: wp_def tallied_end_def split: result.splits)
qed

end
