(* ===== verification/TB_Utp.thy ===== *)
theory TB_Utp
  imports TB_Udp
begin

text \<open>
  The uTP endpoints (\<open>src/src/tb_utp.h\<close>, \<open>src/src/tb_utp.c\<close>). The library libutp runs the
  protocol over a UDP socket of the program and comes back to the program through callbacks:
  the answer of the environment to a call lists them, and the model runs them, in order,
  before the call returns. Each names the structure it was registered with.
\<close>

section \<open>State\<close>

definition UTP_STATE_CREATED :: int where "UTP_STATE_CREATED = 0"
definition UTP_STATE_CONNECT :: int where "UTP_STATE_CONNECT = 1"
definition UTP_STATE_WRITABLE :: int where "UTP_STATE_WRITABLE = 2"
definition UTP_STATE_EOF :: int where "UTP_STATE_EOF = 3"
definition UTP_STATE_DESTROYING :: int where "UTP_STATE_DESTROYING = 4"
definition UTP_STATE_ERROR :: int where "UTP_STATE_ERROR = 5"

lemmas utp_states = UTP_STATE_CREATED_def UTP_STATE_CONNECT_def UTP_STATE_WRITABLE_def
  UTP_STATE_EOF_def UTP_STATE_DESTROYING_def UTP_STATE_ERROR_def

definition ECONNRESET :: int where "ECONNRESET = 104"
definition EMSGSIZE :: int where "EMSGSIZE = 90"

text \<open>
  The structure is copied for every session of a client, so what it points to is shared by
  the copies: these blocks are kept apart, \<open>u_blk\<close> stands for the pointers to them. The epoll
  instance passes the structure it was created with to its callback. \<open>u_socket\<close> is 0 for a
  null pointer, \<open>u_lock\<close> says that the lock of the client has been set; the table of callbacks
  is always the same.
\<close>

record tb_utp_blocks =
  ub_buffer :: "byte list option"
  ub_rec_buffer :: "byte list option"
  ub_epoll :: "tb_epoll_t option"
  ub_ep_data :: nat
  ub_addr_s :: sockaddr_storage
  ub_last_rec :: tb_time_t

record tb_utp_t =
  u_id :: int
  u_socket :: int
  u_sock_fd :: int
  u_read_bytes :: int
  u_write_bytes :: int
  u_buffer_size :: int
  u_rec_buff_size :: int
  u_e_id :: int
  u_recv_total :: int
  u_sent_total :: int
  u_state :: int
  u_addr_len :: int
  u_s_data :: "byte list option"
  u_s_data_size :: int
  u_r_data :: "byte list option"
  u_r_data_size :: int
  u_lock :: bool
  u_so_sndbuf :: int
  u_so_rcvbuf :: int
  u_time_out :: int
  u_measure_time :: int
  u_blk :: nat

record 'w uenv = "'w lenv" +
  mem_utp :: tb_utp_t
  mem_utp_blocks :: tb_utp_blocks

record 'w utp_state = "'w tb_state" +
  utps :: "nat \<Rightarrow> tb_utp_t option"
  ublks :: "nat \<Rightarrow> tb_utp_blocks option"
  ubrk :: nat
  utp_lock :: bool

definition load_utp :: "nat \<Rightarrow> (('w, 'z) utp_state_scheme, tb_utp_t) prog" where
  "load_utp p = cbind (cget (\<lambda>s. utps s p)) (cderef Use_After_Free)"

definition store_utp :: "nat \<Rightarrow> (tb_utp_t \<Rightarrow> tb_utp_t) \<Rightarrow> (('w, 'z) utp_state_scheme, unit) prog" where
  "store_utp p f = cbind (load_utp p) (\<lambda>u. cmod (\<lambda>s. s\<lparr>utps := (utps s)(p \<mapsto> f u)\<rparr>))"

definition load_blk :: "nat \<Rightarrow> (('w, 'z) utp_state_scheme, tb_utp_blocks) prog" where
  "load_blk p = cbind (load_utp p) (\<lambda>u. cbind (cget (\<lambda>s. ublks s (u_blk u))) (cderef Use_After_Free))"

definition store_blk :: "nat \<Rightarrow> (tb_utp_blocks \<Rightarrow> tb_utp_blocks) \<Rightarrow> (('w, 'z) utp_state_scheme, unit) prog" where
  "store_blk p f =
     cbind (load_blk p) (\<lambda>b. cbind (load_utp p) (\<lambda>u. cmod (\<lambda>s. s\<lparr>ublks := (ublks s)(u_blk u \<mapsto> f b)\<rparr>)))"

lemma wp_load_utp [wp_rules]:
  "wp (load_utp p) Q R s = (case utps s p of None \<Rightarrow> R (Undefined Use_After_Free) s | Some u \<Rightarrow> Q u s)"
  by (simp add: load_utp_def wp_rules)

lemma wp_store_utp [wp_rules]:
  "wp (store_utp p f) Q R s = (case utps s p of None \<Rightarrow> R (Undefined Use_After_Free) s
     | Some u \<Rightarrow> Q () (s\<lparr>utps := (utps s)(p \<mapsto> f u)\<rparr>))"
  by (simp add: store_utp_def wp_rules split: option.splits)

lemma wp_load_blk [wp_rules]:
  "wp (load_blk p) Q R s = (case utps s p of None \<Rightarrow> R (Undefined Use_After_Free) s
     | Some u \<Rightarrow> (case ublks s (u_blk u) of None \<Rightarrow> R (Undefined Use_After_Free) s | Some b \<Rightarrow> Q b s))"
  by (simp add: load_blk_def wp_rules split: option.splits)

lemma wp_store_blk [wp_rules]:
  "wp (store_blk p f) Q R s = (case utps s p of None \<Rightarrow> R (Undefined Use_After_Free) s
     | Some u \<Rightarrow> (case ublks s (u_blk u) of None \<Rightarrow> R (Undefined Use_After_Free) s
       | Some b \<Rightarrow> Q () (s\<lparr>ublks := (ublks s)(u_blk u \<mapsto> f b)\<rparr>)))"
  by (simp add: store_blk_def wp_rules split: option.splits)

definition tb_utp_setup :: "('w, 'e) uenv_scheme \<Rightarrow> (('w, 'z) utp_state_scheme, nat) prog" where
  "tb_utp_setup E = (\<lambda>s.
     let p = ubrk s;
         b = (mem_utp_blocks E)\<lparr>ub_buffer := None, ub_rec_buffer := None, ub_epoll := None,
               ub_addr_s := mem_addr E, ub_last_rec := tb_create_time (mem_time E) CLOCK_MONOTONIC\<rparr>;
         u = (mem_utp E)\<lparr>u_socket := 0, u_sock_fd := - 1, u_addr_len := 128, u_buffer_size := 0,
               u_rec_buff_size := 0, u_e_id := - 1, u_recv_total := 0, u_state := UTP_STATE_CREATED,
               u_time_out := 2 * 1000000000, u_measure_time := 0, u_blk := p\<rparr>
     in Ok p (s\<lparr>utps := (utps s)(p \<mapsto> u), ublks := (ublks s)(p \<mapsto> b), ubrk := p + 1\<rparr>))"


section \<open>Callbacks\<close>

text \<open>A count is a \<open>size_t\<close>; the sum with an \<open>int\<close> is cut to an \<open>int\<close>.\<close>

definition tb_utp_read :: "nat \<Rightarrow> int \<Rightarrow> (('w, 'z) utp_state_scheme, unit) prog" where
  "tb_utp_read p count = store_utp p (\<lambda>u. u\<lparr>u_read_bytes := to_int (u_read_bytes u + count),
     u_sent_total := to_int (u_sent_total u + count)\<rparr>)"

text \<open>The bytes are copied to where libutp wants them, which it is told of.\<close>

definition tb_utp_write :: "('w, 'e) uenv_scheme \<Rightarrow> nat \<Rightarrow> int \<Rightarrow> (('w, 'z) utp_state_scheme, unit) prog" where
  "tb_utp_write E p count =
     cseq [store_utp p (\<lambda>u. u\<lparr>u_write_bytes := to_int (u_write_bytes u + count),
             u_recv_total := to_int (u_recv_total u + count)\<rparr>),
           cbind (load_utp p) (\<lambda>u. cbind (cderef Null_Deref (u_s_data u)) (\<lambda>d.
             cbind (cread (Some d) count) (\<lambda>bs. cvoid (do_sys E (Utp (Utp_filled bs))))))]"

definition tb_utp_get_Rcv_buff :: "nat \<Rightarrow> (('w, 'z) utp_state_scheme, int) prog" where
  "tb_utp_get_Rcv_buff p = cret 0"

definition tb_utp_state_change :: "nat \<Rightarrow> int \<Rightarrow> (('w, 'z) utp_state_scheme, unit) prog" where
  "tb_utp_state_change p st = store_utp p (\<lambda>u. u\<lparr>u_state := st\<rparr>)"

definition tb_utp_error :: "nat \<Rightarrow> int \<Rightarrow> (('w, 'z) utp_state_scheme, unit) prog" where
  "tb_utp_error p errcode = store_utp p (\<lambda>u. u\<lparr>u_state := UTP_STATE_ERROR\<rparr>)"

definition tb_utp_overhead :: "nat \<Rightarrow> (('w, 'z) utp_state_scheme, unit) prog" where
  "tb_utp_overhead p = cret ()"

definition tb_utp_send_to ::
  "('w, 'e) uenv_scheme \<Rightarrow> nat \<Rightarrow> byte list \<Rightarrow> sockaddr_storage \<Rightarrow> (('w, 'z) utp_state_scheme, unit) prog" where
  "tb_utp_send_to E p bs to =
     cbind (load_utp p) (\<lambda>u. cbind (do_sys E (Posix (Sendto (u_sock_fd u) bs to))) (\<lambda>a.
     cwhen (a_rc a < 0) (chalt (Process_Exit 1))))"

text \<open>Setting options and callbacks of a socket does not call back.\<close>

definition utp_start_last_rec :: "('w, 'e) uenv_scheme \<Rightarrow> nat \<Rightarrow> (('w, 'z) utp_state_scheme, unit) prog" where
  "utp_start_last_rec E p = cbind (load_blk p) (\<lambda>b. cbind (tb_start_time E (ub_last_rec b)) (\<lambda>t.
     store_blk p (\<lambda>b. b\<lparr>ub_last_rec := t\<rparr>)))"

definition tb_utp_incoming :: "('w, 'e) uenv_scheme \<Rightarrow> nat \<Rightarrow> int \<Rightarrow> (('w, 'z) utp_state_scheme, unit) prog" where
  "tb_utp_incoming E p socket =
     cseq [store_utp p (\<lambda>u. u\<lparr>u_socket := socket\<rparr>),
           cbind (load_utp p) (\<lambda>u. cvoid (do_sys E (Utp (Utp_setsockopt socket SO_RCVBUF (u_so_rcvbuf u))))),
           cvoid (do_sys E (Utp (Utp_setcallbacks socket p))),
           store_utp p (\<lambda>u. u\<lparr>u_state := UTP_STATE_CONNECT\<rparr>),
           utp_start_last_rec E p,
           store_utp p (\<lambda>u. u\<lparr>u_measure_time := 1\<rparr>)]"

definition tb_utp_m_new_conn :: "('w, 'e) uenv_scheme \<Rightarrow> nat \<Rightarrow> int \<Rightarrow> (('w, 'z) utp_state_scheme, unit) prog" where
  "tb_utp_m_new_conn E p socket = cret ()"

text \<open>Running the callbacks of a call; \<open>incoming\<close> is the function given for new connections.\<close>

fun run_callback ::
  "('w, 'e) uenv_scheme \<Rightarrow> (nat \<Rightarrow> int \<Rightarrow> (('w, 'z) utp_state_scheme, unit) prog) \<Rightarrow> utp_callback \<Rightarrow>
   (('w, 'z) utp_state_scheme, unit) prog" where
  "run_callback E incoming (On_read p count) = tb_utp_read p count"
| "run_callback E incoming (On_write p count) = tb_utp_write E p count"
| "run_callback E incoming (Get_rb_size p) = cvoid (tb_utp_get_Rcv_buff p)"
| "run_callback E incoming (On_state p st) = tb_utp_state_change p st"
| "run_callback E incoming (On_error p e) = tb_utp_error p e"
| "run_callback E incoming (On_overhead p) = tb_utp_overhead p"
| "run_callback E incoming (On_incoming p socket) = incoming p socket"
| "run_callback E incoming (On_send_to p bs to) = tb_utp_send_to E p bs to"

definition call_utp ::
  "('w, 'e) uenv_scheme \<Rightarrow> (nat \<Rightarrow> int \<Rightarrow> (('w, 'z) utp_state_scheme, unit) prog) \<Rightarrow> libutp \<Rightarrow>
   (('w, 'z) utp_state_scheme, int) prog" where
  "call_utp E incoming c = cbind (do_sys E (Utp c)) (\<lambda>a.
     cdo [cseq (map (run_callback E incoming) (a_callbacks a))] (cret (a_rc a)))"


section \<open>Calls in the manner of sockets\<close>

definition tb_utp_socket :: "('w, 'e) uenv_scheme \<Rightarrow> nat \<Rightarrow> addrinfo \<Rightarrow> (('w, 'z) utp_state_scheme, int) prog" where
  "tb_utp_socket E p ai =
     cbind (do_sys E (Posix (Socket (ai_family ai) (ai_socktype ai) (ai_protocol ai)))) (\<lambda>a.
     cdo [store_utp p (\<lambda>u. u\<lparr>u_sock_fd := a_rc a\<rparr>)]
       (if a_rc a = - 1 then cret (- 1)
        else cbind (tb_create_e_poll E (mem_epoll E) (a_rc a) 5 0) (\<lambda>q.
          cdo [store_blk p (\<lambda>b. b\<lparr>ub_epoll := q, ub_ep_data := p\<rparr>)]
            (cbind (cderef Null_Deref q) (\<lambda>ep.
             cdo [store_blk p (\<lambda>b. b\<lparr>ub_epoll := Some (ep\<lparr>ep_f_event := Some Fn_tb_utp_event, ep_w_time := 50\<rparr>)\<rparr>)]
               (cret (a_rc a)))))))"

text \<open>
  One datagram of the event. The locals are its length and the result once there is one.
  The \<open>continue\<close> of the source goes to the condition of the \<open>do\<close> loop, and the length is then
  negative: the loop ends.
\<close>

definition utp_event_body ::
  "('w, 'e) uenv_scheme \<Rightarrow> (nat \<Rightarrow> int \<Rightarrow> (('w, 'z) utp_state_scheme, unit) prog) \<Rightarrow> nat \<Rightarrow>
   (('w, 'z) utp_state_scheme, int \<times> int option) prog" where
  "utp_event_body E incoming p =
     cbind (load_utp p) (\<lambda>u.
     cbind (do_sys E (Posix (Recvfrom (u_sock_fd u) (to_size (u_rec_buff_size u))))) (\<lambda>a.
     let len = to_int (a_rc a) in
     if len < 0
     then cret (len, if a_errno a = ECONNRESET \<or> a_errno a = EMSGSIZE then None
                     else if a_errno a = EWOULDBLOCK then Some 0 else Some (- 1))
     else cdo [store_blk p (\<lambda>b. b\<lparr>ub_rec_buffer := map_option (overwrite (a_bytes a)) (ub_rec_buffer b),
                 ub_addr_s := a_peer a\<rparr>)]
       (cbind (load_blk p) (\<lambda>b.
        cbind (cread (ub_rec_buffer b) len) (\<lambda>bs.
        cbind (call_utp E incoming (Utp_is_incoming bs (ub_addr_s b) p)) (\<lambda>rc.
        if rc = 0 then cret (len, Some (- 1))
        else cdo [utp_start_last_rec E p] (cret (len, None))))))))"

definition utp_event_more :: "int \<times> int option \<Rightarrow> (('w, 'z) utp_state_scheme, bool) prog" where
  "utp_event_more l = cret (snd l = None \<and> 0 < fst l)"

definition tb_utp_event ::
  "('w, 'e) uenv_scheme \<Rightarrow> nat \<Rightarrow> nat \<Rightarrow> int \<Rightarrow> tb_e_data \<Rightarrow> (('w, 'z) utp_state_scheme, int) prog" where
  "tb_utp_event E fuel p events e_data =
     cbind (utp_event_body E (tb_utp_incoming E) p) (\<lambda>l0.
     cbind (cwhile fuel utp_event_more (\<lambda>_. utp_event_body E (tb_utp_incoming E) p) l0) (\<lambda>l.
     cret (case snd l of None \<Rightarrow> 0 | Some rc \<Rightarrow> rc)))"

definition utp_poll :: "('w, 'e) uenv_scheme \<Rightarrow> nat \<Rightarrow> nat \<Rightarrow> (('w, 'z) utp_state_scheme, unit) prog" where
  "utp_poll E fuel p =
     cbind (load_blk p) (\<lambda>b.
     cbind (cderef Null_Deref (ub_epoll b)) (\<lambda>ep.
     cbind (tb_poll_for_events E (\<lambda>_. tb_utp_event E fuel (ub_ep_data b)) ep) (\<lambda>(_, ep').
     store_blk p (\<lambda>b. b\<lparr>ub_epoll := Some ep'\<rparr>))))"

definition tb_utp_connect ::
  "('w, 'e) uenv_scheme \<Rightarrow> nat \<Rightarrow> nat \<Rightarrow> sockaddr_storage \<Rightarrow> (('w, 'z) utp_state_scheme, int) prog" where
  "tb_utp_connect E fuel p addr =
     cbind (call_utp E (tb_utp_incoming E) (Utp_create addr p)) (\<lambda>socket.
     cdo [store_utp p (\<lambda>u. u\<lparr>u_socket := socket\<rparr>),
          cbind (load_utp p) (\<lambda>u. cvoid (do_sys E (Utp (Utp_setsockopt socket SO_SNDBUF (u_so_sndbuf u))))),
          cvoid (do_sys E (Utp (Utp_setcallbacks socket p))),
          cvoid (call_utp E (tb_utp_incoming E) (Utp_connect socket)),
          utp_poll E fuel p]
       (cret 0))"

definition tb_utp_recv :: "('w, 'e) uenv_scheme \<Rightarrow> nat \<Rightarrow> nat \<Rightarrow> (('w, 'z) utp_state_scheme, int) prog" where
  "tb_utp_recv E fuel p =
     cdo [store_utp p (\<lambda>u. u\<lparr>u_read_bytes := 0\<rparr>),
          utp_poll E fuel p,
          cvoid (call_utp E (tb_utp_incoming E) Utp_check_timeouts)]
       (cbind (load_utp p) (\<lambda>u.
        if u_measure_time u \<noteq> 0
        then cbind (load_blk p) (\<lambda>b.
             cbind (tb_finish_time E (ub_last_rec b)) (\<lambda>t.
             cdo [store_blk p (\<lambda>b. b\<lparr>ub_last_rec := t\<rparr>)]
               (if u_time_out u < t_n_sec t
                then cdo [store_utp p (\<lambda>u. u\<lparr>u_state := UTP_STATE_ERROR\<rparr>)] (cret 0)
                else cret (u_read_bytes u))))
        else cret (u_read_bytes u)))"

definition tb_utp_send ::
  "('w, 'e) uenv_scheme \<Rightarrow> nat \<Rightarrow> nat \<Rightarrow> byte list option \<Rightarrow> int \<Rightarrow> (('w, 'z) utp_state_scheme, int) prog" where
  "tb_utp_send E fuel p buf n =
     cdo [store_utp p (\<lambda>u. u\<lparr>u_write_bytes := 0, u_s_data := buf\<rparr>)]
       (cbind (load_utp p) (\<lambda>u.
        if u_state u = UTP_STATE_CONNECT \<or> u_state u = UTP_STATE_WRITABLE
        then cbind (call_utp E (tb_utp_incoming E) (Utp_write (u_socket u) n)) (\<lambda>rc.
             cdo [cwhen (rc = 0) (store_utp p (\<lambda>u. u\<lparr>u_state := 0\<rparr>))]
               (cbind (load_utp p) (\<lambda>u. cret (u_write_bytes u))))
        else cbind (tb_utp_recv E fuel p) (\<lambda>rc.
             if rc < 0 then cret (- 1)
             else cbind (load_utp p) (\<lambda>u. cret (u_write_bytes u)))))"

definition tb_utp_funct_exit :: "(('w, 'z) utp_state_scheme, int) prog" where
  "tb_utp_funct_exit = cret 0"

text \<open>The structure is given back with its buffer, its address and its table.\<close>

definition utp_closing :: "nat \<Rightarrow> (('w, 'z) utp_state_scheme, bool) prog" where
  "utp_closing p = cbind (load_utp p) (\<lambda>u. cret (u_state u \<noteq> UTP_STATE_DESTROYING \<and> u_state u \<noteq> UTP_STATE_ERROR))"

definition tb_utp_close :: "('w, 'e) uenv_scheme \<Rightarrow> nat \<Rightarrow> nat \<Rightarrow> nat \<Rightarrow> (('w, 'z) utp_state_scheme, int) prog" where
  "tb_utp_close E waits fuel p =
     cbind (load_utp p) (\<lambda>u.
     cdo [cwhen (u_socket u \<noteq> 0)
            (cseq [cvoid (call_utp E (tb_utp_incoming E) (Utp_close (u_socket u))),
                   cvoid (call_utp E (tb_utp_incoming E) Utp_check_timeouts),
                   cvoid (cwhile waits (\<lambda>_. utp_closing p)
                     (\<lambda>_. cseq [cvoid (tb_utp_recv E fuel p),
                                cvoid (call_utp E (tb_utp_incoming E) Utp_check_timeouts)]) ())]),
          cbind (load_utp p) (\<lambda>u. cwhen (u_sock_fd u \<noteq> - 1) (cvoid (do_sys E (Posix (Close (u_sock_fd u))))))]
       (cdo [cmod (\<lambda>s. s\<lparr>utps := (utps s)(p := None)\<rparr>)] (cret 0)))"


section \<open>The client of several connections\<close>

text \<open>The buffers, and the options of the UDP socket; \<open>report\<close> is what is done when one fails.\<close>

definition utp_buffers :: "('w, 'e) uenv_scheme \<Rightarrow> nat \<Rightarrow> (('w, 'z) utp_state_scheme, unit) prog" where
  "utp_buffers E p =
     cseq [cbind (cmalloc E (1024 * 2)) (\<lambda>d. store_blk p (\<lambda>b. b\<lparr>ub_buffer := d\<rparr>)),
           store_utp p (\<lambda>u. u\<lparr>u_buffer_size := 1024 * 2\<rparr>),
           cbind (cmalloc E (1024 * 2)) (\<lambda>d. store_blk p (\<lambda>b. b\<lparr>ub_rec_buffer := d\<rparr>)),
           store_utp p (\<lambda>u. u\<lparr>u_rec_buff_size := 1024 * 2\<rparr>)]"

definition utp_l3_opts ::
  "('w, 'e) uenv_scheme \<Rightarrow> (string \<Rightarrow> int \<Rightarrow> (('w, 'z) utp_state_scheme, unit) prog) \<Rightarrow>
   (('w, 'z) utp_state_scheme, unit) prog \<Rightarrow> nat \<Rightarrow> (('w, 'z) utp_state_scheme, bool) prog" where
  "utp_l3_opts E report between p =
     cbind (load_utp p) (\<lambda>u.
     cbind (cget lst) (\<lambda>l.
     cbind (do_sys E (Posix (Setsockopt (u_sock_fd u) SO_RCVBUF (o_l3_r_b_size (l_options l))))) (\<lambda>a.
     if a_rc a \<noteq> 0 then cdo [report ''Error: setsockopt: RCVBUF'' (a_errno a)] (cret False)
     else cdo [between]
       (cbind (do_sys E (Posix (Setsockopt (u_sock_fd u) SO_SNDBUF (o_l3_s_b_size (l_options l))))) (\<lambda>a.
        if a_rc a \<noteq> 0 then cdo [report ''Error: setsockopt: SNDBUF'' (a_errno a)] (cret False)
        else cret True)))))"

definition utp_num_conn :: int where "utp_num_conn = 2"

definition utp_session_start :: "('w, 'e) uenv_scheme \<Rightarrow> nat \<Rightarrow> nat \<Rightarrow> (('w, 'z) utp_state_scheme, unit) prog" where
  "utp_session_start E c p =
     cseq [cbind (cget lst) (\<lambda>l. cbind (tb_session_add (l_session_list l) (Some p)) (\<lambda>sl.
             set_l (\<lambda>l. l\<lparr>l_session_list := sl\<rparr>))),
           store_session (Some p) (\<lambda>r. r\<lparr>s_info := Some c\<rparr>),
           cbind (do_sys E (Posix (Thread_create Start_tb_utp_m_client_conn p))) (\<lambda>t.
             store_session (Some p) (\<lambda>r. r\<lparr>s_thread := Some (Thread_Id (a_val t))\<rparr>))]"

definition utp_clone :: "nat \<Rightarrow> int \<Rightarrow> (('w, 'z) utp_state_scheme, nat) prog" where
  "utp_clone p x =
     cbind (load_utp p) (\<lambda>u.
     cbind (cget ubrk) (\<lambda>c.
     cdo [cmod (\<lambda>s. s\<lparr>utps := (utps s)(c \<mapsto> u\<lparr>u_id := x\<rparr>), ubrk := c + 1\<rparr>)] (cret c)))"

definition utp_client_session :: "('w, 'e) uenv_scheme \<Rightarrow> nat \<Rightarrow> int \<Rightarrow> (('w, 'z) utp_state_scheme, int) prog" where
  "utp_client_session E u x =
     cbind (cget lst) (\<lambda>l.
     cbind (tb_create_session_full E (l_bind_address l) (l_bind_port l) SOCK_STREAM 0) (\<lambda>q.
     cdo [cwhen (q = None) (tb_abort E)]
       (cbind (utp_clone u x) (\<lambda>c.
        cbind (cderef Null_Deref q) (\<lambda>p.
        cbind (ptr_add (l_data l) (l_file_size l sdiv utp_num_conn * x)) (\<lambda>data.
        cdo [store_session (Some p) (\<lambda>r. r\<lparr>s_l_status := Some Ref_status, s_l_txrx := Some Ref_txrx,
               s_data := data, s_data_size := to_size (l_file_size l sdiv utp_num_conn)\<rparr>),
             cbind (load_session (Some p)) (\<lambda>r.
               store_stats (s_stats r) (\<lambda>st. st\<lparr>st_protocol := p_protocol (l_protocol l)\<rparr>)),
             store_session (Some p) (\<lambda>r. r\<lparr>s_n_session := None, s_pack_size := l_bufsize l\<rparr>),
             utp_session_start E c p]
          (cret (x + 1))))))))"

definition utp_join_session :: "('w, 'e) env_scheme \<Rightarrow> nat option \<Rightarrow> (('w, 'z) tb_state_scheme, nat option) prog" where
  "utp_join_session E cur =
     cbind (load_session cur) (\<lambda>r.
     case s_thread r of
       Some (Thread_Id t) \<Rightarrow>
         cdo [cvoid (do_sys E (Posix (Thread_join t)))]
           (cbind (load_session cur) (\<lambda>r.
            if s_stat_lock r then chalt Blocked else cret (s_n_session r)))
     | _ \<Rightarrow> chalt (Undefined Uninitialised))"

definition tb_utp_m_client ::
  "('w, 'e) uenv_scheme \<Rightarrow> (('w, 'z) utp_state_scheme, unit) prog \<Rightarrow> nat \<Rightarrow> nat \<Rightarrow> (('w, 'z) utp_state_scheme, int) prog" where
  "tb_utp_m_client E others waits fuel =
     cbind (tb_utp_setup E) (\<lambda>u.
     cbind (cget lst) (\<lambda>l.
     cbind (cderef Null_Deref (l_addr_info l)) (\<lambda>ai.
     cdo [cvoid (tb_utp_socket E u ai),
          store_utp u (\<lambda>r. r\<lparr>u_so_sndbuf := o_l4_s_b_size (l_options l)\<rparr>),
          utp_buffers E u]
       (cbind (utp_l3_opts E (\<lambda>_ _. cret ()) (store_utp u (\<lambda>r. r\<lparr>u_lock := True\<rparr>)) u) (\<lambda>ok.
        if \<not> ok then cret (- 1)
        else cdo [cvoid (cwhile 2 (\<lambda>x. cret (x < utp_num_conn)) (utp_client_session E u) 0),
                  cvoid (cwhile waits
                    (\<lambda>_. cdo [others] (cbind (cget (\<lambda>s. sl_start (l_session_list (lst s)))) (\<lambda>st.
                            cbind (load_session st) (\<lambda>r. cret (s_status r = SESSION_CREATED)))))
                    (\<lambda>_. cret ()) ()),
                  set_l (\<lambda>l. l\<lparr>l_status := TB_CONNECTED\<rparr>),
                  cbind (cget (\<lambda>s. sl_start (l_session_list (lst s)))) (\<lambda>st.
                    cvoid (cwhile fuel (\<lambda>cur. cret (cur \<noteq> None)) (\<lambda>cur. cdo [others] (utp_join_session E cur)) st)),
                  set_l (\<lambda>l. l\<lparr>l_status := TB_DISCONNECTED\<rparr>)]
               (cget (\<lambda>s. to_int (l_total_tx_rx (lst s)))))))))"

text \<open>
  The thread of a session. The locals of its loop are the size of the next piece and the
  result once there is one.
\<close>

definition utp_conn_body ::
  "('w, 'e) uenv_scheme \<Rightarrow> nat \<Rightarrow> nat \<Rightarrow> nat \<Rightarrow> int \<times> int option \<Rightarrow> (('w, 'z) utp_state_scheme, int \<times> int option) prog" where
  "utp_conn_body E fuel u p l =
     cbind (load_session (Some p)) (\<lambda>r.
     let rest = to_size (s_data_size r - s_total_bytes r);
         sz = (if rest < to_size (s_pack_size r) then to_int rest else fst l)
     in cdo [cmod (\<lambda>s. s\<lparr>utp_lock := True\<rparr>)]
       (cbind (ptr_add (s_data r) (s_total_bytes r)) (\<lambda>data.
        cbind (tb_utp_send E fuel u data (to_size sz)) (\<lambda>n.
        cdo [store_session (Some p) (\<lambda>r. r\<lparr>s_total_bytes := s_total_bytes r + n\<rparr>),
             cmod (\<lambda>s. s\<lparr>utp_lock := False\<rparr>)]
          (cbind (load_session (Some p)) (\<lambda>r.
           if s_data_size r \<le> to_size (s_total_bytes r) then cret (sz, Some 0)
           else cbind (load_utp u) (\<lambda>v.
             if u_state v = UTP_STATE_ERROR then cret (sz, Some (- 1))
             else cdo [cwhen (u_state v = UTP_STATE_CONNECT)
                         (store_session (Some p) (\<lambda>r. r\<lparr>s_status := SESSION_CONNECTED\<rparr>))]
                    (cret (sz, None)))))))))"

definition tb_utp_m_client_conn ::
  "('w, 'e) uenv_scheme \<Rightarrow> nat \<Rightarrow> nat \<Rightarrow> nat \<Rightarrow> (('w, 'z) utp_state_scheme, int) prog" where
  "tb_utp_m_client_conn E sends fuel p =
     cbind (load_session (Some p)) (\<lambda>r.
     cbind (cderef Null_Deref (s_info r)) (\<lambda>u.
     cdo [cmod (\<lambda>s. s\<lparr>utp_lock := True\<rparr>)]
       (cbind (cderef Null_Deref (s_addr_info r)) (\<lambda>ai.
        cbind (tb_utp_connect E fuel u (ai_addr ai)) (\<lambda>rc.
        if rc < 0 then cret (- 1)
        else cdo [cmod (\<lambda>s. s\<lparr>utp_lock := False\<rparr>),
                  store_session (Some p) (\<lambda>r. r\<lparr>s_status := SESSION_CONNECTED\<rparr>)]
          (cbind (load_session (Some p)) (\<lambda>r.
           cbind (cwhile sends (\<lambda>l. cret (snd l = None)) (utp_conn_body E fuel u p) (s_pack_size r, None)) (\<lambda>l.
           if snd l = Some (- 1) then cret (- 1)
           else cdo [store_session (Some p) (\<lambda>r. r\<lparr>s_stat_lock := True, s_status := SESSION_DISCONNECTED\<rparr>),
                     store_session (Some p) (\<lambda>r. r\<lparr>s_stat_lock := False\<rparr>)]
                  (cret 0)))))))))"


section \<open>The client of one connection\<close>

text \<open>The end of a run that has failed; the table has no function to close with.\<close>

definition utp_close_and_abort :: "('w, 'e) uenv_scheme \<Rightarrow> nat \<Rightarrow> nat \<Rightarrow> nat \<Rightarrow> (('w, 'z) utp_state_scheme, unit) prog" where
  "utp_close_and_abort E waits fuel p =
     cseq [trylock_stat,
           cvoid (tb_utp_close E waits fuel p),
           set_l (\<lambda>l. l\<lparr>l_status := TB_DISCONNECTED, l_sock_d := - 1\<rparr>),
           unlock_stat,
           tb_abort E]"

definition utp_client_body ::
  "('w, 'e) uenv_scheme \<Rightarrow> nat \<Rightarrow> nat \<Rightarrow> nat \<Rightarrow> int \<times> bool \<Rightarrow> (('w, 'z) utp_state_scheme, int \<times> bool) prog" where
  "utp_client_body E waits fuel p l0 =
     cbind (cget lst) (\<lambda>l.
     let rest = l_file_size l - l_total_tx_rx l;
         sz = (if rest < l_bufsize l then to_int rest else fst l0)
     in cbind (ptr_add (l_data l) (l_total_tx_rx l)) (\<lambda>data.
        cbind (tb_utp_send E fuel p data (to_size sz)) (\<lambda>n.
        cdo [set_l (\<lambda>l. l\<lparr>l_total_tx_rx := l_total_tx_rx l + n\<rparr>)]
          (cbind (cget lst) (\<lambda>l.
           if l_file_size l \<le> l_total_tx_rx l then cret (sz, True)
           else cbind (load_utp p) (\<lambda>u.
             cdo [cwhen (u_state u = UTP_STATE_CONNECT) (set_l (\<lambda>l. l\<lparr>l_status := TB_CONNECTED\<rparr>)),
                  cwhen (u_state u = UTP_STATE_ERROR) (utp_close_and_abort E waits fuel p)]
               (cret (sz, False))))))))"

definition utp_client_more :: "('w, 'e) env_scheme \<Rightarrow> int \<times> bool \<Rightarrow> (('w, 'z) tb_state_scheme, bool) prog" where
  "utp_client_more E l = (if snd l then cret False else in_loop E)"

definition utp_client_run ::
  "('w, 'e) uenv_scheme \<Rightarrow> nat \<Rightarrow> nat \<Rightarrow> nat \<Rightarrow> nat \<Rightarrow> addrinfo \<Rightarrow> (('w, 'z) utp_state_scheme, int) prog" where
  "utp_client_run E sends waits fuel p ai =
     cdo [log_l_info E ''uTP Connecting'',
          l_start_connect E,
          cbind (tb_utp_connect E fuel p (ai_addr ai)) (\<lambda>rc. cwhen (rc < 0)
            (cseq [log_l_errno E ''Error: tb_utp_client: tb_utp_connect'' 0, tb_abort E])),
          l_finish_connect E,
          cbind (load_utp p) (\<lambda>u. set_l (\<lambda>l. l\<lparr>l_status := TB_CONNECTED, l_sock_d := u_sock_fd u\<rparr>)),
          l_start_transfer E,
          cbind (cget lst) (\<lambda>l. cvoid (cwhile sends (utp_client_more E) (utp_client_body E waits fuel p) (l_bufsize l, False))),
          l_finish_transfer E,
          trylock_stat,
          set_l (\<lambda>l. l\<lparr>l_status := TB_DISCONNECTED\<rparr>),
          cvoid (tb_utp_close E waits fuel p),
          set_l (\<lambda>l. l\<lparr>l_sock_d := - 1\<rparr>),
          unlock_stat]
       (cget (\<lambda>s. to_int (l_total_tx_rx (lst s))))"

definition tb_utp_client ::
  "('w, 'e) uenv_scheme \<Rightarrow> nat \<Rightarrow> nat \<Rightarrow> nat \<Rightarrow> (('w, 'z) utp_state_scheme, int) prog" where
  "tb_utp_client E sends waits fuel =
     cbind (tb_utp_setup E) (\<lambda>p.
     cdo [log_l_info E ''UTP Creating socket'']
       (cbind (cget lst) (\<lambda>l.
        cbind (cderef Null_Deref (l_addr_info l)) (\<lambda>ai.
        cdo [cvoid (tb_utp_socket E p ai),
             store_utp p (\<lambda>u. u\<lparr>u_so_sndbuf := o_l4_s_b_size (l_options l)\<rparr>),
             utp_buffers E p]
          (cbind (utp_l3_opts E (log_l_errno E) (cret ()) p) (\<lambda>ok.
           if \<not> ok then cret (- 1) else utp_client_run E sends waits fuel p ai))))))"


section \<open>The servers\<close>

definition tb_utp_m_server :: "(('w, 'z) utp_state_scheme, int) prog" where
  "tb_utp_m_server = cret 0"

definition utp_m_event_body :: "('w, 'e) uenv_scheme \<Rightarrow> nat \<Rightarrow> (('w, 'z) utp_state_scheme, int \<times> int option) prog" where
  "utp_m_event_body E p =
     cbind (load_utp p) (\<lambda>u.
     cbind (do_sys E (Posix (Recvfrom (u_sock_fd u) (to_size (u_rec_buff_size u))))) (\<lambda>a.
     let len = to_int (a_rc a) in
     if len < 0 then cret (len, Some (if a_errno a = EWOULDBLOCK then 0 else - 1))
     else cdo [store_blk p (\<lambda>b. b\<lparr>ub_rec_buffer := map_option (overwrite (a_bytes a)) (ub_rec_buffer b),
                 ub_addr_s := a_peer a\<rparr>)]
       (cbind (load_blk p) (\<lambda>b.
        cbind (cread (ub_rec_buffer b) len) (\<lambda>bs.
        cbind (call_utp E (tb_utp_m_new_conn E) (Utp_is_incoming bs (ub_addr_s b) p)) (\<lambda>rc.
        cret (len, if rc = 0 then Some (- 1) else None)))))))"

definition tb_utp_m_event ::
  "('w, 'e) uenv_scheme \<Rightarrow> nat \<Rightarrow> nat \<Rightarrow> int \<Rightarrow> tb_e_data \<Rightarrow> (('w, 'z) utp_state_scheme, int) prog" where
  "tb_utp_m_event E fuel p events e_data =
     cdo [cbind (load_utp p) (\<lambda>u. cbind (load_blk p) (\<lambda>b.
            cassert (ub_rec_buffer b \<noteq> None \<and> u_rec_buff_size u \<noteq> 0)))]
       (cbind (utp_m_event_body E p) (\<lambda>l0.
        cbind (cwhile fuel utp_event_more (\<lambda>_. utp_m_event_body E p) l0) (\<lambda>l.
        cret (case snd l of None \<Rightarrow> 0 | Some rc \<Rightarrow> rc))))"

text \<open>A turn of the server: it polls, and acts on the state the callbacks have left.\<close>

definition utp_server_body ::
  "('w, 'e) uenv_scheme \<Rightarrow> nat \<Rightarrow> nat \<Rightarrow> nat \<Rightarrow> (('w, 'z) utp_state_scheme, unit) prog" where
  "utp_server_body E waits fuel p =
     cbind (tb_utp_recv E fuel p) (\<lambda>n.
     cdo [set_l (\<lambda>l. l\<lparr>l_total_tx_rx := l_total_tx_rx l + n\<rparr>)]
       (cbind (load_utp p) (\<lambda>u.
        if u_state u = UTP_STATE_CONNECT
        then cseq [cbind (cget lst) (\<lambda>l. cwhen (t_started (l_transfer_time l) = 0) (l_start_transfer E)),
                   set_l (\<lambda>l. l\<lparr>l_status := TB_CONNECTED\<rparr>)]
        else if u_state u = UTP_STATE_EOF
        then cseq [log_l_info E ''UTP eof'', set_l (\<lambda>l. l\<lparr>l_command := TB_EXIT\<rparr>)]
        else if u_state u = UTP_STATE_ERROR then utp_close_and_abort E waits fuel p
        else cret ())))"

definition utp_server_run ::
  "('w, 'e) uenv_scheme \<Rightarrow> nat \<Rightarrow> nat \<Rightarrow> nat \<Rightarrow> nat \<Rightarrow> (('w, 'z) utp_state_scheme, int) prog" where
  "utp_server_run E polls waits fuel p =
     cdo [set_l (\<lambda>l. l\<lparr>l_status := TB_LISTENING\<rparr>),
          cbind (cget lst) (\<lambda>l. cbind (cmalloc E (to_size (l_bufsize l))) (\<lambda>d. cassert (d \<noteq> None))),
          log_l_info E ''Waiting for connection'',
          cvoid (cwhile polls (\<lambda>_. not_ended E) (\<lambda>_. utp_server_body E waits fuel p) ()),
          l_finish_transfer E,
          trylock_stat,
          cvoid (tb_utp_close E waits fuel p),
          set_l (\<lambda>l. l\<lparr>l_status := TB_DISCONNECTED, l_sock_d := - 1\<rparr>),
          unlock_stat]
       (cget (\<lambda>s. to_int (l_total_tx_rx (lst s))))"

definition tb_utp_server ::
  "('w, 'e) uenv_scheme \<Rightarrow> nat \<Rightarrow> nat \<Rightarrow> nat \<Rightarrow> (('w, 'z) utp_state_scheme, int) prog" where
  "tb_utp_server E polls waits fuel =
     cbind (tb_utp_setup E) (\<lambda>p.
     cbind (cget lst) (\<lambda>l.
     cbind (cderef Null_Deref (l_addr_info l)) (\<lambda>ai.
     cdo [cvoid (tb_utp_socket E p ai),
          log_l_info E ''Creating uTP socket'',
          cbind (load_utp p) (\<lambda>u. set_l (\<lambda>l. l\<lparr>l_sock_d := u_sock_fd u\<rparr>)),
          cbind (tb_create_session E) (\<lambda>q. set_l (\<lambda>l. l\<lparr>l_curr_session := Some q\<rparr>)),
          cbind (cget lst) (\<lambda>l. store_session (l_curr_session l) (\<lambda>r. r\<lparr>s_sock_d := l_sock_d l\<rparr>)),
          log_l_info E ''Binding uTP socket'',
          cbind (load_utp p) (\<lambda>u. cbind (do_sys E (Posix (Bind (u_sock_fd u) (ai_addr ai)))) (\<lambda>a.
            cwhen (a_rc a < 0) (tb_abort E))),
          store_utp p (\<lambda>u. u\<lparr>u_so_rcvbuf := o_l4_r_b_size (l_options l)\<rparr>),
          utp_buffers E p]
       (cbind (utp_l3_opts E (\<lambda>_ _. cret ()) (cret ()) p) (\<lambda>ok.
        if \<not> ok then cret (- 1) else utp_server_run E polls waits fuel p)))))"

end
