(* ===== verification/TB_Utp_Proofs.thy ===== *)
theory TB_Utp_Proofs
  imports TB_Utp
begin

text \<open>
  The uTP endpoint against what it is for. Libutp reports every byte it takes or delivers
  through a callback; the lemmas follow the callbacks of one call, and the properties say what
  a send, an event and a turn of the server make of them.
\<close>

section \<open>Sending\<close>

lemma write_callbacks [simp]: "map (run_callback E incoming) (map (On_write p) ns) = map (tb_utp_write E p) ns"
  by simp

text \<open>One callback for each piece that libutp takes from the program.\<close>

lemma on_write_callbacks:
  fixes s :: "('w, 'z) utp_state_scheme"
  assumes "utps s p = Some u" and "u_s_data u = Some d"
    and "\<forall>n\<in>set ns. 0 \<le> n \<and> n \<le> int (length d)"
    and "in_int (u_write_bytes u)" and "in_int (u_write_bytes u + sum_list ns)"
  shows "wp (cseq (map (tb_utp_write E p) ns))
    (\<lambda>_ s'. (\<exists>t. utps s' p = Some (u\<lparr>u_write_bytes := u_write_bytes u + sum_list ns, u_recv_total := t\<rparr>)) \<and>
       map fst (trace s') = rev (map (\<lambda>n. Utp (Utp_filled (take (nat n) d))) ns) @ map fst (trace s) \<and>
       lst s' = lst s \<and> ublks s' = ublks s) R s"
  using assms
proof (induction ns arbitrary: s u)
  case Nil
  then show ?case by (auto simp: wp_rules intro!: exI [of _ "u_recv_total u"])
next
  case (Cons n ns)
  have n: "0 \<le> n" "nat n \<le> length d" "0 \<le> sum_list ns" using Cons.prems(3) by (auto intro: sum_list_nonneg)
  have int: "in_int (u_write_bytes u + n)" using Cons.prems(4,5) n by (auto simp: in_int_def)
  have step: "wp (cseq (map (tb_utp_write E p) ns))
    (\<lambda>_ s'. (\<exists>t. utps s' p = Some (u\<lparr>u_write_bytes := u_write_bytes u + sum_list (n # ns), u_recv_total := t\<rparr>)) \<and>
       map fst (trace s') = rev (map (\<lambda>n. Utp (Utp_filled (take (nat n) d))) (n # ns)) @ map fst (trace s) \<and>
       lst s' = lst s \<and> ublks s' = ublks s) R
    (s\<lparr>utps := (utps s)(p \<mapsto> u\<lparr>u_write_bytes := u_write_bytes u + n, u_recv_total := t\<rparr>), world := w,
       trace := (Utp (Utp_filled (take (nat n) d)), rc) # trace s\<rparr>)" for t w rc
    using Cons.IH [of "s\<lparr>utps := (utps s)(p \<mapsto> u\<lparr>u_write_bytes := u_write_bytes u + n, u_recv_total := t\<rparr>), world := w,
       trace := (Utp (Utp_filled (take (nat n) d)), rc) # trace s\<rparr>" "u\<lparr>u_write_bytes := u_write_bytes u + n, u_recv_total := t\<rparr>"]
      Cons.prems int by (auto simp: algebra_simps elim!: wp_mono)
  show ?case
    using Cons.prems(1,2) n int step
    by (simp add: tb_utp_write_def [of E p n] wp_rules to_int_id cread_inside split: prod.splits)
qed


text \<open>What libutp took from the program, in order.\<close>

fun taken :: "syscall list \<Rightarrow> byte list list" where
  "taken [] = []"
| "taken (Utp (Utp_filled bs) # tr) = taken tr @ [bs]"
| "taken (c # tr) = taken tr"

section \<open>Receiving\<close>

text \<open>The bytes that read callbacks deliver, and the callbacks a server can expect for \<open>p\<close>.\<close>

fun delivered :: "utp_callback list \<Rightarrow> int" where
  "delivered [] = 0"
| "delivered (On_read q n # cbs) = n + delivered cbs"
| "delivered (cb # cbs) = delivered cbs"

fun server_callback :: "nat \<Rightarrow> utp_callback \<Rightarrow> bool" where
  "server_callback p (On_read q n) \<longleftrightarrow> q = p \<and> 0 \<le> n"
| "server_callback p (On_write q n) \<longleftrightarrow> False"
| "server_callback p (Get_rb_size q) \<longleftrightarrow> q = p"
| "server_callback p (On_state q st) \<longleftrightarrow> q = p"
| "server_callback p (On_error q e) \<longleftrightarrow> q = p"
| "server_callback p (On_overhead q) \<longleftrightarrow> q = p"
| "server_callback p (On_incoming q socket) \<longleftrightarrow> q = p"
| "server_callback p (On_send_to q bs to) \<longleftrightarrow> q = p"

text \<open>
  What a server relies on: \<open>B\<close> bounds the bytes still to be delivered, \<open>m\<close> the datagrams still
  to be read; a datagram fits the room it was asked into, and a poll reports no more events
  than it has room for.
\<close>

definition utp_contract :: "('w, 'e) env_scheme \<Rightarrow> nat \<Rightarrow> ('w \<Rightarrow> int) \<Rightarrow> ('w \<Rightarrow> nat) \<Rightarrow> bool" where
  "utp_contract E p B m \<longleftrightarrow>
     (\<forall>c w a w'. sys E c w = (a, w') \<longrightarrow> 0 \<le> B w' \<and> delivered (a_callbacks a) + B w' \<le> B w \<and> m w' \<le> m w \<and>
        list_all (server_callback p) (a_callbacks a)) \<and>
     (\<forall>fd n w a w'. sys E (Posix (Recvfrom fd n)) w = (a, w') \<and> 0 \<le> n \<longrightarrow>
        a_rc a \<le> n \<and> - 1 \<le> a_rc a \<and> int (length (a_bytes a)) \<le> n \<and> (0 < a_rc a \<longrightarrow> m w' < m w)) \<and>
     (\<forall>i k t w a w'. sys E (Posix (Epoll_wait i k t)) w = (a, w') \<and> 0 \<le> k \<longrightarrow> int (length (a_events a)) \<le> k \<and> a_rc a \<le> k)"

text \<open>The structure has its receive buffer and its epoll instance, which calls back with it.\<close>

definition utp_ok :: "nat \<Rightarrow> ('w, 'z) utp_state_scheme \<Rightarrow> bool" where
  "utp_ok p s \<longleftrightarrow> (\<exists>u b r ep. utps s p = Some u \<and> ublks s (u_blk u) = Some b \<and> ub_rec_buffer b = Some r \<and>
     u_rec_buff_size u = int (length r) \<and> in_int (int (length r)) \<and> ub_ep_data b = p \<and> ub_epoll b = Some ep \<and>
     ep_f_event ep \<noteq> None \<and> 2 \<le> length (ep_events ep) \<and> ep_max_events ep = int (length (ep_events ep)))"

text \<open>
  The counters while \<open>pend\<close> bytes are on their way: what this call has read, \<open>k\<close> before it,
  and no sum that could leave the range of an \<open>int\<close>.
\<close>

definition utp_count :: "nat \<Rightarrow> int \<Rightarrow> int \<Rightarrow> ('w, 'z) utp_state_scheme \<Rightarrow> bool" where
  "utp_count p k pend s \<longleftrightarrow> (\<exists>u. utps s p = Some u \<and> 0 \<le> k \<and> 0 \<le> u_read_bytes u \<and>
     u_sent_total u = k + u_read_bytes u \<and> 0 \<le> pend \<and> u_sent_total u + pend \<le> 2147483647)"

definition utp_at ::
  "('w \<Rightarrow> int) \<Rightarrow> ('w \<Rightarrow> nat) \<Rightarrow> nat \<Rightarrow> int \<Rightarrow> tb_listener_t \<Rightarrow> nat \<Rightarrow> int \<Rightarrow> ('w, 'z) utp_state_scheme \<Rightarrow> bool" where
  "utp_at B m p k L n pend s \<longleftrightarrow> utp_ok p s \<and> utp_count p k (pend + B (world s)) s \<and> 0 \<le> B (world s) \<and> 0 \<le> pend \<and>
     m (world s) \<le> n \<and> lst s = L"

lemma utp_at_sys:
  assumes "utp_contract E p B m" and "utp_at B m p k L n 0 s" and "sys E c (world s) = (a, w)"
  shows "utp_at B m p k L n (delivered (a_callbacks a)) (s\<lparr>world := w, trace := t\<rparr>)"
proof -
  have d: "0 \<le> delivered cbs" if "list_all (server_callback p) cbs" for cbs
    using that by (induction cbs rule: delivered.induct) auto
  have c: "0 \<le> B w" "delivered (a_callbacks a) + B w \<le> B (world s)" "m w \<le> m (world s)" "list_all (server_callback p) (a_callbacks a)"
    using assms(1,3) unfolding utp_contract_def by blast+
  then show ?thesis
    using assms(2) d [OF c(4)] by (auto simp: utp_at_def utp_ok_def utp_count_def)
qed

text \<open>A system call whose callbacks are dropped can only lower what is left to be delivered.\<close>

lemma utp_at_quiet:
  assumes "utp_contract E p B m" and "utp_at B m p k L n pend s" and "sys E c (world s) = (a, w)"
  shows "utp_at B m p k L n pend (s\<lparr>world := w, trace := t\<rparr>)"
proof -
  have d: "0 \<le> delivered cbs" if "list_all (server_callback p) cbs" for cbs
    using that by (induction cbs rule: delivered.induct) auto
  have c: "0 \<le> B w" "delivered (a_callbacks a) + B w \<le> B (world s)" "m w \<le> m (world s)" "list_all (server_callback p) (a_callbacks a)"
    using assms(1,3) unfolding utp_contract_def by blast+
  then show ?thesis
    using assms(2) d [OF c(4)] by (auto simp: utp_at_def utp_ok_def utp_count_def)
qed

text \<open>Updates of the other fields.\<close>

lemma wp_store_other:
  assumes "utp_at B m p k L n pend s"
    and "\<And>u. u_blk (f u) = u_blk u \<and> u_rec_buff_size (f u) = u_rec_buff_size u \<and> u_read_bytes (f u) = u_read_bytes u \<and>
      u_sent_total (f u) = u_sent_total u"
  shows "wp (store_utp p f) (\<lambda>_. utp_at B m p k L n pend) R s"
  using assms by (auto simp: utp_at_def utp_ok_def utp_count_def wp_store_utp)

lemma wp_store_blk_other:
  assumes "utp_at B m p k L n pend s"
    and "\<And>b. map_option length (ub_rec_buffer (f b)) = map_option length (ub_rec_buffer b) \<and> ub_ep_data (f b) = ub_ep_data b \<and>
      ub_epoll (f b) = ub_epoll b"
  shows "wp (store_blk p f) (\<lambda>_. utp_at B m p k L n pend) R s"
proof -
  from assms(1) obtain u b r ep where ub: "utps s p = Some u" "ublks s (u_blk u) = Some b" "ub_rec_buffer b = Some r"
    "u_rec_buff_size u = int (length r)" "ub_epoll b = Some ep"
    by (auto simp: utp_at_def utp_ok_def)
  moreover obtain r' where "ub_rec_buffer (f b) = Some r'" "length r' = length r"
    using assms(2) [of b] ub(3) by auto
  ultimately show ?thesis
    using assms by (auto simp: utp_at_def utp_ok_def utp_count_def wp_store_blk)
qed

lemma wp_load_ok:
  assumes "utp_at B m p k L n pend s" and "\<And>u. utps s p = Some u \<Longrightarrow> Q u s"
  shows "wp (load_utp p) Q R s"
  using assms by (auto simp: utp_at_def utp_ok_def wp_load_utp)

lemma wp_load_blk_ok:
  assumes "utp_at B m p k L n pend s" and "\<And>u b. utps s p = Some u \<Longrightarrow> ublks s (u_blk u) = Some b \<Longrightarrow> Q b s"
  shows "wp (load_blk p) Q R s"
  using assms by (auto simp: utp_at_def utp_ok_def wp_load_blk)

lemma wp_sys_quiet:
  assumes "utp_contract E p B m" and "utp_at B m p k L n pend s"
  shows "wp (cvoid (do_sys E c)) (\<lambda>_. utp_at B m p k L n pend) R s"
  using utp_at_quiet [OF assms] by (auto simp: wp_do_sys wp_cvoid split: prod.splits)

lemma wp_utp_start_last_rec:
  assumes "utp_contract E p B m" and "utp_at B m p k L n pend s"
  shows "wp (utp_start_last_rec E p) (\<lambda>_. utp_at B m p k L n pend) R s"
  unfolding utp_start_last_rec_def wp_cbind
  by (rule wp_load_blk_ok [OF assms(2)])
     (auto simp: wp_tb_start_time split: prod.splits intro!: wp_store_blk_other utp_at_quiet [OF assms])

lemma wp_tb_utp_incoming:
  assumes "utp_contract E p B m" and "utp_at B m p k L n pend s"
  shows "wp (tb_utp_incoming E p socket) (\<lambda>_. utp_at B m p k L n pend) R s"
  unfolding tb_utp_incoming_def
  apply (rule wp_step [where I = "utp_at B m p k L n pend"], rule wp_store_other [OF assms(2)], simp)
  apply (rule wp_step [where I = "utp_at B m p k L n pend"], unfold wp_cbind,
      rule wp_load_ok, assumption, erule wp_sys_quiet [OF assms(1)])
  apply (rule wp_step [where I = "utp_at B m p k L n pend"], erule wp_sys_quiet [OF assms(1)])
  apply (rule wp_step [where I = "utp_at B m p k L n pend"], erule wp_store_other, simp)
  apply (rule wp_step [where I = "utp_at B m p k L n pend"], erule wp_utp_start_last_rec [OF assms(1)])
  apply (rule wp_step [where I = "utp_at B m p k L n pend"], erule wp_store_other, simp)
  apply (simp add: wp_cseq_Nil)
  done

text \<open>A callback takes its bytes from those on their way; a send that fails ends the process.\<close>

lemma wp_run_callback:
  assumes "utp_contract E p B m" and "server_callback p cb" and "utp_at B m p k L n (delivered [cb] + pend) s" and "0 \<le> pend"
  shows "wp (run_callback E (tb_utp_incoming E) cb) (\<lambda>_. utp_at B m p k L n pend) (\<lambda>h _. h = Process_Exit 1) s"
proof (cases cb)
  case (On_read q c)
  with assms obtain u where u: "q = p" "0 \<le> c" "utps s p = Some u" "0 \<le> u_read_bytes u" "u_sent_total u = k + u_read_bytes u"
    "0 \<le> k" "u_sent_total u + (c + pend + B (world s)) \<le> 2147483647" "0 \<le> B (world s)"
    by (auto simp: utp_at_def utp_count_def)
  then have "in_int (u_read_bytes u + c)" "in_int (u_sent_total u + c)" using assms(4) by (auto simp: in_int_def)
  then show ?thesis using On_read assms(3,4) u
    by (auto simp: utp_at_def utp_ok_def utp_count_def tb_utp_read_def wp_store_utp to_int_id)
next
  case (On_send_to q bs to)
  have at: "utp_at B m p k L n pend s" using assms On_send_to by simp
  from On_send_to assms(2) have q: "q = p" by simp
  show ?thesis unfolding On_send_to run_callback.simps q tb_utp_send_to_def wp_cbind
    by (rule wp_load_ok [OF at]) (use utp_at_quiet [OF assms(1) at] in \<open>auto simp: wp_rules split: prod.splits\<close>)
qed (use assms in \<open>auto simp: tb_utp_state_change_def tb_utp_error_def tb_utp_overhead_def tb_utp_get_Rcv_buff_def wp_rules
    intro!: wp_store_other [unfolded wp_store_utp] wp_tb_utp_incoming\<close>)

lemma wp_run_callbacks:
  assumes "utp_contract E p B m" and "list_all (server_callback p) cbs" and "utp_at B m p k L n (delivered cbs) s"
  shows "wp (cseq (map (run_callback E (tb_utp_incoming E)) cbs)) (\<lambda>_. utp_at B m p k L n 0) (\<lambda>h _. h = Process_Exit 1) s"
  using assms(2,3)
proof (induction cbs arbitrary: s)
  case (Cons cb cbs)
  have d: "0 \<le> delivered cbs" if "list_all (server_callback p) cbs" for cbs
    using that by (induction cbs rule: delivered.induct) auto
  have split: "delivered (cb # cbs) = delivered [cb] + delivered cbs" by (cases cb) auto
  show ?case unfolding list.map wp_cseq_Cons
    by (rule wp_mono [OF wp_run_callback [OF assms(1) _ Cons.prems(2) [unfolded split]]])
       (use Cons d in auto)
qed (simp add: wp_rules)

lemma wp_call_utp:
  assumes "utp_contract E p B m" and "utp_at B m p k L n 0 s"
  shows "wp (call_utp E (tb_utp_incoming E) c) (\<lambda>_. utp_at B m p k L n 0) (\<lambda>h _. h = Process_Exit 1) s"
proof -
  have "list_all (server_callback p) (a_callbacks a)" if "sys E (Utp c) (world s) = (a, w)" for a w
    using assms(1) that unfolding utp_contract_def by blast
  then show ?thesis unfolding call_utp_def wp_cbind
    by (auto simp: wp_do_sys wp_cdo wp_cseq_Cons wp_cseq_Nil wp_cret split: prod.splits
        intro!: wp_mono [OF wp_run_callbacks [OF assms(1) _ utp_at_sys [OF assms]]])
qed

lemma utp_at_le: "utp_at B m p k L n pend s \<Longrightarrow> n \<le> n' \<Longrightarrow> utp_at B m p k L n' pend s"
  by (auto simp: utp_at_def)

text \<open>One turn of the event loop; a datagram with bytes uses up one of the datagrams left.\<close>

definition utp_left :: "('w \<Rightarrow> int) \<Rightarrow> ('w \<Rightarrow> nat) \<Rightarrow> nat \<Rightarrow> int \<Rightarrow> tb_listener_t \<Rightarrow> nat \<Rightarrow> int \<times> int option \<Rightarrow>
    ('w, 'z) utp_state_scheme \<Rightarrow> bool" where
  "utp_left B m p k L n l s \<longleftrightarrow> (if 0 < fst l then 0 < n \<and> utp_at B m p k L (n - 1) 0 s else utp_at B m p k L n 0 s)"

lemma utp_left_at: "utp_left B m p k L n l s \<Longrightarrow> utp_at B m p k L n 0 s"
  by (auto simp: utp_left_def split: if_splits intro: utp_at_le)

lemma wp_utp_event_body:
  fixes s :: "('w, 'z) utp_state_scheme"
  assumes con: "utp_contract E p B m" and at: "utp_at B m p k L n 0 s"
  shows "wp (utp_event_body E (tb_utp_incoming E) p) (utp_left B m p k L n) (\<lambda>h _. h = Process_Exit 1) s"
proof -
  obtain u b r where ub: "utps s p = Some u" "ublks s (u_blk u) = Some b" "ub_rec_buffer b = Some r"
      "u_rec_buff_size u = int (length r)" "in_int (int (length r))"
    using at by (auto simp: utp_at_def utp_ok_def)
  then have sz: "to_size (u_rec_buff_size u) = int (length r)" by (simp add: in_int_def to_size_id)
  obtain a w where sys: "sys E (Posix (Recvfrom (u_sock_fd u) (int (length r)))) (world s) = (a, w)" by force
  let ?s = "s\<lparr>world := w, trace := (Posix (Recvfrom (u_sock_fd u) (int (length r))), a_rc a) # trace s\<rparr>"
  let ?n = "if 0 < a_rc a then n - 1 else n"
  have rc: "a_rc a \<le> int (length r)" "- 1 \<le> a_rc a" "int (length (a_bytes a)) \<le> int (length r)" "0 < a_rc a \<Longrightarrow> m w < m (world s)"
    using con sys of_nat_0_le_iff [of "length r", where 'a = int] unfolding utp_contract_def by blast+
  then have len: "to_int (a_rc a) = a_rc a" using ub(5) by (intro to_int_id) (auto simp: in_int_def)
  have s1: "utp_at B m p k L ?n 0 ?s" "0 < a_rc a \<Longrightarrow> 0 < n"
    using utp_at_quiet [OF con at sys] rc(4) at by (auto simp: utp_at_def)
  have left: "utp_left B m p k L n (a_rc a, x) s'" if "utp_at B m p k L ?n 0 s'" for x and s' :: "('w, 'z) utp_state_scheme"
    using that s1(2) by (auto simp: utp_left_def)
  let ?b = "b\<lparr>ub_rec_buffer := Some (overwrite (a_bytes a) r), ub_addr_s := a_peer a\<rparr>"
  let ?t = "?s\<lparr>ublks := (ublks s)(u_blk u \<mapsto> ?b)\<rparr>"
  have s2: "utp_at B m p k L ?n 0 ?t"
    using wp_store_blk_other [OF s1(1), of "\<lambda>b. b\<lparr>ub_rec_buffer := map_option (overwrite (a_bytes a)) (ub_rec_buffer b), ub_addr_s := a_peer a\<rparr>"
        "\<lambda>_ _. False"] ub(1-3)
    by (simp add: wp_store_blk option.map_comp comp_def)
  have rest: "wp (cbind (call_utp E (tb_utp_incoming E) c) (\<lambda>rc. if rc = 0 then cret (to_int (a_rc a), Some (- 1))
      else cdo [utp_start_last_rec E p] (cret (to_int (a_rc a), None)))) (utp_left B m p k L n) (\<lambda>h _. h = Process_Exit 1) ?t" for c
    unfolding wp_cbind len
  proof (rule wp_mono [OF wp_call_utp [OF con s2]])
    fix x and s3 :: "('w, 'z) utp_state_scheme"
    assume s3: "utp_at B m p k L ?n 0 s3"
    have "wp (utp_start_last_rec E p) (\<lambda>_. utp_left B m p k L n (a_rc a, None)) (\<lambda>h _. h = Process_Exit 1) s3"
      by (rule wp_mono [OF wp_utp_start_last_rec [OF con s3]]) (auto intro: left)
    then show "wp (if x = 0 then cret (a_rc a, Some (- 1)) else cdo [utp_start_last_rec E p] (cret (a_rc a, None)))
      (utp_left B m p k L n) (\<lambda>h _. h = Process_Exit 1) s3"
      using left [OF s3] by (simp add: wp_rules) (auto elim!: wp_mono simp: wp_rules)
  qed auto
  show ?thesis
    unfolding utp_event_body_def
    using ub(1-3) sys rc rest left [OF s1(1)]
    by (simp add: wp_cbind [of "load_utp p"] wp_cbind [of "do_sys E c" for c] wp_load_utp wp_do_sys sz len Let_def wp_if wp_cdo wp_cseq_Cons wp_cseq_Nil
        wp_store_blk wp_cbind [of "load_blk p"] wp_load_blk wp_cbind [of "cread x y" for x y] wp_cbind [of "cret x" for x] cread_inside wp_cret)
qed

lemma wp_tb_utp_event:
  fixes s :: "('w, 'z) utp_state_scheme"
  assumes con: "utp_contract E p B m" and at: "utp_at B m p k L n 0 s" and fuel: "n \<le> fuel"
  shows "wp (tb_utp_event E fuel p ev d) (\<lambda>_. utp_at B m p k L n 0) (\<lambda>h _. h = Process_Exit 1) s"
  unfolding tb_utp_event_def wp_cbind
proof (rule wp_mono [OF wp_utp_event_body [OF con at]])
  fix l0 and s1 :: "('w, 'z) utp_state_scheme"
  assume s1: "utp_left B m p k L n l0 s1"
  let ?I = "\<lambda>l s'. utp_left B m p k L n l s'" and ?mu = "\<lambda>l s'. (if 0 < fst l then Suc (m (world s')) else 0)"
  have "wp (cwhile fuel utp_event_more (\<lambda>_. utp_event_body E (tb_utp_incoming E) p) l0)
    (\<lambda>_. utp_at B m p k L n 0) (\<lambda>h _. h = Process_Exit 1) s1"
  proof (rule wp_cwhile [where I = ?I and \<mu> = ?mu])
    show "?mu l0 s1 \<le> fuel" using s1 fuel by (auto simp: utp_left_def utp_at_def split: if_splits)
    fix l and s2 :: "('w, 'z) utp_state_scheme"
    assume s2: "utp_left B m p k L n l s2"
    have turn: "utp_left B m p k L n l' s3 \<and> ?mu l' s3 < Suc (m (world s2))"
      if "0 < fst l" and "utp_left B m p k L (m (world s2)) l' s3" for l' and s3 :: "('w, 'z) utp_state_scheme"
      using that s2 by (auto simp: utp_left_def utp_at_def split: if_splits)
    have "wp (utp_event_body E (tb_utp_incoming E) p) (utp_left B m p k L (m (world s2))) (\<lambda>h _. h = Process_Exit 1) s2"
      using utp_left_at [OF s2] by (intro wp_utp_event_body [OF con]) (auto simp: utp_at_def)
    then have body: "wp (utp_event_body E (tb_utp_incoming E) p) (\<lambda>l'' s''. utp_left B m p k L n l'' s'' \<and> ?mu l'' s'' < Suc (m (world s2)))
        (\<lambda>h _. h = Process_Exit 1) s2" if "0 < fst l"
      by (rule wp_mono) (use turn [OF that] in blast)+
    show "wp (utp_event_more l) (\<lambda>go s'. if go then utp_left B m p k L n l s' \<and> ?mu l s' \<le> ?mu l s2 \<and> 0 < ?mu l s' \<and>
        wp (utp_event_body E (tb_utp_incoming E) p) (\<lambda>l'' s''. utp_left B m p k L n l'' s'' \<and> ?mu l'' s'' < ?mu l s')
          (\<lambda>h _. h = Process_Exit 1) s'
      else utp_at B m p k L n 0 s') (\<lambda>h _. h = Process_Exit 1) s2"
      using s2 utp_left_at [OF s2] body by (simp add: utp_event_more_def wp_cret)
  qed (rule s1)
  then show "wp (cwhile fuel utp_event_more (\<lambda>_. utp_event_body E (tb_utp_incoming E) p) l0)
    (\<lambda>x. wp (cret (case snd x of None \<Rightarrow> 0 | Some rc \<Rightarrow> rc)) (\<lambda>_. utp_at B m p k L n 0) (\<lambda>h _. h = Process_Exit 1))
    (\<lambda>h _. h = Process_Exit 1) s1"
    by (rule wp_mono) (auto simp: wp_cret)
qed auto

lemma wp_tb_poll_loop:
  assumes "\<And>ev d s. I s \<Longrightarrow> wp (f ev d) (\<lambda>_. I) R s" and "I s" and "i + k \<le> length (ep_events ep)" and "2 \<le> length (ep_events ep)"
  shows "wp (tb_poll_loop f ep i k) (\<lambda>_. I) R s"
  using assms(2,3)
proof (induction k arbitrary: i s)
  case (Suc k)
  then show ?case
    using assms(4) by (auto simp: wp_rules intro!: wp_mono [OF assms(1) [OF Suc.prems(1)]] Suc.IH)
qed (simp add: wp_rules)

lemma wp_utp_poll:
  fixes s :: "('w, 'z) utp_state_scheme"
  assumes con: "utp_contract E p B m" and at: "utp_at B m p k L n 0 s" and fuel: "n \<le> fuel"
  shows "wp (utp_poll E fuel p) (\<lambda>_. utp_at B m p k L n 0) (\<lambda>h _. h = Process_Exit 1) s"
proof -
  obtain u b ep where ub: "utps s p = Some u" "ublks s (u_blk u) = Some b" "ub_ep_data b = p" "ub_epoll b = Some ep"
      "ep_f_event ep \<noteq> None" "2 \<le> length (ep_events ep)" "ep_max_events ep = int (length (ep_events ep))"
    using at by (auto simp: utp_at_def utp_ok_def)
  obtain a w where sys: "sys E (Posix (Epoll_wait (ep_e_id ep) (ep_max_events ep) (ep_w_time ep))) (world s) = (a, w)" by force
  have a: "int (length (a_events a)) \<le> ep_max_events ep" "a_rc a \<le> ep_max_events ep"
    using con sys ub(7) of_nat_0_le_iff [of "length (ep_events ep)", where 'a = int] unfolding utp_contract_def by metis+
  let ?s = "s\<lparr>world := w, trace := (Posix (Epoll_wait (ep_e_id ep) (ep_max_events ep) (ep_w_time ep)), a_rc a) # trace s\<rparr>"
  let ?ep = "ep\<lparr>ep_events := overwrite (a_events a) (ep_events ep)\<rparr>"
  obtain f where f: "ep_f_event ep = Some f" using ub(5) by auto
  have loop: "wp (tb_poll_loop (\<lambda>ev d. case ep_f_event ep of None \<Rightarrow> chalt (Undefined Null_Call)
      | Some f \<Rightarrow> tb_utp_event E fuel (ub_ep_data b) ev d) ?ep 0 (nat (a_rc a))) (\<lambda>_. utp_at B m p k L n 0) (\<lambda>h _. h = Process_Exit 1) ?s"
    unfolding ub(3) by (rule wp_tb_poll_loop [where I = "utp_at B m p k L n 0"]) (use f ub(6,7) a(2) wp_tb_utp_event [OF con _ fuel] utp_at_quiet [OF con at sys] in auto)
  have stored: "wp (store_blk p (\<lambda>b. b\<lparr>ub_epoll := Some ?ep\<rparr>)) (\<lambda>_. utp_at B m p k L n 0) (\<lambda>h _. h = Process_Exit 1) s'"
    if "utp_at B m p k L n 0 s'" for s' :: "('w, 'z) utp_state_scheme"
    using that ub by (auto simp: utp_at_def utp_ok_def utp_count_def wp_store_blk)
  show ?thesis
    using ub(1,2,4) sys
    by (simp add: utp_poll_def wp_cbind wp_load_blk wp_cderef tb_poll_for_events_def wp_do_sys Let_def)
       (rule wp_mono [OF loop], auto simp: wp_cret intro: stored)
qed

lemma wp_tb_utp_recv:
  fixes s :: "('w, 'z) utp_state_scheme"
  assumes con: "utp_contract E p B m" and at: "utp_at B m p k L n 0 s" and fuel: "n \<le> fuel" and u: "utps s p = Some u"
  shows "wp (tb_utp_recv E fuel p) (\<lambda>rc s'. lst s' = L \<and>
      (\<exists>u'. utps s' p = Some u' \<and> (u_state u' = UTP_STATE_ERROR \<or> rc = u_sent_total u' - u_sent_total u)))
    (\<lambda>h _. h = Process_Exit 1) s"
proof -
  let ?at = "\<lambda>s. utp_at B m p (u_sent_total u) L n 0 s"
  let ?Q = "\<lambda>rc s'. lst s' = L \<and> (\<exists>u'. utps s' p = Some u' \<and> (u_state u' = UTP_STATE_ERROR \<or> rc = u_sent_total u' - u_sent_total u))"
  have start: "wp (store_utp p (\<lambda>u. u\<lparr>u_read_bytes := 0\<rparr>)) (\<lambda>_. ?at) (\<lambda>h _. h = Process_Exit 1) s"
    using at u by (auto simp: utp_at_def utp_ok_def utp_count_def wp_store_utp)
  have fin: "?Q (u_read_bytes v) s'" if "?at s'" and "utps s' p = Some v" for v and s' :: "('w, 'z) utp_state_scheme"
    using that by (auto simp: utp_at_def utp_count_def)
  have out: "wp (cdo [store_blk p (\<lambda>b. b\<lparr>ub_last_rec := t\<rparr>)]
      (if u_time_out v < t_n_sec t then cdo [store_utp p (\<lambda>u. u\<lparr>u_state := UTP_STATE_ERROR\<rparr>)] (cret 0)
       else cret (u_read_bytes v))) ?Q (\<lambda>h _. h = Process_Exit 1) s'"
    if "?at s'" and "utps s' p = Some v" for v t and s' :: "('w, 'z) utp_state_scheme"
    using that fin [OF that] by (auto simp: wp_rules utp_at_def utp_ok_def)
  have rest: "wp (cbind (load_utp p) (\<lambda>u.
        if u_measure_time u \<noteq> 0
        then cbind (load_blk p) (\<lambda>b. cbind (tb_finish_time E (ub_last_rec b)) (\<lambda>t.
             cdo [store_blk p (\<lambda>b. b\<lparr>ub_last_rec := t\<rparr>)]
               (if u_time_out u < t_n_sec t then cdo [store_utp p (\<lambda>u. u\<lparr>u_state := UTP_STATE_ERROR\<rparr>)] (cret 0)
                else cret (u_read_bytes u))))
        else cret (u_read_bytes u))) ?Q (\<lambda>h _. h = Process_Exit 1) s'" if s': "?at s'" for s' :: "('w, 'z) utp_state_scheme"
    unfolding wp_cbind
  proof (rule wp_load_ok [OF s'])
    fix v assume v: "utps s' p = Some v"
    have "wp (cbind (load_blk p) (\<lambda>b. cbind (tb_finish_time E (ub_last_rec b)) (\<lambda>t.
             cdo [store_blk p (\<lambda>b. b\<lparr>ub_last_rec := t\<rparr>)]
               (if u_time_out v < t_n_sec t then cdo [store_utp p (\<lambda>u. u\<lparr>u_state := UTP_STATE_ERROR\<rparr>)] (cret 0)
                else cret (u_read_bytes v))))) ?Q (\<lambda>h _. h = Process_Exit 1) s'"
      unfolding wp_cbind
    proof (rule wp_load_blk_ok [OF s'])
      fix b
      show "wp (tb_finish_time E (ub_last_rec b)) (\<lambda>t. wp (cdo [store_blk p (\<lambda>b. b\<lparr>ub_last_rec := t\<rparr>)]
         (if u_time_out v < t_n_sec t then cdo [store_utp p (\<lambda>u. u\<lparr>u_state := UTP_STATE_ERROR\<rparr>)] (cret 0)
          else cret (u_read_bytes v))) ?Q (\<lambda>h _. h = Process_Exit 1)) (\<lambda>h _. h = Process_Exit 1) s'"
        unfolding wp_tb_finish_time
        by (split prod.split, intro allI impI, rule out, erule utp_at_quiet [OF con s'], simp add: v)
    qed
    then show "wp (if u_measure_time v \<noteq> 0
        then cbind (load_blk p) (\<lambda>b. cbind (tb_finish_time E (ub_last_rec b)) (\<lambda>t.
             cdo [store_blk p (\<lambda>b. b\<lparr>ub_last_rec := t\<rparr>)]
               (if u_time_out v < t_n_sec t then cdo [store_utp p (\<lambda>u. u\<lparr>u_state := UTP_STATE_ERROR\<rparr>)] (cret 0)
                else cret (u_read_bytes v))))
        else cret (u_read_bytes v)) ?Q (\<lambda>h _. h = Process_Exit 1) s'"
      using fin [OF s' v] by (simp add: wp_cret)
  qed
  show ?thesis
    unfolding tb_utp_recv_def wp_cdo
    apply (rule wp_step [where I = ?at], rule start)
    apply (rule wp_step [where I = ?at], erule wp_utp_poll [OF con _ fuel])
    apply (rule wp_step [where I = ?at], unfold wp_cvoid, erule wp_call_utp [OF con])
    apply (unfold wp_cseq_Nil, erule rest)
    done
qed

section \<open>Properties\<close>



text \<open>An error on the UDP socket ends the event, the errors the code means to skip too. When
  the first read of an event fails, the event returns at once: 0 for a reset, an oversized
  datagram or an empty socket, -1 otherwise. It reads nothing more, so the \<open>continue\<close> for the
  first two does not go on to the datagrams behind them.\<close>

theorem utp_event_error_ends:
  assumes "utps s p = Some u" and "sys E (Posix (Recvfrom (u_sock_fd u) (to_size (u_rec_buff_size u)))) (world s) = (a, w)"
    and "to_int (a_rc a) < 0"
  shows "tb_utp_event E fuel p ev d s = Ok (if a_errno a \<in> {ECONNRESET, EMSGSIZE, EWOULDBLOCK} then 0 else - 1)
    (s\<lparr>world := w, trace := (Posix (Recvfrom (u_sock_fd u) (to_size (u_rec_buff_size u))), a_rc a) # trace s\<rparr>)"
proof -
  have stop: "cwhile fuel utp_event_more b (x, y) = cret (x, y)" if "x < 0" for b x y
    using that by (simp add: cwhile.simps utp_event_more_def cbind_def cret_def fun_eq_iff)
  show ?thesis
    using assms
    by (simp add: tb_utp_event_def utp_event_body_def load_utp_def do_sys_def cbind_def cget_def cderef_def cret_def stop)
qed

end
