(* ===== verification/TB_Endpoint.thy ===== *)
theory TB_Endpoint
  imports TB_Utp
begin

text \<open>
  The threads of an endpoint (\<open>src/src/tb_endpoint.h\<close>, \<open>src/src/tb_endpoint.c\<close>): a client makes
  its test data and runs the client of its protocol, a server binds its socket and runs the
  server of its protocol; both then leave. One bound, \<open>fuel\<close>, serves every loop below.
  \<open>others\<close> is what other threads do while this one waits. What is printed is not modelled.
\<close>

text \<open>The \<open>switch\<close> of each thread, on the protocol and then on the type of the endpoint.\<close>

definition run_client ::
  "('w, 'e) uenv_scheme \<Rightarrow> (('w, 'z) utp_state_scheme, unit) prog \<Rightarrow> nat \<Rightarrow> (('w, 'z) utp_state_scheme, unit) prog" where
  "run_client E others fuel =
     cbind (cget lst) (\<lambda>l.
     let one = (l_e_type l = CLIENT) in
     case p_protocol (l_protocol l) of
       uTP \<Rightarrow> cvoid (if one then tb_utp_client E fuel fuel fuel else tb_utp_m_client E others fuel fuel)
     | TCP \<Rightarrow> cvoid (if one then tb_stream_client E fuel else tb_stream_m_client E others fuel fuel)
     | DCCP \<Rightarrow> cvoid (if one then tb_stream_client E fuel else tb_stream_m_client E others fuel fuel)
     | UDP \<Rightarrow> cvoid (if one then tb_udp_client E fuel fuel else tb_udp_m_client E others fuel fuel fuel)
     | UDT \<Rightarrow> cvoid (if one then tb_udt_client E fuel else tb_udt_m_client E others fuel fuel)
     | _ \<Rightarrow> tb_abort E)"

definition run_server ::
  "('w, 'e) uenv_scheme \<Rightarrow> (('w, 'z) utp_state_scheme, unit) prog \<Rightarrow> nat \<Rightarrow> (('w, 'z) utp_state_scheme, unit) prog" where
  "run_server E others fuel =
     cbind (cget lst) (\<lambda>l.
     let one = (l_e_type l = SERVER) in
     case p_protocol (l_protocol l) of
       uTP \<Rightarrow> cvoid (tb_utp_server E fuel fuel fuel)
     | UDP \<Rightarrow> cvoid (if one then tb_udp_server E fuel else tb_udp_m_server E fuel fuel fuel)
     | TCP \<Rightarrow> cvoid (if one then tb_stream_server E fuel fuel else tb_stream_m_server E others fuel fuel)
     | DCCP \<Rightarrow> cvoid (if one then tb_stream_server E fuel fuel else tb_stream_m_server E others fuel fuel)
     | UDT \<Rightarrow> cvoid (if one then tb_udt_server E fuel fuel else tb_udt_m_server E others fuel fuel)
     | _ \<Rightarrow> tb_abort E)"

definition tb_client ::
  "('w, 'e) uenv_scheme \<Rightarrow> (('w, 'z) utp_state_scheme, unit) prog \<Rightarrow> nat \<Rightarrow> (('w, 'z) utp_state_scheme, unit) prog" where
  "tb_client E others fuel =
     cseq [cbind (cget lst) (\<lambda>l. cbind (tb_create_test_file E (l_filename l) (Some (l_file_size l))) (\<lambda>(data, n).
             set_l (\<lambda>l. l\<lparr>l_data := data, l_file_size := the n\<rparr>))),
           tb_get_cpu_info E,
           run_client E others fuel,
           tb_exit E]"

definition tb_server ::
  "('w, 'e) uenv_scheme \<Rightarrow> (('w, 'z) utp_state_scheme, unit) prog \<Rightarrow> nat \<Rightarrow> (('w, 'z) utp_state_scheme, unit) prog" where
  "tb_server E others fuel =
     cseq [tb_get_cpu_info E,
           cbind (cget lst) (\<lambda>l. cwhen (p_protocol (l_protocol l) \<noteq> uTP) (cvoid (tb_bind E))),
           run_server E others fuel,
           tb_exit E]"

end
