(* ===== verification/TB_Endpoint_Proofs.thy ===== *)
theory TB_Endpoint_Proofs
  imports TB_Endpoint TB_Stream_Client
begin

text \<open>
  The thread of an endpoint composed with the client it runs: from making the test data to
  leaving the thread.
\<close>

section \<open>Making the test data\<close>

text \<open>States that calls of the C library lead to.\<close>

definition only_stdio :: "('w, 'e) env_scheme \<Rightarrow> ('w, 'z) machine_scheme \<Rightarrow> ('w, 'z) machine_scheme \<Rightarrow> bool" where
  "only_stdio E s s' \<longleftrightarrow> (\<exists>w tr. s' = s\<lparr>world := w, trace := tr\<rparr> \<and> stdio_run E (world s) (trace s) w tr)"

lemma only_stdio_refl: "only_stdio E s s"
  unfolding only_stdio_def by (intro exI [of _ "world s"] exI [of _ "trace s"]) (simp add: stdio_refl)

lemma only_stdio_step:
  "only_stdio E s s' \<Longrightarrow> sys E (Stdio c) (world s') = (a, w) \<Longrightarrow>
    only_stdio E s (s'\<lparr>world := w, trace := (Stdio c, a_rc a) # trace s'\<rparr>)"
  unfolding only_stdio_def
  by (elim exE conjE, intro exI [of _ w] exI [of _ "(Stdio c, a_rc a) # trace s'"]) (auto intro: stdio_step)

lemma wp_stdio:
  assumes "only_stdio E s s'" and "\<And>a s''. only_stdio E s s'' \<Longrightarrow> Q a s''"
  shows "wp (do_sys E (Stdio c)) Q R s'"
  using only_stdio_step [OF assms(1)] assms(2) by (auto simp: wp_do_sys split: prod.splits)

lemma wp_stdio_fill:
  "only_stdio E s s' \<Longrightarrow> wp (fill_random E n acc) (\<lambda>bs s''. only_stdio E s s'' \<and> length bs = length acc + n) R s'"
proof (induction n arbitrary: acc s')
  case (Suc n)
  show ?case unfolding fill_random.simps wp_cbind
    by (rule wp_stdio [OF Suc.prems], rule wp_mono [OF Suc.IH]) auto
qed (simp add: wp_rules)

lemma wp_stdio_malloc:
  assumes "only_stdio E s s'" and "\<And>d s''. only_stdio E s s'' \<Longrightarrow> (\<forall>bs. d = Some bs \<longrightarrow> length bs = nat n) \<Longrightarrow> Q d s''"
  shows "wp (cmalloc E n) Q R s'"
  unfolding cmalloc_def wp_cbind by (rule wp_stdio [OF assms(1)]) (auto simp: wp_rules intro!: assms(2))

lemma wp_stdio_create:
  assumes "only_stdio E s s'"
  shows "wp (tb_create_random E path n) (\<lambda>d s''. only_stdio E s s'' \<and> (\<forall>bs. d = Some bs \<longrightarrow> length bs = nat n)) R s'"
proof -
  let ?Q = "\<lambda>d s''. only_stdio E s s'' \<and> (\<forall>bs. d = Some bs \<longrightarrow> length bs = nat n)"
  have fill: "wp (fill_random E (nat n) []) (\<lambda>bs. wp (cbind (do_sys E (Stdio (Fwrite f bs)))
      (\<lambda>w. cret (if to_size (a_rc w) = to_size EOF then None else Some bs))) ?Q R) R s1"
    if "only_stdio E s s1" for f s1
    by (rule wp_mono [OF wp_stdio_fill [OF that]]) (auto intro!: wp_stdio simp: wp_cret wp_cbind)
  show ?thesis
    unfolding tb_create_random_def wp_cbind
    by (rule wp_stdio [OF assms])
       (auto simp: wp_cret wp_cbind intro!: wp_stdio_malloc wp_stdio fill split: option.splits)
qed

lemma wp_load_random_stdio:
  assumes "0 \<le> n" and "n < 10 ^ 9"
  shows "wp (tb_load_random_file E n) (\<lambda>d s'. only_stdio E s s' \<and> (\<forall>bs. d = Some bs \<longrightarrow> length bs = nat n)) R s"
proof -
  have name: "\<not> 10 < length (show_int n) + 1" using length_show_int [of n 9] assms by auto
  show ?thesis
    unfolding tb_load_random_file_def wp_cbind Let_def wp_if if_not_P [OF name]
    by (rule wp_stdio [OF only_stdio_refl])
       (auto simp: wp_rules simp del: wp_do_sys wp_cmalloc intro!: wp_stdio_malloc wp_stdio wp_stdio_create)
qed


section \<open>Properties\<close>


end
