(* ===== verification/TB_Demo_Datagram.thy ===== *)
theory TB_Demo_Datagram
  imports TB_Demo TB_Udt_Transfer TB_Udp_Server TB_Utp_Proofs TB_Endpoint_Proofs
begin

text \<open>
  The properties of the UDT, UDP and uTP endpoints, and of the threads of an endpoint, at
  concrete inputs: a world in which libudt sends at most three bytes and receives two bytes
  four times, three datagrams arrive over UDP, and libutp delivers five bytes for a datagram.
\<close>

section \<open>A world\<close>

fun dg_sys :: "syscall \<Rightarrow> nat \<Rightarrow> answer \<times> nat" where
  "dg_sys (Udt (Udt_recv fd n)) w =
     (if w < 4 \<and> 2 \<le> n then (demo_answer\<lparr>a_rc := 2, a_bytes := [7, 8]\<rparr>, Suc w) else (demo_answer\<lparr>a_rc := - 1\<rparr>, w))"
| "dg_sys (Posix (Sendmsg fd bs to)) w = (demo_answer\<lparr>a_rc := int (length bs)\<rparr>, w)"
| "dg_sys (Posix (Recvmsg fd n)) w =
     (if w < 3 then (demo_answer\<lparr>a_rc := 10, a_bytes := int_bytes (int (w mod 2)) @ int_bytes 2\<rparr>, Suc w)
      else (demo_answer\<lparr>a_rc := - 1, a_errno := EWOULDBLOCK\<rparr>, w))"
| "dg_sys (Posix (Recvfrom fd n)) w =
     (if w < 2 \<and> 1 \<le> n then (demo_answer\<lparr>a_rc := 1, a_bytes := [1]\<rparr>, Suc w)
      else (demo_answer\<lparr>a_rc := - 1, a_errno := EWOULDBLOCK\<rparr>, w))"
| "dg_sys (Posix (Epoll_wait e n t)) w =
     (if 1 \<le> n then (demo_answer\<lparr>a_rc := 1, a_events := [EPOLLIN]\<rparr>, w) else (demo_answer, w))"
| "dg_sys (Utp (Utp_is_incoming bs ad q)) w =
     (if w < 10 then (demo_answer\<lparr>a_rc := 1, a_callbacks := [On_read 0 2, On_state 0 UTP_STATE_CONNECT, On_read 0 3]\<rparr>, Suc w)
      else (demo_answer, w))"
| "dg_sys (Udt Udt_lasterror) w = (demo_answer\<lparr>a_rc := ECONNLOST\<rparr>, w)"
| "dg_sys c w = demo_sys c w"

definition dg_utp :: tb_utp_t where
  "dg_utp = \<lparr>u_id = 0, u_socket = 6, u_sock_fd = 3, u_read_bytes = 0, u_write_bytes = 0, u_buffer_size = 0,
     u_rec_buff_size = 4, u_e_id = - 1, u_recv_total = 0, u_sent_total = 1, u_state = UTP_STATE_CONNECT,
     u_addr_len = 128, u_s_data = None, u_s_data_size = 0, u_r_data = None, u_r_data_size = 0, u_lock = False,
     u_so_sndbuf = 0, u_so_rcvbuf = 0, u_time_out = 2000000000, u_measure_time = 0, u_blk = 0\<rparr>"

definition dg_blocks :: tb_utp_blocks where
  "dg_blocks = \<lparr>ub_buffer = None, ub_rec_buffer = Some [0, 0, 0, 0], ub_epoll = Some demo_epoll, ub_ep_data = 0,
     ub_addr_s = demo_addr, ub_last_rec = demo_time\<rparr>"

definition dg_env :: "nat uenv" where
  "dg_env = lenv.extend (demo_env\<lparr>sys := dg_sys\<rparr>) (uenv.fields dg_utp dg_blocks)"

definition dg_state :: "nat utp_state" where
  "dg_state = tb_state.extend demo_state (utp_state.fields [0 \<mapsto> dg_utp] [0 \<mapsto> dg_blocks] 1 False)"

lemma dg_sys [simp]: "sys dg_env = dg_sys" "sigint dg_env = (\<lambda>w. (False, w))"
  by (simp_all add: dg_env_def demo_env_def env.defs lenv.defs uenv.defs)

lemma dg_state_simps [simp]: "world dg_state = 0" "trace dg_state = []" "lst dg_state = demo_listener"
    "utps dg_state = [0 \<mapsto> dg_utp]" "ublks dg_state = [0 \<mapsto> dg_blocks]"
  by (simp_all add: dg_state_def demo_state_def tb_state.defs utp_state.defs)

lemma dg_send_contract: "send_contract dg_env"
  by (auto simp: send_contract_def demo_answer_def Let_def neq_Nil_conv)


section \<open>UDT\<close>

definition udt_state :: "nat tb_state" where
  "udt_state = demo_state\<lparr>lst := demo_listener\<lparr>l_protocol := demo_protocol\<lparr>p_protocol := UDT,
     f_connect := Some Fn_udt_connect, f_close := Some Fn_udt_close\<rparr>\<rparr>\<rparr>"

theorem udt_client_sends_file_witness:
  "\<exists>s'. tb_udt_client dg_env 7 udt_state = Ok 7 s' \<and> sent_on 3 (trace s') = [1, 2, 3, 4, 5, 6, 7] \<and>
     l_status (lst s') = TB_DISCONNECTED"
proof -
  have run: "returns (tb_udt_client dg_env 7 udt_state) = Some 7" by code_simp
  have "udt_ready 3 demo_data udt_state" "l_total_tx_rx (lst udt_state) = 0" "sent_on 3 (trace udt_state) = []" "length demo_data \<le> 7"
    by (simp_all add: udt_ready_def udt_state_def demo_defs in_int_def)
  from udt_client_sends_file [OF dg_send_contract this] run show ?thesis
    by (auto simp: demo_data_def)
qed


lemma dg_udt_peer_ends: "udt_peer_ends dg_env (\<lambda>w. 4 - w)"
proof -
  have "4 - snd (demo_sys c w) \<le> 4 - w" for c w
    by (induction c w rule: demo_sys.induct) auto
  then have "4 - snd (dg_sys c w) \<le> 4 - w" for c w
    by (induction c w rule: dg_sys.induct) auto
  then show ?thesis
    by (auto simp: udt_peer_ends_def demo_answer_def Let_def)
qed

lemma udt_server_run: "returns (tb_udt_server dg_env 1 7 udt_state) = Some 6"
  by code_simp



text \<open>The way from the client to the server: the world is the number of bytes on it.\<close>

fun pipe_sys :: "syscall \<Rightarrow> nat \<Rightarrow> answer \<times> nat" where
  "pipe_sys (Udt (Udt_recv fd n)) w =
     (if w = 0 then (demo_answer\<lparr>a_rc := - 1\<rparr>, 0) else (demo_answer\<lparr>a_rc := int (min w (nat n))\<rparr>, w - nat n))"
| "pipe_sys (Udt Udt_lasterror) w = (demo_answer\<lparr>a_rc := ECONNLOST\<rparr>, w)"
| "pipe_sys c w = (demo_answer, w)"

definition pipe_env :: "nat lenv" where
  "pipe_env = demo_env\<lparr>sys := pipe_sys\<rparr>"

lemma demo_pipe: "udt_pipe pipe_env (\<lambda>w. w)"
  by (auto simp: udt_pipe_def pipe_env_def demo_env_def demo_answer_def UDT_ERROR_def split: syscall.splits libudt.splits if_splits)

lemma udt_client_run:
  "(case tb_udt_client dg_env 7 udt_state of Ok x s \<Rightarrow> Some (x, l_command (lst s), sent_on 3 (trace s)) | Halt h s \<Rightarrow> None)
    = Some (7, TB_CONTINUE, demo_data)"
  by code_simp

theorem udt_file_arrives_witness:
  "\<exists>t'. tb_udt_server pipe_env 1 8 (udt_state\<lparr>world := 7\<rparr>) = Ok 7 t' \<and> l_total_tx_rx (lst t') = 7"
proof -
  obtain s' where run: "tb_udt_client dg_env 7 udt_state = Ok 7 s'" "l_command (lst s') = TB_CONTINUE"
      and sent: "sent_on 3 (trace s') = demo_data"
    using udt_client_run by (auto split: result.splits)
  have ready: "udt_ready 3 demo_data udt_state" "l_total_tx_rx (lst udt_state) = 0" "sent_on 3 (trace udt_state) = []" "length demo_data \<le> 7"
    by (simp_all add: udt_ready_def udt_state_def demo_defs in_int_def)
  show ?thesis
    using udt_file_arrives [OF dg_send_contract ready run(1) _ demo_pipe, of "udt_state\<lparr>world := 7\<rparr>" 8 1] run(2) sent
    by (simp add: udt_flow_def udt_state_def demo_defs in_int_def continue_goes_on)
qed

section \<open>UDP\<close>


lemma udp_session_run: "returns (tb_udp_m_client_conn dg_env 7 8 demo_conn_state) = Some 0"
  by code_simp

theorem udp_session_datagrams_witness:
  "\<exists>s'. tb_udp_m_client_conn dg_env 7 8 demo_conn_state = Ok 0 s' \<and>
     (\<exists>ms\<in>{[], [udp_msg 0 2 demo_data 0]}. datagrams 3 (trace s') = [udp_msg 0 2 demo_data 0] @ ms)"
proof -
  have con: "datagram_contract dg_env" by (auto simp: datagram_contract_def demo_answer_def)
  have "conn_ready 8 3 demo_data demo_conn_state" "conn_total 8 demo_conn_state = 0" "conn_pack 8 demo_conn_state = int 2"
      "in_int (int 2 + 8)" "datagrams 3 (trace demo_conn_state) = []" "length demo_data \<le> 7"
    by (simp_all add: conn_ready_def conn_total_def conn_pack_def demo_conn_state_def demo_conn_def demo_session_def demo_defs in_int_def)
  note run = udp_session_datagrams [OF con this]
  have id: "s_id (the (sess demo_conn_state 8)) = 0" by (simp add: demo_conn_state_def demo_conn_def demo_session_def)
  have n: "msg_count 2 demo_data = 1" by (simp add: msg_count_def demo_data_def)
  from run udp_session_run show ?thesis by (auto simp: id n Let_def)
qed

definition udp_server_state :: "nat tb_state" where
  "udp_server_state = demo_state\<lparr>sess := [4 \<mapsto> demo_session], lst := demo_listener\<lparr>l_curr_session := Some 4\<rparr>\<rparr>"

theorem udp_event_tallies_witness:
  "\<exists>s' more. tb_udp_event dg_env 4 3 EPOLLIN \<lparr>ed_fd = 3\<rparr> udp_server_state = Ok 0 s' \<and> tally s' more = [0 \<mapsto> 20, 1 \<mapsto> 10]"
proof -
  have ids: "bytes_int (take 4 (int_bytes 0 @ int_bytes 2)) = 0" "bytes_int (take 4 (int_bytes 1 @ int_bytes 2)) = 1"
      "bytes_int (drop 4 (int_bytes 0 @ int_bytes 2)) = 2" "bytes_int (drop 4 (int_bytes 1 @ int_bytes 2)) = 2"
    by code_simp+
  have b: "batch dg_env 3 (int_bytes (- 1) @ int_bytes 0) 0 [(0, 10), (1, 10), (0, 10)] False"
  proof -
    have step: "batch dg_env 3 hdr w ((int (w mod 2), 10) # ds) ex"
      if "batch dg_env 3 (int_bytes (int (w mod 2)) @ int_bytes 2) (Suc w) ds ex" and "w < 3" and "length hdr = 8" for hdr w ds ex
    proof -
      have w: "w \<in> {0, 1, 2}" using that(2) by auto
      have len: "length (int_bytes (int (w mod 2)) @ int_bytes 2) = 8" by (simp add: int_bytes_def)
      let ?a = "demo_answer\<lparr>a_rc := 10, a_bytes := int_bytes (int (w mod 2)) @ int_bytes 2\<rparr>"
      have hdr: "overwrite (take (nat (to_int (a_rc ?a))) (a_bytes ?a)) hdr = int_bytes (int (w mod 2)) @ int_bytes 2"
        using len that(3) by (simp add: overwrite_def to_int_id in_int_def)
      have "batch dg_env 3 hdr w ((bytes_int (take 4 (int_bytes (int (w mod 2)) @ int_bytes 2)), to_int (a_rc ?a)) # ds) ex"
        by (rule batch_step [where w' = "Suc w"]) (use that w ids hdr in \<open>auto simp: to_int_id in_int_def\<close>)
      then show ?thesis using w ids by (auto simp: to_int_id in_int_def)
    qed
    have fin: "batch dg_env 3 hdr 3 [] False" for hdr
      by (rule batch_end) (auto simp: demo_answer_def to_int_id in_int_def)
    have len: "length (int_bytes x @ int_bytes y) = 8" for x y by (simp add: int_bytes_def)
    have "batch dg_env 3 (int_bytes (int (1 mod 2)) @ int_bytes 2) 2 [(0, 10)] False"
      using step [of 2 "[]" False "int_bytes (int (1 mod 2)) @ int_bytes 2"] fin len by (simp add: numeral_3_eq_3)
    then have "batch dg_env 3 (int_bytes (int (0 mod 2)) @ int_bytes 2) 1 [(1, 10), (0, 10)] False"
      using step [of 1 "[(0, 10)]" False "int_bytes (int (0 mod 2)) @ int_bytes 2"] len by (simp add: numeral_2_eq_2)
    then show ?thesis
      using step [of 0 "[(1, 10), (0, 10)]" False "int_bytes (- 1) @ int_bytes 0"] len by simp
  qed
  have t: "tallied (length [(0 :: int, 10 :: int), (1, 10), (0, 10)]) 4 [] udp_server_state" "event_world dg_env udp_server_state = 0"
    by (simp_all add: tallied_def list_ok_def session_ids_def heap_ok_def first_stats_def udp_server_state_def demo_defs in_int_def event_world_def)
  have "batch dg_env (ed_fd \<lparr>ed_fd = 3\<rparr>) (int_bytes (- 1) @ int_bytes 0) (event_world dg_env udp_server_state)
      [(0, 10), (1, 10), (0, 10)] False" using b t(2) by simp
  from udp_event_tallies [OF this t(1), of 3 4 EPOLLIN] show ?thesis
    by (auto simp: tally_def count_def fun_upd_twist)
qed


section \<open>uTP\<close>

definition dg_send_env :: "nat uenv" where
  "dg_send_env = dg_env\<lparr>sys := (\<lambda>c w. (demo_answer\<lparr>a_rc := 1, a_callbacks := [On_write 0 2, On_write 0 3]\<rparr>, w))\<rparr>"


lemma dg_utp_contract: "utp_contract dg_env 0 (\<lambda>w. 5 * int (10 - w)) (\<lambda>w. 2 - w)"
proof -
  have "w \<le> snd (demo_sys c w) \<and> a_callbacks (fst (demo_sys c w)) = []" for c w
    by (induction c w rule: demo_sys.induct) (auto simp: demo_answer_def)
  then have demo: "w \<le> w' \<and> a_callbacks a = []" if "demo_sys c w = (a, w')" for c w a w' using that by (metis fst_conv snd_conv)
  have "0 \<le> 5 * int (10 - w') \<and> delivered (a_callbacks a) + 5 * int (10 - w') \<le> 5 * int (10 - w) \<and> 2 - w' \<le> 2 - w \<and>
      list_all (server_callback 0) (a_callbacks a)" if "dg_sys c w = (a, w')" for c w a w'
    using that by (induction c w rule: dg_sys.induct) (auto simp: demo_answer_def split: if_splits dest!: demo)
  then show ?thesis
    unfolding utp_contract_def dg_sys by (auto simp: demo_answer_def split: if_splits)
qed

lemma utp_turn_run: "returns (tb_utp_recv dg_env 2 0 dg_state) = Some 5"
  by code_simp


theorem utp_event_error_ends_witness:
  "\<exists>s'. tb_utp_event dg_env 9 0 EPOLLIN \<lparr>ed_fd = 3\<rparr> (dg_state\<lparr>world := 5\<rparr>) = Ok 0 s'"
  using utp_event_error_ends [of "dg_state\<lparr>world := 5\<rparr>" 0 dg_utp dg_env "demo_answer\<lparr>a_rc := - 1, a_errno := EWOULDBLOCK\<rparr>" 5
      9 EPOLLIN "\<lparr>ed_fd = 3\<rparr>"]
  by (simp add: to_int_id in_int_def)

section \<open>The thread of an endpoint\<close>

lemma thread_data: "returns (tb_load_random_file dg_env 7 dg_state) = Some (Some (replicate 7 0))"
  by code_simp


end
