(* ===== verification/TB_Udp_Single.thy ===== *)
theory TB_Udp_Single
  imports TB_Udp TB_Stream_Client
begin

text \<open>
  Correctness of the UDP client of one connection: it sends its file in order as datagrams,
  waiting for room in the queue of its socket, and then repeats the end of the file until the
  server answers.
\<close>

section \<open>What the client relies on\<close>

text \<open>
  \<open>b\<close> is the packet size, \<open>qsize\<close> that of the send buffer. A datagram is taken whole or not at all. The
  queue of the socket has room for a packet, or is drained: \<open>m\<close>, at most \<open>k\<close>, bounds how often the
  client has to look again. \<open>n\<close> bounds how many polls go by before the server's answer is there.
\<close>

definition udp_kernel :: "('w, 'e) env_scheme \<Rightarrow> int \<Rightarrow> int \<Rightarrow> ('w \<Rightarrow> nat) \<Rightarrow> nat \<Rightarrow> ('w \<Rightarrow> nat) \<Rightarrow> bool" where
  "udp_kernel E b qsize m k n \<longleftrightarrow>
     (\<forall>c w a w'. sys E c w = (a, w') \<longrightarrow> n w' \<le> n w \<and>
        (case c of Posix (Send fd bs) \<Rightarrow> a_rc a = - 1 \<or> a_rc a = int (length bs)
         | Posix (Ioctl_outq fd) \<Rightarrow> 0 \<le> a_val a \<and> a_val a \<le> qsize \<and> (a_val a + b < qsize \<or> m w' < m w)
         | Posix (Getsockopt fd SO_SNDBUF) \<Rightarrow> a_val a = qsize
         | Posix (Epoll_wait e j t) \<Rightarrow> 0 < j \<longrightarrow> length (a_events a) \<le> nat j \<and>
             (a_rc a = int (length (a_events a)) \<or> a_rc a = - 1 \<and> a_events a = []) \<and>
             (a_events a \<noteq> [] \<and> readable (hd (a_events a)) \<or> n w' < n w)
         | _ \<Rightarrow> True)) \<and>
     (\<forall>w. m w \<le> k) \<and> (\<forall>w r w'. sigint E w = (r, w') \<longrightarrow> n w' \<le> n w)"

lemma udp_kernelD:
  assumes "udp_kernel E b qsize m k n"
  shows "sys E c w = (a, w') \<Longrightarrow> n w' \<le> n w"
    and "sys E (Posix (Send fd bs)) w = (a, w') \<Longrightarrow> a_rc a = - 1 \<or> a_rc a = int (length bs)"
    and "sys E (Posix (Ioctl_outq fd)) w = (a, w') \<Longrightarrow> 0 \<le> a_val a \<and> a_val a \<le> qsize \<and> (a_val a + b < qsize \<or> m w' < m w)"
    and "sys E (Posix (Getsockopt fd SO_SNDBUF)) w = (a, w') \<Longrightarrow> a_val a = qsize"
    and "sys E (Posix (Epoll_wait e j t)) w = (a, w') \<Longrightarrow> 0 < j \<Longrightarrow> length (a_events a) \<le> nat j \<and>
      (a_rc a = int (length (a_events a)) \<or> a_rc a = - 1 \<and> a_events a = []) \<and>
      (a_events a \<noteq> [] \<and> readable (hd (a_events a)) \<or> n w' < n w)"
    and "m w \<le> k" and "sigint E w = (r, w') \<Longrightarrow> n w' \<le> n w"
proof -
  note all = conjunct1 [OF assms [unfolded udp_kernel_def], rule_format]
  show "sys E c w = (a, w') \<Longrightarrow> n w' \<le> n w" using all [of c w a w'] by blast
  show "sys E (Posix (Send fd bs)) w = (a, w') \<Longrightarrow> a_rc a = - 1 \<or> a_rc a = int (length bs)"
    using all [of "Posix (Send fd bs)" w a w'] by simp
  show "sys E (Posix (Ioctl_outq fd)) w = (a, w') \<Longrightarrow> 0 \<le> a_val a \<and> a_val a \<le> qsize \<and> (a_val a + b < qsize \<or> m w' < m w)"
    using all [of "Posix (Ioctl_outq fd)" w a w'] by simp
  show "sys E (Posix (Getsockopt fd SO_SNDBUF)) w = (a, w') \<Longrightarrow> a_val a = qsize"
    using all [of "Posix (Getsockopt fd SO_SNDBUF)" w a w'] by simp
  show "sys E (Posix (Epoll_wait e j t)) w = (a, w') \<Longrightarrow> 0 < j \<Longrightarrow> length (a_events a) \<le> nat j \<and>
      (a_rc a = int (length (a_events a)) \<or> a_rc a = - 1 \<and> a_events a = []) \<and>
      (a_events a \<noteq> [] \<and> readable (hd (a_events a)) \<or> n w' < n w)"
    using all [of "Posix (Epoll_wait e j t)" w a w'] by simp
  show "m w \<le> k" "sigint E w = (r, w') \<Longrightarrow> n w' \<le> n w"
    using assms unfolding udp_kernel_def by blast+
qed

lemma stdio_run_polls: "stdio_run E w tr w' tr' \<Longrightarrow> udp_kernel E b qsize m k n \<Longrightarrow> n w' \<le> n w"
  by (induction rule: stdio_run.induct) (auto dest: udp_kernelD(1) order_trans)

lemma wp_log_l_info:
  assumes "\<And>w tr. stdio_run E (world s) (trace s) w tr \<Longrightarrow> Q () (s\<lparr>world := w, trace := tr\<rparr>)"
  shows "wp (log_l_info E info) Q R s"
proof -
  have "Q () s" using assms [OF stdio_refl] by simp
  then show ?thesis
    by (auto simp: log_l_info_def tb_log_info_def wp_rules tb_write_log_def Let_def split: option.splits prod.splits
        intro!: assms stdio_more intro: stdio_refl)
qed

lemma wp_log_l_errno:
  assumes "\<And>w tr. stdio_run E (world s) (trace s) w tr \<Longrightarrow> Q () (s\<lparr>world := w, trace := tr\<rparr>)"
  shows "wp (log_l_errno E info e) Q R s"
proof -
  have "Q () (s\<lparr>world := w, trace := tr\<rparr>)" if "stdio_run E (world s) (trace s) w tr" for w tr
    using assms that .
  then show ?thesis
    by (auto simp: log_l_errno_def tb_log_error_no_def tb_log_info_def wp_rules tb_write_log_def Let_def split: option.splits prod.splits
        intro!: assms stdio_more intro: stdio_refl)
qed


section \<open>Sending\<close>

text \<open>The datagrams that went out on a socket, the oldest first, and what it is to cut data into datagrams.\<close>

fun grams_on :: "int \<Rightarrow> (syscall \<times> int) list \<Rightarrow> byte list list" where
  "grams_on fd [] = []"
| "grams_on fd ((c, r) # tr) = grams_on fd tr @
     (case c of Posix (Send f bs) \<Rightarrow> if f = fd \<and> r \<noteq> - 1 then [bs] else [] | _ \<Rightarrow> [])"

definition cuts :: "int \<Rightarrow> byte list \<Rightarrow> byte list list \<Rightarrow> bool" where
  "cuts b data gs \<longleftrightarrow> concat gs = data \<and> (\<forall>g\<in>set gs. g \<noteq> [] \<and> int (length g) \<le> b)"

definition cuts_file :: "int \<Rightarrow> byte list \<Rightarrow> byte list list \<Rightarrow> bool" where
  "cuts_file b data gs \<longleftrightarrow> (\<exists>ds j. gs = ds @ replicate j [] \<and> cuts b data ds)"

lemma cuts_next: "cuts b data gs \<Longrightarrow> bs \<noteq> [] \<Longrightarrow> int (length bs) \<le> b \<Longrightarrow> cuts b (data @ bs) (gs @ [bs])"
  by (auto simp: cuts_def)

lemma cuts_file_end: "cuts_file b data gs \<Longrightarrow> cuts_file b data (gs @ [[]])"
  unfolding cuts_file_def by (metis append.assoc replicate_append_same replicate_Suc)

lemma cuts_fileI: "cuts b data gs \<Longrightarrow> cuts_file b data gs"
  unfolding cuts_file_def by (metis append_Nil2 replicate_0)

lemma stdio_run_grams: "stdio_run E w tr w' tr' \<Longrightarrow> \<forall>fd. grams_on fd tr' = grams_on fd tr"
  by (induction rule: stdio_run.induct) auto

definition udp_ready :: "int \<Rightarrow> byte list \<Rightarrow> ('w, 'z) tb_state_scheme \<Rightarrow> bool" where
  "udp_ready fd data s \<longleftrightarrow> f_close (l_protocol (lst s)) = Some Fn_close \<and> f_connect (l_protocol (lst s)) = Some Fn_connect \<and>
     l_f_abort (lst s) \<noteq> None \<and> l_data (lst s) = Some data \<and> l_file_size (lst s) = int (length data) \<and>
     in_int (int (length data)) \<and> 0 < l_bufsize (lst s) \<and> in_int (l_bufsize (lst s)) \<and>
     l_sock_d (lst s) = fd \<and> l_addr_info (lst s) \<noteq> None"

text \<open>The epoll instance that waits for the answer.\<close>

definition acks :: "tb_epoll_t \<Rightarrow> bool" where
  "acks ep \<longleftrightarrow> ep_f_event ep = Some Fn_tb_udp_ack \<and> ep_max_events ep = 5 \<and> length (ep_events ep) = 5"

definition udp_acked :: "('w, 'z) tb_state_scheme \<Rightarrow> bool" where
  "udp_acked s \<longleftrightarrow> (\<exists>ep. l_epoll (lst s) = Some ep \<and> acks ep)"

definition udp_inv :: "('w \<Rightarrow> nat) \<Rightarrow> nat \<Rightarrow> int \<Rightarrow> byte list \<Rightarrow> int \<Rightarrow> ('w, 'z) tb_state_scheme \<Rightarrow> bool" where
  "udp_inv n polls fd data sz s \<longleftrightarrow> udp_ready fd data s \<and> udp_acked s \<and> n (world s) \<le> polls \<and>
     0 \<le> l_total_tx_rx (lst s) \<and> l_total_tx_rx (lst s) \<le> int (length data) \<and>
     sent_on fd (trace s) = take (nat (l_total_tx_rx (lst s))) data \<and>
     cuts (l_bufsize (lst s)) (take (nat (l_total_tx_rx (lst s))) data) (grams_on fd (trace s)) \<and>
     (sz = l_bufsize (lst s) \<or> int (length data) - l_total_tx_rx (lst s) < l_bufsize (lst s))"

text \<open>What is left to send, and how often the client may still look for room.\<close>

definition udp_left :: "('w \<Rightarrow> nat) \<Rightarrow> nat \<Rightarrow> ('w, 'z) tb_state_scheme \<Rightarrow> nat" where
  "udp_left m k s = nat (l_file_size (lst s) - l_total_tx_rx (lst s)) * (k + 1) + m (world s)"

lemma udp_left_sends:
  assumes "l_total_tx_rx (lst s) < l_file_size (lst s)" and "l_file_size (lst s') = l_file_size (lst s)"
    and "l_total_tx_rx (lst s') = l_total_tx_rx (lst s) + r" and "1 \<le> r" and "m (world s') \<le> k"
  shows "udp_left m k s' < udp_left m k s"
proof -
  let ?rm = "nat (l_file_size (lst s) - l_total_tx_rx (lst s))"
  have "nat (l_file_size (lst s') - l_total_tx_rx (lst s')) \<le> ?rm - 1" "0 < ?rm" using assms by auto
  then have "nat (l_file_size (lst s') - l_total_tx_rx (lst s')) * (k + 1) \<le> (?rm - 1) * (k + 1)"
    by (intro mult_right_mono) auto
  moreover have "(?rm - 1) * (k + 1) + k < ?rm * (k + 1)" using \<open>0 < ?rm\<close> by (cases ?rm) auto
  ultimately show ?thesis unfolding udp_left_def using assms(5) by linarith
qed

lemma udp_client_body_sends:
  fixes s :: "('w, 'z) tb_state_scheme" and E :: "('w, 'e) env_scheme"
  assumes kernel: "udp_kernel E (l_bufsize (lst s)) qsize m k n" and int: "in_int qsize"
    and inv: "udp_inv n polls fd data sz s" and more: "l_total_tx_rx (lst s) < int (length data)"
  shows "wp (udp_client_body E qsize sz) (\<lambda>sz' s'. udp_inv n polls fd data sz' s' \<and> l_bufsize (lst s') = l_bufsize (lst s) \<and>
      udp_left m k s' < udp_left m k s) (client_stops fd data) s"
proof -
  let ?l = "lst s" and ?t = "l_total_tx_rx (lst s)"
  let ?rm = "int (length data) - ?t"
  define z where "z = (if ?rm < l_bufsize ?l then ?rm else sz)"
  define bs where "bs = take (nat z) (drop (nat ?t) data)"
  have rdy: "f_close (l_protocol ?l) \<noteq> None" "l_data ?l = Some data"
      "l_file_size ?l = int (length data)" "in_int (int (length data))" "0 < l_bufsize ?l"
      "in_int (l_bufsize ?l)" "l_sock_d ?l = fd" "0 \<le> ?t"
      "sent_on fd (trace s) = take (nat ?t) data" "sz = l_bufsize ?l \<or> ?rm < l_bufsize ?l" "n (world s) \<le> polls"
      "cuts (l_bufsize ?l) (take (nat ?t) data) (grams_on fd (trace s))"
    using inv by (auto simp: udp_inv_def udp_ready_def)
  note piece = next_piece [OF rdy(8) more rdy(4-6,10) take_all [OF order_refl, symmetric] z_def bs_def]
  have small: "z \<le> l_bufsize ?l" using rdy(10) by (auto simp: z_def)
  let ?Q = "\<lambda>sz' s'. udp_inv n polls fd data sz' s' \<and> l_bufsize (lst s') = l_bufsize ?l \<and> udp_left m k s' < udp_left m k s"
  let ?R = "client_stops fd data"
  obtain q w1 where q: "sys E (Posix (Ioctl_outq fd)) (world s) = (q, w1)" by force
  let ?s1 = "s\<lparr>world := w1, trace := (Posix (Ioctl_outq fd), a_rc q) # trace s\<rparr>"
  note queue = udp_kernelD(3) [OF kernel q]
  have w1: "n w1 \<le> polls" using udp_kernelD(1) [OF kernel q] rdy(11) by simp
  have abort: "wp (cseq [log_l_errno E info e, tb_abort E]) Q' ?R t" if "f_close (l_protocol (lst t)) \<noteq> None"
      "\<exists>j. sent_on fd (trace t) = take j data" for info e Q' and t :: "('w, 'z) tb_state_scheme"
    unfolding wp_cseq_Cons
    by (rule wp_log_l_errno, rule wp_tb_abort) (use that in \<open>auto simp: client_stops_def dest!: stdio_run_sent\<close>)
  obtain a w2 where a: "sys E (Posix (Send fd bs)) w1 = (a, w2)" by force
  let ?s2 = "?s1\<lparr>world := w2, trace := (Posix (Send fd bs), a_rc a) # trace ?s1\<rparr>"
  have sends: "wp (cdo [if to_int (a_rc a) < 0 then cseq [log_l_errno E ''Error: send: '' (a_errno a), tb_abort E]
      else set_l (\<lambda>l. l\<lparr>l_total_tx_rx := l_total_tx_rx l + to_int (a_rc a)\<rparr>)] (cret z)) ?Q ?R ?s2"
  proof (cases "a_rc a = - 1")
    case True
    then have "to_int (a_rc a) < 0" by (simp add: to_int_id in_int_def)
    moreover have "wp (cseq [log_l_errno E info e, tb_abort E]) Q' ?R ?s2" for info e Q'
      using rdy(1,9) True by (intro abort) auto
    ultimately show ?thesis by (subst wp_cdo, subst wp_cseq_Cons, simp only: if_True)
  next
    case False
    then have r: "a_rc a = int (length bs)" using udp_kernelD(2) [OF kernel a] by blast
    then have to: "to_int (a_rc a) = a_rc a" "a_rc a = z" "1 \<le> z" using piece(4,6,9) by (auto intro: to_int_id)
    have "udp_left m k (?s2\<lparr>lst := ?l\<lparr>l_total_tx_rx := ?t + z\<rparr>\<rparr>) < udp_left m k s"
      using rdy(3) more to(3) udp_kernelD(6) [OF kernel] by (intro udp_left_sends [where r = z]) auto
    moreover have "n w2 \<le> polls" using udp_kernelD(1) [OF kernel a] w1 by simp
    moreover have "cuts (l_bufsize ?l) (take (nat (?t + z)) data) (grams_on fd (trace s) @ [bs])"
      using cuts_next [OF rdy(12), of bs] piece(9,10) piece(12) [of z] to(3) small by simp
    ultimately show ?thesis
      using inv r to piece(4,5,8,9) piece(12) [of z] rdy(7-9) False
      by (auto simp: wp_rules udp_inv_def udp_ready_def udp_acked_def)
  qed
  have waits: "?Q z ?s1" if "\<not> z < qsize - a_val q"
  proof -
    have "m w1 < m (world s)" using queue that small by auto
    then show ?thesis using inv piece(8) w1 rdy(3) by (simp add: udp_inv_def udp_ready_def udp_acked_def udp_left_def)
  qed
  have room: "in_int (qsize - a_val q)" using queue int by (auto simp: in_int_def)
  have bad: "\<exists>j. sent_on fd (trace ?s1) = take j data" using rdy(9) by auto
  have read: "cread (Some (drop (nat ?t) data)) z = (cret bs :: (('w, 'z) tb_state_scheme, byte list) prog)"
    by (rule piece)
  have rest: "wp (cbind (cint (qsize - a_val q)) (\<lambda>room. if z < room
      then cbind (ptr_add (Some data) ?t) (\<lambda>data. cbind (cread data (to_size z)) (\<lambda>bs.
        cbind (do_sys E (Posix (Send fd bs))) (\<lambda>a.
        cdo [if to_int (a_rc a) < 0 then cseq [log_l_errno E ''Error: send: '' (a_errno a), tb_abort E]
             else set_l (\<lambda>l. l\<lparr>l_total_tx_rx := l_total_tx_rx l + to_int (a_rc a)\<rparr>)] (cret z))))
      else cret z)) ?Q ?R ?s1"
    using room rdy(8) more read a sends waits piece(7)
    by (cases "z < qsize - a_val q") (simp_all add: wp_cbind wp_cint wp_cret wp_do_sys ptr_add_def)
  have fails: "wp (cseq [log_l_errno E info e, tb_abort E]) Q' ?R ?s1" for info e Q'
    using rdy(1) bad by (intro abort) auto
  show ?thesis
    unfolding udp_client_body_def
    using q rdy(1-3,7,8) more to_int_id [OF piece(1)] fails rest
    by (cases "a_rc q = - 1")
      (simp_all add: wp_cbind [of "cget lst"] wp_cbind [of "do_sys E (Posix (Ioctl_outq fd))"] wp_cget wp_do_sys wp_cdo
        wp_cseq_Cons [of "cwhen _ _"] wp_cseq_Nil wp_cwhen Let_def z_def [symmetric] split del: if_split cong del: if_weak_cong)
qed

text \<open>The whole file has been sent.\<close>

definition udp_all :: "('w \<Rightarrow> nat) \<Rightarrow> nat \<Rightarrow> int \<Rightarrow> byte list \<Rightarrow> int \<Rightarrow> ('w, 'z) tb_state_scheme \<Rightarrow> bool" where
  "udp_all n polls fd data b s \<longleftrightarrow> udp_ready fd data s \<and> udp_acked s \<and> n (world s) \<le> polls \<and>
     l_total_tx_rx (lst s) = int (length data) \<and> sent_on fd (trace s) = data \<and>
     l_bufsize (lst s) = b \<and> cuts_file b data (grams_on fd (trace s))"

lemma udp_inv_all: "udp_inv n polls fd data sz s \<Longrightarrow> l_bufsize (lst s) = b \<Longrightarrow> \<not> l_total_tx_rx (lst s) < l_file_size (lst s) \<Longrightarrow> udp_all n polls fd data b s"
  by (auto simp: udp_inv_def udp_ready_def udp_all_def cuts_fileI)

lemma udp_sends_all:
  fixes s :: "('w, 'z) tb_state_scheme" and E :: "('w, 'e) env_scheme"
  assumes kernel: "udp_kernel E b qsize m k n" and int: "in_int qsize" and inv: "udp_inv n polls fd data sz s"
    and b: "l_bufsize (lst s) = b" and fuel: "udp_left m k s \<le> fuel"
  shows "wp (cwhile fuel (\<lambda>_. cget (\<lambda>s. l_total_tx_rx (lst s) < l_file_size (lst s))) (udp_client_body E qsize) sz)
    (\<lambda>_. udp_all n polls fd data b) (client_stops fd data) s"
proof (rule wp_cwhile [where I = "\<lambda>sz s. udp_inv n polls fd data sz s \<and> l_bufsize (lst s) = b" and
      \<mu> = "\<lambda>_ s :: ('w, 'z) tb_state_scheme. udp_left m k s"])
  fix sz and s :: "('w, 'z) tb_state_scheme" assume I: "udp_inv n polls fd data sz s \<and> l_bufsize (lst s) = b"
  have size: "l_file_size (lst s) = int (length data)" using I by (simp add: udp_inv_def udp_ready_def)
  have body: "wp (udp_client_body E qsize sz) (\<lambda>sz' s'. (udp_inv n polls fd data sz' s' \<and> l_bufsize (lst s') = b) \<and>
      udp_left m k s' < udp_left m k s) (client_stops fd data) s" if "l_total_tx_rx (lst s) < l_file_size (lst s)"
    using udp_client_body_sends [of E s qsize m k n polls fd data sz] kernel int I that size
    by (auto elim!: wp_mono)
  have "0 < udp_left m k s" if "l_total_tx_rx (lst s) < l_file_size (lst s)"
    using that by (simp add: udp_left_def)
  then show "wp (cget (\<lambda>s. l_total_tx_rx (lst s) < l_file_size (lst s)))
      (\<lambda>go s'. if go then (udp_inv n polls fd data sz s' \<and> l_bufsize (lst s') = b) \<and> udp_left m k s' \<le> udp_left m k s \<and>
          0 < udp_left m k s' \<and> wp (udp_client_body E qsize sz) (\<lambda>sz'' s''. (udp_inv n polls fd data sz'' s'' \<and>
            l_bufsize (lst s'') = b) \<and> udp_left m k s'' < udp_left m k s') (client_stops fd data) s'
        else udp_all n polls fd data b s') (client_stops fd data) s"
    using I body udp_inv_all [of n polls fd data sz s b] by (auto simp: wp_cget)
qed (use inv b fuel in auto)


section \<open>Waiting for the answer\<close>

lemma wp_tb_udp_ack:
  assumes "\<And>w tr. stdio_run E (world s) (trace s) w tr \<Longrightarrow>
    Q 0 (s\<lparr>world := w, trace := tr, lst := (lst s)\<lparr>l_command := TB_EXIT\<rparr>\<rparr>)"
  shows "wp (tb_udp_ack E e d) Q R s"
  unfolding tb_udp_ack_def wp_cdo wp_cseq_Cons
  by (rule wp_log_l_info) (simp add: wp_rules assms)

lemma run_acks:
  fixes s :: "('w, 'z) tb_state_scheme" and E :: "('w, 'e) env_scheme"
  assumes kernel: "udp_kernel E b qsize m k n" and all: "udp_all n polls fd data b s"
  shows "wp (run_callbacks (\<lambda>e. tb_udp_ack E e d) es) (\<lambda>_ s'. udp_all n polls fd data b s' \<and> n (world s') \<le> n (world s) \<and>
    (es \<noteq> [] \<or> l_command (lst s) = TB_EXIT \<longrightarrow> l_command (lst s') = TB_EXIT)) R s"
  using all
proof (induction es arbitrary: s)
  case Nil
  then show ?case by (simp add: wp_rules)
next
  case (Cons e es)
  have next_ack: "wp (run_callbacks (\<lambda>e. tb_udp_ack E e d) es) (\<lambda>_ s'. udp_all n polls fd data b s' \<and> n (world s') \<le> n (world s) \<and>
      l_command (lst s') = TB_EXIT) R (s\<lparr>world := w, trace := tr, lst := (lst s)\<lparr>l_command := TB_EXIT\<rparr>\<rparr>)"
    if "stdio_run E (world s) (trace s) w tr" for w tr
  proof -
    have "n w \<le> n (world s)" "sent_on fd tr = sent_on fd (trace s)" "grams_on fd tr = grams_on fd (trace s)"
      using stdio_run_polls [OF that kernel] stdio_run_sent [OF that] stdio_run_grams [OF that] by auto
    then show ?thesis
      using Cons.prems by (intro wp_mono [OF Cons.IH]) (auto simp: udp_all_def udp_ready_def udp_acked_def)
  qed
  show ?case
    unfolding run_callbacks.simps wp_cdo wp_cseq_Cons wp_cvoid wp_cseq_Nil
    by (rule wp_tb_udp_ack) (auto elim!: wp_mono [OF next_ack])
qed

lemma udp_polls:
  fixes s :: "('w, 'z) tb_state_scheme" and E :: "('w, 'e) env_scheme"
  assumes kernel: "udp_kernel E b qsize m k n" and all: "udp_all n polls fd data b s"
  shows "wp (udp_poll_ack E) (\<lambda>_ s'. udp_all n polls fd data b s' \<and> n (world s') \<le> n (world s) \<and>
    (l_command (lst s') = TB_EXIT \<or> n (world s') < n (world s))) R s"
proof -
  obtain ep where ep: "l_epoll (lst s) = Some ep" "acks ep" using all by (auto simp: udp_all_def udp_acked_def)
  let ?c = "Posix (Epoll_wait (ep_e_id ep) 5 (ep_w_time ep))"
  obtain a w where a: "sys E ?c (world s) = (a, w)" by force
  note wait = udp_kernelD(5) [OF kernel a zero_less_numeral]
  let ?ep = "ep\<lparr>ep_events := overwrite (a_events a) (ep_events ep)\<rparr>"
  let ?s = "s\<lparr>world := w, trace := (?c, a_rc a) # trace s\<rparr>"
  have len: "nat (a_rc a) = length (a_events a)" "length (a_events a) \<le> 5" "length (ep_events ep) = 5"
    using wait ep(2) by (auto simp: acks_def)
  have evs: "take (nat (a_rc a)) (overwrite (a_events a) (ep_events ep)) = a_events a"
    using len by (simp add: overwrite_def)
  have w: "n w \<le> n (world s)" using udp_kernelD(1) [OF kernel a] .
  have "udp_all n polls fd data b ?s" using all w by (auto simp: udp_all_def udp_ready_def udp_acked_def)
  note acked = run_acks [OF kernel this, where es = "takeWhile readable (a_events a)" and d = "ep_grp_data ep"]
  have ack: "takeWhile readable (a_events a) \<noteq> [] \<or> n w < n (world s)" using wait by (cases "a_events a") auto
  show ?thesis
    using ep a len evs
    apply (simp add: udp_poll_ack_def tb_poll_for_events_def wp_cbind wp_cget wp_cderef wp_do_sys Let_def acks_def
        tb_poll_loop_eq wp_cdo wp_cseq_Cons wp_cseq_Nil wp_cret wp_set_l)
    apply (rule wp_mono [OF acked])
    using w ack ep(2) by (auto simp: wp_rules udp_all_def udp_ready_def udp_acked_def acks_def)
qed

lemma udp_reads_command:
  fixes s :: "('w, 'z) tb_state_scheme" and E :: "('w, 'e) env_scheme"
  assumes kernel: "udp_kernel E b qsize m k n" and all: "udp_all n polls fd data b s"
  shows "wp (read_command E) (\<lambda>c s'. udp_all n polls fd data b s' \<and> n (world s') \<le> n (world s) \<and> c = l_command (lst s') \<and>
    (l_command (lst s) = TB_EXIT \<longrightarrow> c = TB_EXIT)) R s"
proof -
  obtain r w where r: "sigint E (world s) = (r, w)" by force
  obtain a w' where a: "sys E (Posix (Shutdown (l_sock_d (lst s)))) w = (a, w')" by force
  have "n w \<le> n (world s)" "n w' \<le> n (world s)" using udp_kernelD(7) [OF kernel r] udp_kernelD(1) [OF kernel a] by auto
  then show ?thesis
    using r a all by (auto simp: read_command_def sig_action_def wp_rules udp_all_def udp_ready_def udp_acked_def)
qed

lemma udp_eofs:
  fixes s :: "('w, 'z) tb_state_scheme" and E :: "('w, 'e) env_scheme"
  assumes kernel: "udp_kernel E b qsize m k n" and all: "udp_all n polls fd data b s" and eofs: "polls < eofs"
  shows "wp (cwhile eofs (udp_eof_more E) (udp_eof_turn E) False)
    (\<lambda>_. udp_all n polls fd data b) R s"
proof -
  define mu where "mu failed s = (if failed \<or> l_command (lst s) = TB_EXIT then 0 else n (world s) + 1)"
    for failed and s :: "('w, 'z) tb_state_scheme"
  let ?body = "udp_eof_body E (cbind (cget lst) (\<lambda>l. do_sys E (Posix (Send (l_sock_d l) []))))"
  have body: "wp ?body (\<lambda>failed' s'. udp_all n polls fd data b s' \<and> mu failed' s' < n (world s) + 1) R s"
    if all: "udp_all n polls fd data b s" for s :: "('w, 'z) tb_state_scheme"
  proof -
    let ?c = "Posix (Send (l_sock_d (lst s)) [])"
    obtain a w where a: "sys E ?c (world s) = (a, w)" by force
    let ?s = "s\<lparr>world := w, trace := (?c, a_rc a) # trace s\<rparr>"
    have w: "n w \<le> n (world s)" using udp_kernelD(1) [OF kernel a] .
    have "a_rc a = - 1 \<or> a_rc a = 0" using udp_kernelD(2) [OF kernel a] by simp
    then have ok: "udp_all n polls fd data b ?s"
      using all w by (auto simp: udp_all_def udp_ready_def udp_acked_def cuts_file_end)
    have poll: "wp (udp_poll_ack E) (\<lambda>_ s'. udp_all n polls fd data b s' \<and> mu False s' < n (world s) + 1) R ?s"
      by (rule wp_mono [OF udp_polls [OF kernel ok]]) (use w in \<open>auto simp: mu_def\<close>)
    have failed: "wp (log_l_errno E info e) (\<lambda>_ s'. udp_all n polls fd data b s') R ?s" for info e
    proof (rule wp_log_l_errno)
      fix w' tr assume "stdio_run E (world ?s) (trace ?s) w' tr"
      then show "udp_all n polls fd data b (?s\<lparr>world := w', trace := tr\<rparr>)"
        using stdio_run_polls [OF _ kernel] stdio_run_sent stdio_run_grams ok by (fastforce simp: udp_all_def udp_ready_def udp_acked_def)
    qed
    have failed': "wp (log_l_errno E info e) (\<lambda>_ s'. udp_all n polls fd data b s' \<and> mu True s' < n (world s) + 1) R ?s" for info e
      by (rule wp_mono [OF failed]) (auto simp: mu_def)
    have "wp (cdo [udp_poll_ack E] (cret False)) (\<lambda>failed' s'. udp_all n polls fd data b s' \<and> mu failed' s' < n (world s) + 1) R ?s"
      unfolding wp_cdo wp_cseq_Cons by (rule wp_mono [OF poll]) (simp_all add: wp_cseq_Nil wp_cret)
    moreover have "wp (cdo [log_l_errno E info e] (cret True)) (\<lambda>failed' s'. udp_all n polls fd data b s' \<and> mu failed' s' < n (world s) + 1) R ?s"
      for info e unfolding wp_cdo wp_cseq_Cons by (rule wp_mono [OF failed']) (simp_all add: wp_cseq_Nil wp_cret)
    ultimately show ?thesis
      unfolding udp_eof_body_def wp_cbind wp_cget wp_do_sys a prod.case wp_if by (simp only: if_cancel)
  qed
  have more: "wp (udp_eof_more E failed)
      (\<lambda>go s'. if go then udp_all n polls fd data b s' \<and> mu failed s' \<le> mu failed s \<and> 0 < mu failed s' \<and>
          wp ?body (\<lambda>failed'' s''. udp_all n polls fd data b s'' \<and> mu failed'' s'' < mu failed s') R s'
        else udp_all n polls fd data b s') R s"
    if all: "udp_all n polls fd data b s" for failed and s :: "('w, 'z) tb_state_scheme"
  proof (cases failed)
    case True
    then show ?thesis using all by (simp add: udp_eof_more_def wp_cret)
  next
    case False
    have cond: "wp (cret (c \<noteq> TB_EXIT)) (\<lambda>go s'. if go then udp_all n polls fd data b s' \<and> mu failed s' \<le> mu failed s \<and> 0 < mu failed s' \<and>
          wp ?body (\<lambda>failed'' s''. udp_all n polls fd data b s'' \<and> mu failed'' s'' < mu failed s') R s'
        else udp_all n polls fd data b s') R s'"
      if c: "udp_all n polls fd data b s' \<and> n (world s') \<le> n (world s) \<and> c = l_command (lst s') \<and>
        (l_command (lst s) = TB_EXIT \<longrightarrow> c = TB_EXIT)" for c and s' :: "('w, 'z) tb_state_scheme"
    proof (cases "c = TB_EXIT")
      case False
      then have "mu failed s' = n (world s') + 1" "mu failed s = n (world s) + 1" using c \<open>\<not> failed\<close> by (auto simp: mu_def)
      then show ?thesis using False c body by (simp add: wp_cret)
    qed (use c in \<open>simp add: wp_cret\<close>)
    show ?thesis
      unfolding udp_eof_more_def if_not_P [OF False] wp_cbind
      by (rule wp_mono [OF udp_reads_command [OF kernel all]], erule cond, assumption)
  qed
  have turn: "udp_eof_turn E = (\<lambda>_. ?body)" by (simp add: fun_eq_iff udp_eof_turn_def)
  show ?thesis
    unfolding turn
    by (rule wp_cwhile [where I = "\<lambda>_. udp_all n polls fd data b" and \<mu> = mu])
      (use all eofs more in \<open>auto simp: udp_all_def mu_def\<close>)
qed

section \<open>The client\<close>

text \<open>Before the transfer: nothing has been sent.\<close>

definition udp_pre :: "('w \<Rightarrow> nat) \<Rightarrow> nat \<Rightarrow> int \<Rightarrow> byte list \<Rightarrow> int \<Rightarrow> ('w, 'z) tb_state_scheme \<Rightarrow> bool" where
  "udp_pre n polls fd data b s \<longleftrightarrow> udp_ready fd data s \<and> n (world s) \<le> polls \<and> l_bufsize (lst s) = b \<and>
     l_total_tx_rx (lst s) = 0 \<and> sent_on fd (trace s) = [] \<and> grams_on fd (trace s) = []"

text \<open>How the thread may end instead: by an abort, or on the null pointer of an instance that was not made.\<close>

definition udp_stops :: "int \<Rightarrow> byte list \<Rightarrow> halt \<Rightarrow> ('w, 'z) tb_state_scheme \<Rightarrow> bool" where
  "udp_stops fd data h s \<longleftrightarrow> client_stops fd data h s \<or>
     h = Undefined Null_Deref \<and> l_epoll (lst s) = None \<and> sent_on fd (trace s) = []"

lemma udp_pre_step:
  assumes kernel: "udp_kernel E b qsize m k n" and pre: "udp_pre n polls fd data b s" and a: "sys E c (world s) = (a, w)"
    and c: "\<forall>f bs. c \<noteq> Posix (Send f bs) \<and> c \<noteq> Udt (Udt_send f bs)"
  shows "udp_pre n polls fd data b (s\<lparr>world := w, trace := (c, a_rc a) # trace s\<rparr>)"
proof -
  have "n w \<le> polls" using udp_kernelD(1) [OF kernel a] pre by (simp add: udp_pre_def)
  moreover have "sent_on fd ((c, a_rc a) # trace s) = sent_on fd (trace s)" "grams_on fd ((c, a_rc a) # trace s) = grams_on fd (trace s)"
    using c by (auto split: syscall.splits posix.splits libudt.splits)
  ultimately show ?thesis using pre by (auto simp: udp_pre_def udp_ready_def)
qed

lemma wp_pre_sys:
  assumes "udp_kernel E b qsize m k n" and "udp_pre n polls fd data b s"
    and "\<forall>f bs. c \<noteq> Posix (Send f bs) \<and> c \<noteq> Udt (Udt_send f bs)"
    and "\<And>a w. sys E c (world s) = (a, w) \<Longrightarrow> udp_pre n polls fd data b (s\<lparr>world := w, trace := (c, a_rc a) # trace s\<rparr>) \<Longrightarrow>
      Q a (s\<lparr>world := w, trace := (c, a_rc a) # trace s\<rparr>)"
  shows "wp (do_sys E c) Q R s"
  using udp_pre_step [OF assms(1,2) _ assms(3)] assms(4) by (auto simp: wp_do_sys split: prod.splits)

lemma udp_pre_timers:
  assumes kernel: "udp_kernel E b qsize m k n" and pre: "udp_pre n polls fd data b s"
  shows "wp (l_start_connect E) (\<lambda>_. udp_pre n polls fd data b) R s" "wp (l_finish_connect E) (\<lambda>_. udp_pre n polls fd data b) R s"
proof -
  have clock: "n w \<le> polls" if "sys E (Posix (Clock_gettime c)) (world s) = (a, w)" for c a w
    using udp_kernelD(1) [OF kernel that] pre by (simp add: udp_pre_def)
  show "wp (l_start_connect E) (\<lambda>_. udp_pre n polls fd data b) R s" "wp (l_finish_connect E) (\<lambda>_. udp_pre n polls fd data b) R s"
    using pre clock by (auto simp: l_start_connect_def l_finish_connect_def wp_rules udp_pre_def udp_ready_def split: prod.splits)
qed

lemma udp_connects:
  assumes kernel: "udp_kernel E b qsize m k n" and pre: "udp_pre n polls fd data b s"
  shows "wp (tb_connect E) (\<lambda>_. udp_pre n polls fd data b) (udp_stops fd data) s"
proof -
  from pre obtain ai where ai: "l_addr_info (lst s) = Some ai" "f_connect (l_protocol (lst s)) = Some Fn_connect"
      "f_close (l_protocol (lst s)) \<noteq> None" "l_f_abort (lst s) \<noteq> None" "sent_on fd (trace s) = []"
    by (auto simp: udp_pre_def udp_ready_def)
  let ?c = "Posix (Connect (l_sock_d (lst s)) (ai_addr ai))"
  obtain a w where a: "sys E ?c (world s) = (a, w)" by force
  let ?s = "s\<lparr>world := w, trace := (?c, a_rc a) # trace s\<rparr>"
  have bad: "wp (tb_error E info e) (\<lambda>_. wp (cseq [call_f_abort E]) Q (udp_stops fd data)) (udp_stops fd data) ?s"
    for info e Q
    using ai(3-5) by (intro wp_error_abort) (auto simp: udp_stops_def client_stops_def)
  have good: "udp_pre n polls fd data b ?s" using udp_pre_step [OF kernel pre a] by simp
  show ?thesis
    using ai(1,2) a good bad by (cases "a_rc a = - 1") (simp_all add: tb_connect_def wp_rules)
qed

lemma udp_acks_made:
  fixes s :: "('w, 'z) tb_state_scheme" and E :: "('w, 'e) lenv_scheme"
  assumes kernel: "udp_kernel E b qsize m k n" and pre: "udp_pre n polls fd data b s"
  shows "wp (udp_ack_epoll E) (\<lambda>_ s'. udp_pre n polls fd data b s' \<and> udp_acked s') (udp_stops fd data) s"
proof -
  have "wp (tb_create_e_poll E (mem_epoll E) (l_sock_d (lst s)) 5 0) (\<lambda>q s'. udp_pre n polls fd data b s' \<and>
      (\<forall>ep. q = Some ep \<longrightarrow> ep_max_events ep = 5 \<and> length (ep_events ep) = 5)) (udp_stops fd data) s"
    using pre
    by (auto simp: tb_create_e_poll_def tb_add_socket_def tb_destroy_epoll_def wp_cbind wp_cret wp_cdo wp_cseq_Cons wp_cseq_Nil
        wp_cvoid Let_def intro!: wp_pre_sys [OF kernel])
  then show ?thesis
    unfolding udp_ack_epoll_def wp_cbind wp_cget
    by (rule wp_mono)
      (auto simp: wp_rules udp_pre_def udp_ready_def udp_acked_def acks_def udp_stops_def split: option.splits)
qed

lemma udp_all_logs:
  assumes kernel: "udp_kernel E b qsize m k n" and all: "udp_all n polls fd data b s"
  shows "wp (log_l_info E info) (\<lambda>_. udp_all n polls fd data b) R s"
proof (rule wp_log_l_info)
  fix w tr assume run: "stdio_run E (world s) (trace s) w tr"
  have "n w \<le> n (world s)" "sent_on fd tr = sent_on fd (trace s)" "grams_on fd tr = grams_on fd (trace s)"
    using stdio_run_polls [OF run kernel] stdio_run_sent [OF run] stdio_run_grams [OF run] by auto
  then show "udp_all n polls fd data b (s\<lparr>world := w, trace := tr\<rparr>)"
    using all by (auto simp: udp_all_def udp_ready_def udp_acked_def)
qed

lemma udp_stops_clock:
  assumes kernel: "udp_kernel E b qsize m k n" and all: "udp_all n polls fd data b s"
  shows "wp (l_finish_transfer E) (\<lambda>_. udp_all n polls fd data b) R s"
proof -
  have "n w \<le> polls" if "sys E (Posix (Clock_gettime c)) (world s) = (a, w)" for c a w
    using udp_kernelD(1) [OF kernel that] all by (simp add: udp_all_def)
  then show ?thesis
    using all by (auto simp: l_finish_transfer_def wp_rules udp_all_def udp_ready_def udp_acked_def split: prod.splits)
qed

lemma udp_transfers:
  fixes s :: "('w, 'z) tb_state_scheme" and E :: "('w, 'e) env_scheme"
  assumes kernel: "udp_kernel E b qsize m k n" and int: "in_int qsize" and pre: "udp_pre n polls fd data b s" "udp_acked s"
    and fuel: "length data * (k + 1) + k \<le> fuel"
  shows "wp (cbind (cget lst) (\<lambda>l. cbind (do_sys E (Posix (Getsockopt (l_sock_d l) SO_SNDBUF))) (\<lambda>b.
      cseq [cwhen (a_rc b = - 1)
              (cseq [log_l_errno E ''Error: tb_upload_random_udp: getsockopt'' (a_errno b), tb_abort E]),
            l_start_transfer E,
            cvoid (cwhile fuel (\<lambda>_. cget (\<lambda>s. l_total_tx_rx (lst s) < l_file_size (lst s)))
              (udp_client_body E (a_val b)) (l_bufsize l))])))
    (\<lambda>_. udp_all n polls fd data b) (udp_stops fd data) s"
proof -
  let ?c = "Posix (Getsockopt (l_sock_d (lst s)) SO_SNDBUF)"
  obtain a w where a: "sys E ?c (world s) = (a, w)" by force
  let ?s = "s\<lparr>world := w, trace := (?c, a_rc a) # trace s\<rparr>"
  have size: "a_val a = qsize" using udp_kernelD(4) [OF kernel a] .
  have ok: "udp_pre n polls fd data b ?s" "udp_acked ?s" using udp_pre_step [OF kernel pre(1) a] pre(2) by (auto simp: udp_acked_def)
  have fails: "wp (cseq [log_l_errno E info e, tb_abort E]) Q (udp_stops fd data) ?s" for info e Q
    unfolding wp_cseq_Cons
    by (rule wp_log_l_errno, rule wp_tb_abort)
      (use ok(1) in \<open>auto simp: udp_pre_def udp_ready_def udp_stops_def client_stops_def dest!: stdio_run_sent\<close>)
  have loop: "wp (cvoid (cwhile fuel (\<lambda>_. cget (\<lambda>s. l_total_tx_rx (lst s) < l_file_size (lst s))) (udp_client_body E qsize) b))
      (\<lambda>_. udp_all n polls fd data b) (udp_stops fd data) t"
    if t: "udp_pre n polls fd data b t \<and> udp_acked t" for t :: "('w, 'z) tb_state_scheme"
  proof -
    have inv: "udp_inv n polls fd data b t" using t by (auto simp: udp_pre_def udp_inv_def udp_ready_def cuts_def)
    have "udp_left m k t \<le> fuel" using t fuel udp_kernelD(6) [OF kernel, of "world t"]
      by (auto simp: udp_pre_def udp_ready_def udp_left_def)
    then show ?thesis
      unfolding wp_cvoid using t
      by (intro wp_mono [OF udp_sends_all [OF kernel int inv]]) (auto simp: udp_pre_def udp_stops_def)
  qed
  have "n w' \<le> polls" if "sys E (Posix (Clock_gettime c)) w = (r, w')" for c r w'
    using udp_kernelD(1) [OF kernel that] ok(1) by (simp add: udp_pre_def)
  then have start: "wp (l_start_transfer E) (\<lambda>_ t. udp_pre n polls fd data b t \<and> udp_acked t) (udp_stops fd data) ?s"
    using ok by (auto simp: l_start_transfer_def wp_rules udp_pre_def udp_ready_def udp_acked_def split: prod.splits)
  have "wp (cseq [l_start_transfer E, cvoid (cwhile fuel (\<lambda>_. cget (\<lambda>s. l_total_tx_rx (lst s) < l_file_size (lst s)))
      (udp_client_body E qsize) b)]) (\<lambda>_. udp_all n polls fd data b) (udp_stops fd data) ?s"
    by (rule wp_step [OF start], subst wp_cseq_Cons, unfold wp_cseq_Nil, erule loop)
  then show ?thesis
    using a size fails pre(1)
    by (cases "a_rc a = - 1") (simp_all add: wp_cbind wp_cget wp_do_sys wp_cseq_Cons [of "cwhen _ _"] wp_cwhen udp_pre_def)
qed

lemma wp_tb_udp_client:
  fixes s :: "('w, 'z) tb_state_scheme" and E :: "('w, 'e) lenv_scheme"
  assumes kernel: "udp_kernel E (l_bufsize (lst s)) qsize m k n" and int: "in_int qsize" and rdy: "udp_ready fd data s"
    and zero: "l_total_tx_rx (lst s) = 0" "sent_on fd (trace s) = []" "grams_on fd (trace s) = []"
    and fuel: "length data * (k + 1) + k \<le> fuel" "n (world s) < eofs"
  shows "wp (tb_udp_client E fuel eofs) (\<lambda>rc s'. rc = int (length data) \<and> sent_on fd (trace s') = data \<and>
      cuts_file (l_bufsize (lst s)) data (grams_on fd (trace s')) \<and> l_total_tx_rx (lst s') = int (length data) \<and> l_status (lst s') = TB_DISCONNECTED \<and> l_sock_d (lst s') = - 1 \<and>
      \<not> l_stat_lock (lst s')) (udp_stops fd data) s"
proof -
  let ?n = "n (world s)" and ?b = "l_bufsize (lst s)"
  have pre: "udp_pre n ?n fd data ?b s" using rdy zero by (simp add: udp_pre_def)
  show ?thesis
    unfolding tb_udp_client_def wp_cdo
    apply (rule wp_step, rule udp_pre_timers(1) [OF kernel pre])
    apply (rule wp_step, unfold wp_cvoid, erule udp_connects [OF kernel])
    apply (rule wp_step, erule udp_pre_timers(2) [OF kernel])
    apply (rule wp_step [where I = "udp_pre n ?n fd data ?b"])
    subgoal by (auto simp: wp_rules udp_pre_def udp_ready_def)
    apply (rule wp_step, erule udp_acks_made [OF kernel])
    apply (rule wp_step, erule conjE, rule udp_transfers [OF kernel int _ _ fuel(1), unfolded wp_cvoid], assumption, assumption)
    apply (rule wp_step, erule udp_stops_clock [OF kernel])
    apply (rule wp_step, erule udp_all_logs [OF kernel])
    apply (rule wp_step, unfold wp_cvoid, erule udp_eofs [OF kernel _ fuel(2)])
    apply (rule wp_step [where I = "udp_all n ?n fd data ?b"])
    subgoal by (auto simp: trylock_stat_def wp_rules udp_all_def udp_ready_def udp_acked_def)
    apply (rule wp_step, erule udp_all_logs [OF kernel])
    apply (auto simp: wp_rules unlock_stat_def udp_all_def udp_ready_def to_int_id split: prod.splits)
    done
qed


section \<open>Properties\<close>

text \<open>C7: the UDP client sends its file and gets to its end. The kernel takes datagrams whole, drains
  the queue of the socket often enough, and the server's answer comes after some polls. Then
  the client returns with exactly the bytes of its file sent on its socket, in order, cut into
  datagrams of one byte to a packet that the empty ones for the end follow, the count right,
  the socket closed and the statistics unlocked; or its thread ends by an abort, and what was
  sent is a beginning of the file; or the epoll instance for the answer could not be made, and
  the client reads a null pointer before it has sent anything. It does not spin for ever,
  neither for room nor for the answer.\<close>

theorem udp_client_sends_file:
  assumes "udp_kernel E (l_bufsize (lst s)) qsize m k n" and "in_int qsize" and "udp_ready fd data s"
    and "l_total_tx_rx (lst s) = 0" and "sent_on fd (trace s) = []" and "grams_on fd (trace s) = []"
    and "length data * (k + 1) + k \<le> fuel" and "n (world s) < eofs"
  shows "(\<exists>s'. tb_udp_client E fuel eofs s = Ok (int (length data)) s' \<and> sent_on fd (trace s') = data \<and>
      (\<exists>ds j. grams_on fd (trace s') = ds @ replicate j [] \<and> concat ds = data \<and>
        (\<forall>d\<in>set ds. d \<noteq> [] \<and> int (length d) \<le> l_bufsize (lst s))) \<and>
      l_total_tx_rx (lst s') = int (length data) \<and> l_status (lst s') = TB_DISCONNECTED \<and>
      l_sock_d (lst s') = - 1 \<and> \<not> l_stat_lock (lst s')) \<or>
    (\<exists>h s'. tb_udp_client E fuel eofs s = Halt h s' \<and>
      (ends_by_abort h s' \<and> (\<exists>j. sent_on fd (trace s') = take j data) \<or>
       h = Undefined Null_Deref \<and> l_epoll (lst s') = None \<and> sent_on fd (trace s') = []))"
  using wp_tb_udp_client [OF assms]
  by (auto simp: wp_def udp_stops_def client_stops_def cuts_file_def cuts_def split: result.splits)

end
