(* ===== verification/TB_Udp_Transfer.thy ===== *)
theory TB_Udp_Transfer
  imports TB_Udp_Single TB_Udt_Transfer
begin

text \<open>
  A UDP client and a UDP server of one connection composed: the datagrams the client sent are
  on their way to the server, which receives the file, answers, and returns.
\<close>

section \<open>The way to the server\<close>

text \<open>
  \<open>q\<close> is what is on its way, the oldest datagram first. No datagram is lost and none overtakes another.
  A receive takes the first of them, cut to the size of the buffer; when none is left it takes
  one more end of file, which the client repeats until it has its answer. The answer is taken
  whole, there is memory, and nobody presses Ctrl-C.
\<close>

definition first_gram :: "byte list list \<Rightarrow> byte list" where
  "first_gram qs = (case qs of [] \<Rightarrow> [] | d # ds \<Rightarrow> d)"

definition udp_net :: "('w, 'e) env_scheme \<Rightarrow> ('w \<Rightarrow> byte list list) \<Rightarrow> bool" where
  "udp_net E q \<longleftrightarrow>
     (\<forall>c w a w'. sys E c w = (a, w') \<longrightarrow>
        (case c of Posix (Recvfrom fd n) \<Rightarrow> a_bytes a = take (nat n) (first_gram (q w)) \<and>
             a_rc a = int (length (a_bytes a)) \<and> q w' = tl (q w)
         | Posix (Sendto fd bs ad) \<Rightarrow> a_rc a = int (length bs) \<and> q w' = q w
         | Stdio (Malloc n) \<Rightarrow> a_rc a \<noteq> 0 \<and> q w' = q w
         | _ \<Rightarrow> q w' = q w)) \<and>
     (\<forall>w b w'. sigint E w = (b, w') \<longrightarrow> \<not> b \<and> q w' = q w)"

lemma udp_netD:
  assumes "udp_net E q"
  shows "sys E (Posix (Recvfrom fd n)) w = (a, w') \<Longrightarrow> a_bytes a = take (nat n) (first_gram (q w)) \<and>
      a_rc a = int (length (a_bytes a)) \<and> q w' = tl (q w)"
    and "sys E (Posix (Sendto fd bs ad)) w = (a, w') \<Longrightarrow> a_rc a = int (length bs) \<and> q w' = q w"
    and "sys E (Stdio (Malloc n)) w = (a, w') \<Longrightarrow> a_rc a \<noteq> 0"
    and "sys E (Stdio d) w = (a, w') \<Longrightarrow> q w' = q w"
    and "sys E (Posix (Clock_gettime c)) w = (a, w') \<Longrightarrow> q w' = q w"
    and "sigint E w = (b, w') \<Longrightarrow> \<not> b \<and> q w' = q w"
proof -
  note all = conjunct1 [OF assms [unfolded udp_net_def], rule_format]
  show "sys E (Posix (Recvfrom fd n)) w = (a, w') \<Longrightarrow> a_bytes a = take (nat n) (first_gram (q w)) \<and>
      a_rc a = int (length (a_bytes a)) \<and> q w' = tl (q w)" using all [of "Posix (Recvfrom fd n)"] by simp
  show "sys E (Posix (Sendto fd bs ad)) w = (a, w') \<Longrightarrow> a_rc a = int (length bs) \<and> q w' = q w"
    using all [of "Posix (Sendto fd bs ad)"] by simp
  show "sys E (Stdio (Malloc n)) w = (a, w') \<Longrightarrow> a_rc a \<noteq> 0" using all [of "Stdio (Malloc n)"] by simp
  show "sys E (Stdio d) w = (a, w') \<Longrightarrow> q w' = q w" using all [of "Stdio d"] by (cases d) simp_all
  show "sys E (Posix (Clock_gettime c)) w = (a, w') \<Longrightarrow> q w' = q w" using all [of "Posix (Clock_gettime c)"] by simp
  show "sigint E w = (b, w') \<Longrightarrow> \<not> b \<and> q w' = q w" using assms unfolding udp_net_def by blast
qed

lemma stdio_run_net: "stdio_run E w tr w' tr' \<Longrightarrow> udp_net E q \<Longrightarrow> q w' = q w"
  by (induction rule: stdio_run.induct) (auto dest: udp_netD(4))

lemma stdio_run_keeps: "stdio_run E w tr w' tr' \<Longrightarrow> x \<in> set tr \<Longrightarrow> x \<in> set tr'"
  by (induction rule: stdio_run.induct) auto

text \<open>The datagrams with data come first, each with room in a packet.\<close>

definition ahead :: "byte list list \<Rightarrow> byte list list" where
  "ahead qs = takeWhile (\<lambda>d. d \<noteq> []) qs"

lemma length_ahead: "length (ahead qs) \<le> length (concat (ahead qs))"
  unfolding ahead_def
proof (induction qs)
  case (Cons d qs)
  then show ?case by (cases d) auto
qed simp

definition comes :: "int \<Rightarrow> byte list list \<Rightarrow> bool" where
  "comes b qs \<longleftrightarrow> (\<exists>ds j. qs = ds @ replicate j [] \<and> (\<forall>d\<in>set ds. d \<noteq> [] \<and> int (length d) \<le> b))"

lemma comes_tl: "comes b qs \<Longrightarrow> comes b (tl qs)"
proof -
  assume "comes b qs"
  then obtain ds j where qs: "qs = ds @ replicate j []" "\<forall>d\<in>set ds. d \<noteq> [] \<and> int (length d) \<le> b" by (auto simp: comes_def)
  then have "tl qs = tl ds @ replicate (if ds = [] then j - 1 else j) []" by (cases ds; cases j) auto
  moreover have "\<forall>d\<in>set (tl ds). d \<noteq> [] \<and> int (length d) \<le> b" using qs(2) by (cases ds) auto
  ultimately show ?thesis unfolding comes_def by blast
qed

lemma comes_first:
  assumes "comes b qs"
  shows "int (length (first_gram qs)) \<le> max b 0" and "first_gram qs = [] \<Longrightarrow> ahead qs = [] \<and> ahead (tl qs) = []"
    and "first_gram qs \<noteq> [] \<Longrightarrow> ahead qs = first_gram qs # ahead (tl qs)"
proof -
  obtain ds j where qs: "qs = ds @ replicate j []" and ok: "\<forall>d\<in>set ds. d \<noteq> [] \<and> int (length d) \<le> b"
    using assms by (auto simp: comes_def)
  have ends: "takeWhile (\<lambda>d. d \<noteq> []) (replicate i ([] :: byte list)) = []" for i by (cases i) auto
  show "int (length (first_gram qs)) \<le> max b 0" using qs ok by (cases ds; cases j) (auto simp: first_gram_def)
  show "first_gram qs = [] \<Longrightarrow> ahead qs = [] \<and> ahead (tl qs) = []"
    using qs ok ends by (cases ds; cases j) (auto simp: first_gram_def ahead_def)
  show "first_gram qs \<noteq> [] \<Longrightarrow> ahead qs = first_gram qs # ahead (tl qs)"
    by (cases qs) (auto simp: first_gram_def ahead_def)
qed

lemma cuts_file_comes: "cuts_file b data qs \<Longrightarrow> b \<le> b' \<Longrightarrow> comes b' qs \<and> concat (ahead qs) = data"
proof -
  assume cut: "cuts_file b data qs" and le: "b \<le> b'"
  then obtain ds j where qs: "qs = ds @ replicate j []" "cuts b data ds" by (auto simp: cuts_file_def)
  have "takeWhile (\<lambda>d. d \<noteq> []) (replicate j ([] :: byte list)) = []" by (cases j) auto
  then have "ahead qs = ds" using qs by (auto simp: ahead_def cuts_def)
  moreover have "comes b' qs" unfolding comes_def
    using qs le by (intro exI [where x = ds] exI [where x = j]) (auto simp: cuts_def)
  ultimately show ?thesis using qs by (simp add: cuts_def)
qed


section \<open>The server\<close>

text \<open>The listener of the server, with \<open>c\<close> what it has counted and what is on its way.\<close>

definition udp_flow :: "('w \<Rightarrow> byte list list) \<Rightarrow> int \<Rightarrow> ('w, 'z) tb_state_scheme \<Rightarrow> bool" where
  "udp_flow q c s \<longleftrightarrow> f_recfrom (l_protocol (lst s)) = Some Fn_recvfrom \<and> f_sendto (l_protocol (lst s)) = Some Fn_sendto \<and>
     p_eot (l_protocol (lst s)) = 0 \<and> 0 < l_bufsize (lst s) \<and> in_int (l_bufsize (lst s)) \<and>
     l_command (lst s) = TB_CONTINUE \<and> \<not> l_stat_lock (lst s) \<and> comes (l_bufsize (lst s)) (q (world s)) \<and>
     l_total_tx_rx (lst s) + int (length (concat (ahead (q (world s))))) = c"

definition udp_filling :: "('w \<Rightarrow> byte list list) \<Rightarrow> int \<Rightarrow> ('w, 'z) tb_state_scheme \<Rightarrow> bool" where
  "udp_filling q c s \<longleftrightarrow> udp_flow q c s \<and> (\<exists>p r d. l_curr_session (lst s) = Some p \<and> sess s p = Some r \<and>
     s_data r = Some d \<and> int (length d) = l_bufsize (lst s) \<and> s_data_size r = l_bufsize (lst s) \<and> s_addr_in r \<noteq> None)"

text \<open>The answer has gone out.\<close>

definition answered :: "int \<Rightarrow> int \<Rightarrow> ('w, 'z) tb_state_scheme \<Rightarrow> bool" where
  "answered fd b s \<longleftrightarrow> (\<exists>bs ad. int (length bs) = b \<and> (Posix (Sendto fd bs ad), b) \<in> set (trace s))"

definition udp_server_over :: "('w \<Rightarrow> byte list list) \<Rightarrow> int \<Rightarrow> int \<Rightarrow> ('w, 'z) tb_state_scheme \<Rightarrow> bool" where
  "udp_server_over q fd c s \<longleftrightarrow> udp_filling q c s \<and> ahead (q (world s)) = [] \<and> answered fd (l_bufsize (lst s)) s"

text \<open>A receive takes the first datagram and keeps the session ready for the next.\<close>

lemma udp_receives:
  assumes net: "udp_net E q" and inv: "udp_filling q c s" and p: "l_curr_session (lst s) = Some p"
    and Q: "\<And>w a r. sys E (Posix (Recvfrom (l_sock_d (lst s)) (l_bufsize (lst s)))) (world s) = (a, w) \<Longrightarrow>
      q w = tl (q (world s)) \<Longrightarrow> s_last_trans r = int (length (first_gram (q (world s)))) \<Longrightarrow>
      s_data_size r = l_bufsize (lst s) \<Longrightarrow> s_addr_in r \<noteq> None \<Longrightarrow>
      (\<exists>d. s_data r = Some d \<and> int (length d) = l_bufsize (lst s)) \<Longrightarrow>
      Q 0 (s\<lparr>world := w, trace := (Posix (Recvfrom (l_sock_d (lst s)) (l_bufsize (lst s))), a_rc a) # trace s,
        sess := (sess s)(p \<mapsto> r)\<rparr>)"
  shows "wp (tb_recv_from E (Some p)) Q R s"
proof -
  from inv p obtain r d where r: "sess s p = Some r" "s_data r = Some d" "int (length d) = l_bufsize (lst s)"
      "s_data_size r = l_bufsize (lst s)" "s_addr_in r \<noteq> None" "f_recfrom (l_protocol (lst s)) = Some Fn_recvfrom"
      "0 < l_bufsize (lst s)" "in_int (l_bufsize (lst s))" "comes (l_bufsize (lst s)) (q (world s))"
    by (auto simp: udp_filling_def udp_flow_def)
  let ?c = "Posix (Recvfrom (l_sock_d (lst s)) (l_bufsize (lst s)))" and ?g = "first_gram (q (world s))"
  obtain a w where a: "sys E ?c (world s) = (a, w)" by force
  have len: "int (length ?g) \<le> l_bufsize (lst s)" using comes_first(1) [OF r(9)] r(7) by simp
  then have got: "a_bytes a = ?g" "a_rc a = int (length ?g)" "q w = tl (q (world s))"
    using udp_netD(1) [OF net a] by auto
  then have int: "to_int (a_rc a) = int (length ?g)" "to_int (l_bufsize (lst s)) = l_bufsize (lst s)"
    using len r(8) by (auto intro!: to_int_id simp: in_int_def)
  have "int (length (overwrite ?g d)) = l_bufsize (lst s)" using len r(3) by (simp add: overwrite_def)
  then show ?thesis
    using r a got int Q [OF a got(3)]
    by (auto simp: tb_recv_from_def wp_rules Let_def)
qed

lemma udp_filling_logs:
  assumes net: "udp_net E q" and "udp_filling q c s"
  shows "wp (log_l_info E info) (\<lambda>_ s'. udp_filling q c s' \<and> q (world s') = q (world s) \<and> lst s' = lst s) R s"
proof (rule wp_log_l_info)
  fix w tr assume "stdio_run E (world s) (trace s) w tr"
  then have "q w = q (world s)" by (rule stdio_run_net [OF _ net])
  then show "udp_filling q c (s\<lparr>world := w, trace := tr\<rparr>) \<and> q (world (s\<lparr>world := w, trace := tr\<rparr>)) = q (world s) \<and>
      lst (s\<lparr>world := w, trace := tr\<rparr>) = lst s"
    using assms(2) by (simp add: udp_filling_def udp_flow_def)
qed

lemma udp_filling_clock:
  assumes net: "udp_net E q" and inv: "udp_filling q c s"
  shows "wp (l_start_transfer E) (\<lambda>_ s'. udp_filling q c s' \<and> q (world s') = q (world s)) R s"
  using inv udp_netD(5) [OF net]
  by (auto simp: wp_rules l_start_transfer_def udp_filling_def udp_flow_def split: prod.splits)

lemma udp_answers:
  assumes net: "udp_net E q" and inv: "udp_filling q c s \<and> ahead (q (world s)) = []" and p: "l_curr_session (lst s) = Some p"
  shows "wp (tb_send_to E (Some p)) (\<lambda>_ s'. udp_server_over q (l_sock_d (lst s)) c s' \<and> l_sock_d (lst s') = l_sock_d (lst s)) R s"
proof -
  from inv p obtain r d ad where r: "sess s p = Some r" "s_data r = Some d" "int (length d) = l_bufsize (lst s)"
      "s_data_size r = l_bufsize (lst s)" "s_addr_in r = Some ad" "f_sendto (l_protocol (lst s)) = Some Fn_sendto"
      "0 < l_bufsize (lst s)" "in_int (l_bufsize (lst s))"
    by (auto simp: udp_filling_def udp_flow_def)
  let ?c = "Posix (Sendto (l_sock_d (lst s)) d ad)"
  obtain a w where a: "sys E ?c (world s) = (a, w)" by force
  then have got: "a_rc a = l_bufsize (lst s)" "to_int (a_rc a) \<noteq> - 1" "q w = q (world s)"
    using udp_netD(2) [OF net a] r by (auto simp: to_int_id)
  have "answered (l_sock_d (lst s)) (l_bufsize (lst s)) (s\<lparr>world := w, trace := (?c, a_rc a) # trace s\<rparr>)"
    using r(3) got(1) by (auto simp: answered_def)
  then show ?thesis
    using r a got inv p
    by (auto simp: tb_send_to_def wp_rules cread_inside udp_server_over_def udp_filling_def udp_flow_def)
qed

lemma udp_server_recv_fills:
  assumes net: "udp_net E q" and inv: "udp_filling q c s" and fd: "l_sock_d (lst s) = fd"
  shows "wp (udp_server_recv E) (\<lambda>over s'. l_sock_d (lst s') = fd \<and>
      (if over then udp_server_over q fd c s'
       else udp_filling q c s' \<and> length (ahead (q (world s'))) < length (ahead (q (world s))))) R s"
proof -
  from inv obtain p where p: "l_curr_session (lst s) = Some p" by (auto simp: udp_filling_def)
  let ?Q = "\<lambda>over s'. l_sock_d (lst s') = fd \<and> (if over then udp_server_over q fd c s'
       else udp_filling q c s' \<and> length (ahead (q (world s'))) < length (ahead (q (world s))))"
  have eot: "p_eot (l_protocol (lst s)) = 0" "comes (l_bufsize (lst s)) (q (world s))"
    using inv by (auto simp: udp_filling_def udp_flow_def)
  have rest: "wp (cbind (cget lst) (\<lambda>l. cbind (load_session (Some p)) (\<lambda>r.
        if s_last_trans r = p_eot (l_protocol l)
        then cdo [log_l_info E ''UDP Sending ack'', cvoid (tb_send_to E (Some p))] (cret True)
        else cdo [udp_add_received] (cret False)))) ?Q R s'"
    if s': "s' = s\<lparr>world := w, trace := tr, sess := (sess s)(p \<mapsto> r)\<rparr>" and q: "q w = tl (q (world s))"
      and r: "s_last_trans r = int (length (first_gram (q (world s))))" "s_data_size r = l_bufsize (lst s)" "s_addr_in r \<noteq> None"
        "\<exists>d. s_data r = Some d \<and> int (length d) = l_bufsize (lst s)"
    for s' w tr r
  proof (cases "first_gram (q (world s)) = []")
    case True
    then have over: "ahead (q (world s')) = []" "udp_filling q c s'"
      using comes_first(2) [OF eot(2) True] comes_tl [OF eot(2)] inv p q r s' by (auto simp: udp_filling_def udp_flow_def)
    have "lst s' = lst s" using s' by simp
    then have ack: "wp (tb_send_to E (Some p)) (\<lambda>_ s''. ?Q True s'') R t"
      if "udp_filling q c t \<and> q (world t) = q (world s') \<and> lst t = lst s'" for t
      using that over fd p s' by (intro wp_mono [OF udp_answers [OF net, of c t p]]) auto
    have "wp (cdo [log_l_info E ''UDP Sending ack'', cvoid (tb_send_to E (Some p))] (cret True)) ?Q R s'"
      unfolding wp_cdo wp_cseq_Cons wp_cseq_Nil wp_cvoid wp_cret
      by (rule wp_mono [OF udp_filling_logs [OF net over(2)]]) (use ack in auto)
    then show ?thesis using True s' r(1) eot(1) by (simp add: wp_cbind wp_cget wp_load_session)
  next
    case False
    note first = comes_first(3) [OF eot(2) False]
    have "udp_filling q c (s'\<lparr>lst := (lst s)\<lparr>l_total_tx_rx := l_total_tx_rx (lst s) + s_last_trans r\<rparr>\<rparr>)"
      using inv s' p q r first comes_tl [OF eot(2)] by (auto simp: udp_filling_def udp_flow_def)
    then show ?thesis
      using False s' r(1) eot(1) p q fd first by (simp add: wp_rules udp_add_received_def)
  qed
  show ?thesis
    unfolding udp_server_recv_def wp_cbind wp_cget p wp_cdo wp_cseq_Cons wp_cseq_Nil wp_cvoid
    by (rule udp_receives [OF net inv p]) (use rest in \<open>simp add: wp_cbind wp_cget\<close>)
qed

lemma udp_not_ended:
  assumes net: "udp_net E q" and inv: "udp_filling q c s"
  shows "wp (not_ended E) (\<lambda>go s'. go \<and> udp_filling q c s' \<and> l_sock_d (lst s') = l_sock_d (lst s) \<and> q (world s') = q (world s)) R s"
  using inv udp_netD(6) [OF net]
  by (auto simp: not_ended_def read_command_def sig_action_def wp_rules udp_filling_def udp_flow_def continue_goes_on
      split: prod.splits)

interpretation udp_filling: receive_loop
  "\<lambda>over. if over then cret False else not_ended E" "\<lambda>_. udp_server_recv E"
  "\<lambda>over s. udp_net E q \<and> l_sock_d (lst s) = fd \<and> (if over then udp_server_over q fd c s else udp_filling q c s)"
  "\<lambda>over _. over" "\<lambda>_. False" "\<lambda>s. length (ahead (q (world s)))" R
  for E :: "('w, 'e) lenv_scheme" and q fd c and R :: "halt \<Rightarrow> ('w, 'z) tb_state_scheme \<Rightarrow> bool"
proof
  fix over and s :: "('w, 'z) tb_state_scheme"
  assume inv: "udp_net E q \<and> l_sock_d (lst s) = fd \<and> (if over then udp_server_over q fd c s else udp_filling q c s)"
  show "wp (if over then cret False else not_ended E) (\<lambda>go s'. (udp_net E q \<and> l_sock_d (lst s') = fd \<and>
      (if over then udp_server_over q fd c s' else udp_filling q c s')) \<and> (over \<longleftrightarrow> over) \<and>
      length (ahead (q (world s'))) \<le> length (ahead (q (world s))) \<and> (if go then \<not> over else over \<or> False)) R s"
    using inv by (cases over) (auto simp: wp_cret intro!: wp_mono [OF udp_not_ended [of E q c s]])
  assume "\<not> over"
  then show "wp (udp_server_recv E) (\<lambda>over' s'. (udp_net E q \<and> l_sock_d (lst s') = fd \<and>
      (if over' then udp_server_over q fd c s' else udp_filling q c s')) \<and>
      (over' \<or> length (ahead (q (world s'))) < length (ahead (q (world s))))) R s"
    using inv by (auto intro!: wp_mono [OF udp_server_recv_fills [of E q c s fd]] split: if_splits)
qed

lemma udp_server_loop:
  fixes s :: "('w, 'z) tb_state_scheme" and E :: "('w, 'e) lenv_scheme"
  assumes "udp_net E q" and "udp_filling q c s" and "l_sock_d (lst s) = fd" and "length (ahead (q (world s))) < fuel"
  shows "wp (cwhile fuel (\<lambda>over. if over then cret False else not_ended E) (\<lambda>_. udp_server_recv E) False)
    (\<lambda>_. udp_server_over q fd c) R s"
  by (rule wp_mono [OF udp_filling.loop_ends]) (use assms in \<open>auto simp: udp_filling.rounds_def split: if_splits\<close>)

lemma udp_session_made:
  fixes E :: "('w, 'e) lenv_scheme"
  assumes net: "udp_net E q" and inv: "udp_flow q c s"
  shows "wp (udp_server_session E) (\<lambda>_ s'. udp_filling q c s' \<and> q (world s') = q (world s) \<and> l_sock_d (lst s') = l_sock_d (lst s)) R s"
proof -
  have "to_size (l_bufsize (lst s)) = l_bufsize (lst s)"
    using inv by (intro to_size_id) (auto simp: udp_flow_def in_int_def)
  then show ?thesis
    using inv udp_netD(3,4) [OF net]
    by (auto simp: udp_server_session_def tb_create_server_session_def wp_rules udp_filling_def udp_flow_def split: prod.splits)
qed

lemma udp_first_fills:
  assumes net: "udp_net E q" and inv: "udp_filling q c s"
  shows "wp (cbind (cget (\<lambda>s. l_curr_session (lst s))) (\<lambda>p. cvoid (tb_recv_from E p))) (\<lambda>_ s1. 
      wp udp_add_received (\<lambda>_ s'. udp_filling q c s' \<and> length (ahead (q (world s'))) \<le> length (ahead (q (world s))) \<and>
        l_sock_d (lst s') = l_sock_d (lst s)) R s1) R s"
proof -
  from inv obtain p where p: "l_curr_session (lst s) = Some p" by (auto simp: udp_filling_def)
  have come: "comes (l_bufsize (lst s)) (q (world s))" using inv by (simp add: udp_filling_def udp_flow_def)
  have "l_total_tx_rx (lst s) + int (length (first_gram (q (world s)))) + int (length (concat (ahead (tl (q (world s)))))) = c"
      "length (ahead (tl (q (world s)))) \<le> length (ahead (q (world s)))"
    using inv comes_first(2,3) [OF come] by (cases "first_gram (q (world s)) = []"; force simp: udp_filling_def udp_flow_def)+
  then show ?thesis
    unfolding wp_cbind wp_cget p wp_cvoid
    using inv p comes_tl [OF come]
    by (intro udp_receives [OF net inv p]) (auto simp: udp_add_received_def wp_rules udp_filling_def udp_flow_def)
qed

lemma wp_tb_udp_server:
  fixes s :: "('w, 'z) tb_state_scheme" and E :: "('w, 'e) lenv_scheme"
  assumes net: "udp_net E q" and inv: "udp_flow q c s" and fuel: "length (ahead (q (world s))) < fuel"
  shows "wp (tb_udp_server E fuel) (\<lambda>rc s'. rc = to_int c \<and> l_total_tx_rx (lst s') = c \<and> l_status (lst s') = TB_DISCONNECTED \<and>
    l_sock_d (lst s') = - 1 \<and> \<not> l_stat_lock (lst s') \<and> answered (l_sock_d (lst s)) (l_bufsize (lst s')) s') R s"
proof -
  let ?fd = "l_sock_d (lst s)"
  let ?I = "\<lambda>s' :: ('w, 'z) tb_state_scheme. udp_filling q c s' \<and> length (ahead (q (world s'))) < fuel \<and> l_sock_d (lst s') = ?fd"
  have first: "wp (cseq (cbind (cget (\<lambda>s. l_curr_session (lst s))) (\<lambda>p. cvoid (tb_recv_from E p)) # udp_add_received # ms)) Q R t"
    if t: "?I t" and rest: "\<And>t'. ?I t' \<Longrightarrow> wp (cseq ms) Q R t'" for ms Q and t :: "('w, 'z) tb_state_scheme"
    unfolding wp_cseq_Cons
    by (rule wp_mono [OF udp_first_fills [OF net conjunct1 [OF t]]]) (auto elim!: wp_mono intro: rest simp: t le_less_trans)
  have logs: "wp (log_l_info E info) (\<lambda>_. ?I) R t" if "?I t" for info R and t :: "('w, 'z) tb_state_scheme"
    by (rule wp_mono [OF udp_filling_logs [OF net conjunct1 [OF that]]]) (use that in auto)
  have starts: "wp (l_start_transfer E) (\<lambda>_. ?I) R t" if "?I t" for R and t :: "('w, 'z) tb_state_scheme"
  proof -
    have "wp (l_start_transfer E) (\<lambda>_ t'. l_sock_d (lst t') = l_sock_d (lst t)) R t"
      by (simp add: wp_rules l_start_transfer_def split: prod.splits)
    from wp_conjI [OF udp_filling_clock [OF net conjunct1 [OF that]] this] show ?thesis
      by (rule wp_mono) (use that in auto)
  qed
  have loop: "wp (cvoid (cwhile fuel (\<lambda>over. if over then cret False else not_ended E) (\<lambda>_. udp_server_recv E) False))
      (\<lambda>_. udp_server_over q ?fd c) R t" if "?I t" for R and t :: "('w, 'z) tb_state_scheme"
    unfolding wp_cvoid using that by (intro udp_server_loop [OF net]) auto
  have ends: "wp (cseq [l_finish_transfer E, log_l_info E ''Closing UDP Connection'', lock_stat,
      cbind (cget lst) (\<lambda>l. cvoid (do_sys E (Posix (Close (l_sock_d l))))),
      set_l (\<lambda>l. l\<lparr>l_sock_d := - 1, l_status := TB_DISCONNECTED\<rparr>), unlock_stat])
    (\<lambda>_ s'. l_total_tx_rx (lst s') = c \<and> l_status (lst s') = TB_DISCONNECTED \<and>
      l_sock_d (lst s') = - 1 \<and> \<not> l_stat_lock (lst s') \<and> answered ?fd (l_bufsize (lst s')) s') R t"
    if t: "udp_server_over q ?fd c t" for t :: "('w, 'z) tb_state_scheme"
  proof -
    let ?J = "\<lambda>t :: ('w, 'z) tb_state_scheme. l_total_tx_rx (lst t) = c \<and> \<not> l_stat_lock (lst t) \<and> answered ?fd (l_bufsize (lst t)) t"
    have over: "?J t" using t by (auto simp: udp_server_over_def udp_filling_def udp_flow_def)
    have log: "wp (log_l_info E info) (\<lambda>_. ?J) R t" if "?J t" for info R and t :: "('w, 'z) tb_state_scheme"
      by (rule wp_log_l_info) (use that in \<open>auto simp: answered_def dest: stdio_run_keeps\<close>)
    show ?thesis
      apply (rule wp_step [where I = ?J])
      subgoal using over by (auto simp: wp_rules l_finish_transfer_def answered_def split: prod.splits)
      apply (rule wp_step, erule log)
      apply (auto simp: wp_rules lock_stat_def unlock_stat_def answered_def split: prod.splits)
      done
  qed
  show ?thesis
    unfolding tb_udp_server_def wp_cdo
    apply (rule wp_step [where I = "\<lambda>s'. udp_flow q c s' \<and> length (ahead (q (world s'))) < fuel \<and> l_sock_d (lst s') = ?fd"])
    subgoal using inv fuel by (simp add: wp_rules udp_flow_def)
    apply (rule wp_step [where I = ?I], rule wp_mono [OF udp_session_made [OF net]], erule conjunct1, simp, assumption)
    apply (rule first, assumption)
    apply (rule wp_step [where I = ?I])
    subgoal by (auto simp: wp_rules udp_filling_def udp_flow_def)
    apply (rule wp_step, erule logs)
    apply (rule wp_step, erule starts)
    apply (rule wp_step, erule loop)
    apply (rule wp_mono, erule ends)
    apply (simp_all add: wp_cget)
    done
qed


section \<open>Properties\<close>

text \<open>The server before the client's first datagram is there.\<close>

definition udp_server_ready :: "('w, 'z) tb_state_scheme \<Rightarrow> bool" where
  "udp_server_ready s \<longleftrightarrow> f_recfrom (l_protocol (lst s)) = Some Fn_recvfrom \<and> f_sendto (l_protocol (lst s)) = Some Fn_sendto \<and>
     p_eot (l_protocol (lst s)) = 0 \<and> in_int (l_bufsize (lst s)) \<and> l_command (lst s) = TB_CONTINUE \<and>
     \<not> l_stat_lock (lst s) \<and> l_total_tx_rx (lst s) = 0"


end
