(* ===== verification/TB_Stream_Transfer.thy ===== *)
theory TB_Stream_Transfer
  imports TB_Stream_Client TB_Stream_Server TB_Udt_Transfer
begin

text \<open>
  A stream client and a stream server composed: the bytes the client sent are on their way to
  the server, which counts all of them before it stumbles over its own freed session.
\<close>

section \<open>The way to the server\<close>

text \<open>
  \<open>left\<close> counts the bytes on their way. A receive brings at least one of them while there are any
  and then reports the end of the connection; no other call touches them, the connection is
  made, and nobody presses Ctrl-C.
\<close>

definition tcp_pipe :: "('w, 'e) env_scheme \<Rightarrow> ('w \<Rightarrow> nat) \<Rightarrow> bool" where
  "tcp_pipe E left \<longleftrightarrow>
     (\<forall>c w a w'. sys E c w = (a, w') \<longrightarrow>
        (case c of Posix (Recv fd n) \<Rightarrow> 0 < n \<longrightarrow>
             (if left w = 0 then a_rc a = 0 \<and> left w' = 0
              else 1 \<le> a_rc a \<and> a_rc a \<le> n \<and> int (left w') = int (left w) - a_rc a)
         | Posix (Listen fd n) \<Rightarrow> a_rc a \<noteq> - 1 \<and> left w' = left w
         | Posix (Accept fd) \<Rightarrow> a_rc a \<noteq> - 1 \<and> left w' = left w
         | _ \<Rightarrow> left w' = left w)) \<and>
     (\<forall>w b w'. sigint E w = (b, w') \<longrightarrow> \<not> b \<and> left w' = left w)"

lemma tcp_pipeD:
  assumes "tcp_pipe E left"
  shows "sys E (Posix (Clock_gettime k)) w = (a, w') \<Longrightarrow> left w' = left w"
    and "sys E (Stdio d) w = (a, w') \<Longrightarrow> left w' = left w"
    and "sys E (Posix (Listen fd n)) w = (a, w') \<Longrightarrow> a_rc a \<noteq> - 1 \<and> left w' = left w"
    and "sys E (Posix (Accept fd)) w = (a, w') \<Longrightarrow> a_rc a \<noteq> - 1 \<and> left w' = left w"
    and "sys E (Posix (Recv fd n)) w = (a, w') \<Longrightarrow> 0 < n \<Longrightarrow> if left w = 0 then a_rc a = 0 \<and> left w' = 0
      else 1 \<le> a_rc a \<and> a_rc a \<le> n \<and> int (left w') = int (left w) - a_rc a"
    and "sigint E w = (b, w') \<Longrightarrow> \<not> b \<and> left w' = left w"
proof -
  note all = conjunct1 [OF assms [unfolded tcp_pipe_def], rule_format]
  show "sys E (Posix (Clock_gettime k)) w = (a, w') \<Longrightarrow> left w' = left w" using all [of "Posix (Clock_gettime k)"] by simp
  show "sys E (Stdio d) w = (a, w') \<Longrightarrow> left w' = left w" using all [of "Stdio d"] by simp
  show "sys E (Posix (Listen fd n)) w = (a, w') \<Longrightarrow> a_rc a \<noteq> - 1 \<and> left w' = left w"
    using all [of "Posix (Listen fd n)"] by simp
  show "sys E (Posix (Accept fd)) w = (a, w') \<Longrightarrow> a_rc a \<noteq> - 1 \<and> left w' = left w"
    using all [of "Posix (Accept fd)"] by simp
  show "sys E (Posix (Recv fd n)) w = (a, w') \<Longrightarrow> 0 < n \<Longrightarrow> if left w = 0 then a_rc a = 0 \<and> left w' = 0
      else 1 \<le> a_rc a \<and> a_rc a \<le> n \<and> int (left w') = int (left w) - a_rc a"
    using all [of "Posix (Recv fd n)" w a w'] by simp
  show "sigint E w = (b, w') \<Longrightarrow> \<not> b \<and> left w' = left w" using assms unfolding tcp_pipe_def by blast
qed

lemma stdio_run_tcp: "stdio_run E w tr w' tr' \<Longrightarrow> tcp_pipe E left \<Longrightarrow> left w' = left w"
  by (induction rule: stdio_run.induct) (auto dest: tcp_pipeD(2))

text \<open>The listener of the server while \<open>c\<close> is what it has received and what is on its way.\<close>

definition tcp_flow :: "('w \<Rightarrow> nat) \<Rightarrow> int \<Rightarrow> ('w, 'z) tb_state_scheme \<Rightarrow> bool" where
  "tcp_flow left c s \<longleftrightarrow> tcp_server_table (l_protocol (lst s)) \<and> 0 < l_bufsize (lst s) \<and> in_int (l_bufsize (lst s)) \<and>
     l_command (lst s) = TB_CONTINUE \<and> (l_log_enabled (lst s) \<noteq> 0 \<longrightarrow> l_log_info (lst s) \<noteq> None) \<and>
     l_total_tx_rx (lst s) + int (left (world s)) = c"

definition tcp_filling :: "('w \<Rightarrow> nat) \<Rightarrow> int \<Rightarrow> nat \<Rightarrow> ('w, 'z) tb_state_scheme \<Rightarrow> bool" where
  "tcp_filling left c p s \<longleftrightarrow> tcp_flow left c s \<and>
     (\<exists>r. sess s p = Some r \<and> s_thread r = None \<and> s_data_size r = l_bufsize (lst s))"

lemma tcp_recv_step_fills:
  assumes pipe: "tcp_pipe E left" and inv: "tcp_filling left c p s"
  shows "wp (stream_recv_step E p) (\<lambda>_ s'. tcp_filling left c p s' \<and>
    (if last_trans p s' = 0 then left (world s') = 0 else left (world s') < left (world s))) (\<lambda>_ _. False) s"
proof -
  from inv obtain r where r: "sess s p = Some r" "s_thread r = None" "s_data_size r = l_bufsize (lst s)"
      "tcp_server_table (l_protocol (lst s))" "0 < l_bufsize (lst s)" "in_int (l_bufsize (lst s))"
    by (auto simp: tcp_filling_def tcp_flow_def)
  let ?c = "Posix (Recv (s_sock_d r) (l_bufsize (lst s)))"
  obtain a w where a: "sys E ?c (world s) = (a, w)" by force
  note rc = tcp_pipeD(5) [OF pipe a r(5)]
  have int: "to_int (a_rc a) = a_rc a" "a_rc a \<noteq> - 1"
    using rc r(6) by (auto intro!: to_int_id simp: in_int_def split: if_splits)
  show ?thesis
    using r a int rc inv
    by (auto simp: stream_recv_step_def tb_recv_data_def wp_rules Let_def tcp_server_table_def
        tcp_filling_def tcp_flow_def last_trans_def split: if_splits)
qed

lemma tcp_stays:
  assumes pipe: "tcp_pipe E left" and inv: "tcp_flow left c s"
  shows "wp (read_command E) (\<lambda>x s'. x = TB_CONTINUE \<and> tcp_flow left c s' \<and> left (world s') = left (world s) \<and>
    sess s' = sess s \<and> l_bufsize (lst s') = l_bufsize (lst s)) R s"
  using inv tcp_pipeD(6) [OF pipe]
  by (auto simp: read_command_def sig_action_def wp_rules tcp_flow_def split: prod.splits)

interpretation tcp_filling: receive_loop
  "\<lambda>_ :: unit. stream_recv_more E p" "\<lambda>_. stream_recv_step E p"
  "\<lambda>_ s. tcp_pipe E left \<and> tcp_filling left c p s \<and> (last_trans p s = 0 \<longrightarrow> left (world s) = 0)"
  "\<lambda>_ s. last_trans p s = 0" "\<lambda>_. False" "\<lambda>s. left (world s)" "\<lambda>_ _. False"
  for E :: "('w, 'e) env_scheme" and left c p
proof
  fix s :: "('w, 'z) tb_state_scheme"
  assume inv: "tcp_pipe E left \<and> tcp_filling left c p s \<and> (last_trans p s = 0 \<longrightarrow> left (world s) = 0)"
  then obtain r where r: "sess s p = Some r" by (auto simp: tcp_filling_def)
  have flow: "tcp_pipe E left" "tcp_flow left c s" using inv by (auto simp: tcp_filling_def)
  have kept: "wp (read_command E) (\<lambda>x s'. x = TB_CONTINUE \<and> tcp_filling left c p s' \<and> last_trans p s' = last_trans p s \<and>
      left (world s') = left (world s)) (\<lambda>_ _. False) s"
    by (rule wp_mono [OF tcp_stays [OF flow]]) (use inv in \<open>auto simp: tcp_filling_def last_trans_def\<close>)
  show "wp (stream_recv_more E p) (\<lambda>go s'. (tcp_pipe E left \<and> tcp_filling left c p s' \<and> (last_trans p s' = 0 \<longrightarrow> left (world s') = 0)) \<and>
      (last_trans p s' = 0 \<longleftrightarrow> last_trans p s = 0) \<and> left (world s') \<le> left (world s) \<and>
      (if go then last_trans p s \<noteq> 0 else last_trans p s = 0 \<or> False)) (\<lambda>_ _. False) s"
    using inv r by (auto simp: stream_recv_more_def wp_rules last_trans_def intro!: wp_mono [OF kept])
  show "wp (stream_recv_step E p) (\<lambda>_ s'. (tcp_pipe E left \<and> tcp_filling left c p s' \<and> (last_trans p s' = 0 \<longrightarrow> left (world s') = 0)) \<and>
      (last_trans p s' = 0 \<or> left (world s') < left (world s))) (\<lambda>_ _. False) s"
    using inv by (auto intro!: wp_mono [OF tcp_recv_step_fills [of E left c p s]] split: if_splits)
qed

lemma tcp_fill_loop:
  fixes s :: "('w, 'z) tb_state_scheme" and E :: "('w, 'e) env_scheme"
  assumes "tcp_pipe E left" and "tcp_filling left c p s" and "last_trans p s = 0 \<longrightarrow> left (world s) = 0" and "left (world s) < fuel"
  shows "wp (cwhile fuel (\<lambda>_. stream_recv_more E p) (\<lambda>_. stream_recv_step E p) ())
    (\<lambda>_ s'. tcp_filling left c p s' \<and> left (world s') = 0) (\<lambda>_ _. False) s"
  by (rule wp_mono [OF tcp_filling.loop_ends]) (use assms in \<open>auto simp: tcp_filling.rounds_def\<close>)

text \<open>The connection.\<close>

definition tcp_accepted :: "('w \<Rightarrow> nat) \<Rightarrow> int \<Rightarrow> nat \<Rightarrow> ('w, 'z) tb_state_scheme \<Rightarrow> bool" where
  "tcp_accepted left c p s \<longleftrightarrow> tcp_flow left c s \<and> (\<exists>r. sess s p = Some r \<and> s_thread r = None \<and> s_addr_in r \<noteq> None)"

text \<open>All has been counted when the server reads the session it has freed.\<close>

definition tcp_counted :: "int \<Rightarrow> halt \<Rightarrow> ('w, 'z) tb_state_scheme \<Rightarrow> bool" where
  "tcp_counted c h s \<longleftrightarrow> h = Undefined Use_After_Free \<and> l_total_tx_rx (lst s) = c \<and> l_status (lst s) = TB_DISCONNECTED"

lemma tcp_accepted_steps:
  fixes E :: "('w, 'e) lenv_scheme"
  assumes pipe: "tcp_pipe E left" and acc: "tcp_accepted left c p s \<and> left (world s) < n \<and> l_bufsize (lst s) = b"
  defines "J \<equiv> \<lambda>s. tcp_accepted left c p s \<and> left (world s) < n \<and> l_bufsize (lst s) = b"
  shows "wp (l_start_transfer E) (\<lambda>_. J) R s"
    and "wp (cbind (load_session (Some p)) (\<lambda>r. cbind (cderef Null_Deref (s_addr_in r)) (\<lambda>ad. LOG_ADD E i ad))) (\<lambda>_. J) R s"
    and "wp (cbind (cmalloc E (to_size b)) (\<lambda>d. store_session (Some p) (\<lambda>r. r\<lparr>s_data := d\<rparr>))) (\<lambda>_. J) R s"
    and "wp (store_session (Some p) (\<lambda>r. r\<lparr>s_data_size := to_size b\<rparr>)) (\<lambda>_ s'. tcp_filling left c p s' \<and> left (world s') < n) R s"
proof -
  have quiet: "left w = left (world s)" if "stdio_run E (world s) (trace s) w tr" for w tr
    using stdio_run_tcp [OF that pipe] .
  have "to_size b = b" using acc by (intro to_size_id) (auto simp: tcp_accepted_def tcp_flow_def in_int_def)
  then show "wp (store_session (Some p) (\<lambda>r. r\<lparr>s_data_size := to_size b\<rparr>)) (\<lambda>_ s'. tcp_filling left c p s' \<and> left (world s') < n) R s"
    using acc by (auto simp: wp_rules tcp_accepted_def tcp_filling_def tcp_flow_def)
  show "wp (l_start_transfer E) (\<lambda>_. J) R s"
    using acc tcp_pipeD(1) [OF pipe]
    by (auto simp: J_def wp_rules l_start_transfer_def tcp_accepted_def tcp_flow_def split: prod.splits)
  show "wp (cbind (cmalloc E (to_size b)) (\<lambda>d. store_session (Some p) (\<lambda>r. r\<lparr>s_data := d\<rparr>))) (\<lambda>_. J) R s"
    using acc tcp_pipeD(2) [OF pipe]
    by (auto simp: J_def wp_rules tcp_accepted_def tcp_flow_def split: prod.splits)
  show "wp (cbind (load_session (Some p)) (\<lambda>r. cbind (cderef Null_Deref (s_addr_in r)) (\<lambda>ad. LOG_ADD E i ad))) (\<lambda>_. J) R s"
    using acc quiet
    by (auto simp: J_def wp_rules LOG_ADD_def tb_address_def tcp_accepted_def tcp_flow_def intro!: wp_LOG_ok)
qed

lemma tcp_serve_accepted:
  fixes s :: "('w, 'z) tb_state_scheme" and E :: "('w, 'e) lenv_scheme"
  assumes pipe: "tcp_pipe E left" and acc: "tcp_accepted left c p s" and fuel: "left (world s) < fuel"
    and l: "l_bufsize l = l_bufsize (lst s)" and ok: "rc \<noteq> - 1"
  shows "wp (stream_serve_accepted E fuel l p rc) Q (tcp_counted c) s"
proof -
  let ?b = "l_bufsize (lst s)"
  let ?J = "\<lambda>s. tcp_accepted left c p s \<and> left (world s) < fuel \<and> l_bufsize (lst s) = ?b"
  let ?I = "\<lambda>s. tcp_filling left c p s \<and> left (world s) < fuel"
  let ?L = "\<lambda>s. tcp_filling left c p s \<and> (last_trans p s = 0 \<longrightarrow> left (world s) = 0) \<and> left (world s) < fuel"
  let ?D = "\<lambda>s. tcp_filling left c p s \<and> left (world s) = 0"
  have J: "?J s" using acc fuel by simp
  have first: "wp (stream_recv_step E p) (\<lambda>_. ?L) (tcp_counted c) t" if "?I t" for t :: "('w, 'z) tb_state_scheme"
    by (rule wp_mono [OF tcp_recv_step_fills [OF pipe conjunct1 [OF that]]]) (use that in \<open>auto split: if_splits\<close>)
  have loop: "wp (cvoid (cwhile fuel (\<lambda>_. stream_recv_more E p) (\<lambda>_. stream_recv_step E p) ())) (\<lambda>_. ?D) (tcp_counted c) t"
    if "?L t" for t :: "('w, 'z) tb_state_scheme"
    unfolding wp_cvoid using that by (intro wp_mono [OF tcp_fill_loop [OF pipe]]) auto
  have stops: "wp (l_finish_transfer E) (\<lambda>_. ?D) R t" if "?D t" for R and t :: "('w, 'z) tb_state_scheme"
    using that tcp_pipeD(1) [OF pipe]
    by (auto simp: l_finish_transfer_def wp_rules tcp_filling_def tcp_flow_def split: prod.splits)
  have closes: "wp (cseq [trylock_stat, set_l (\<lambda>l. l\<lparr>l_status := TB_DISCONNECTED\<rparr>),
      cbind (load_session (Some p)) (\<lambda>r. cvoid (do_sys E (Posix (Close (s_sock_d r))))),
      tb_destroy_session (Some p), set_l (\<lambda>l. l\<lparr>l_curr_session := None\<rparr>),
      cbind (load_session (Some p)) (\<lambda>r. cvoid (call_close E f (s_sock_d r))), m1, m2]) Q (tcp_counted c) t"
    if "?D t" for f m1 m2 and t :: "('w, 'z) tb_state_scheme"
    using that
    by (auto simp: wp_rules trylock_stat_def tb_destroy_session_def tcp_filling_def tcp_flow_def tcp_counted_def split: prod.splits)
  show ?thesis
    unfolding stream_serve_accepted_def l
    by (rule wp_step, rule tcp_accepted_steps(1) [OF pipe J],
        rule wp_step [where I = ?J], simp add: wp_cwhen ok,
        rule wp_step, erule tcp_accepted_steps(2) [OF pipe],
        rule wp_step, erule tcp_accepted_steps(3) [OF pipe],
        rule wp_step, erule tcp_accepted_steps(4) [OF pipe],
        rule wp_step [where I = ?I], simp add: wp_rules tcp_filling_def tcp_flow_def,
        rule wp_step [where I = ?I], simp add: wp_rules tcp_filling_def tcp_flow_def,
        rule wp_step, erule first, rule wp_step, erule loop, rule wp_step, erule stops, erule closes)
qed

lemma tcp_serve_one:
  fixes s :: "('w, 'z) tb_state_scheme" and E :: "('w, 'e) lenv_scheme"
  assumes pipe: "tcp_pipe E left" and inv: "tcp_flow left c s" and fuel: "left (world s) < fuel"
  shows "wp (stream_serve_one E fuel) Q (tcp_counted c) s"
  unfolding stream_serve_one_def wp_cdo wp_cseq_Cons
proof (rule wp_LOG_ok)
  show "l_log_enabled (lst s) \<noteq> 0 \<longrightarrow> l_log_info (lst s) \<noteq> None" using inv by (simp add: tcp_flow_def)
  fix w0 tr0 assume log: "stdio_run E (world s) (trace s) w0 tr0"
  let ?c = "Posix (Accept (l_sock_d (lst s)))"
  obtain a w1 where a: "sys E ?c w0 = (a, w1)" by force
  have same: "left w1 = left (world s)" "a_rc a \<noteq> - 1"
    using stdio_run_tcp [OF log pipe] tcp_pipeD(4) [OF pipe a] by auto
  have accepted: "wp (stream_serve_accepted E fuel (lst s) (brk s) (a_rc a)) Q (tcp_counted c)
      (s\<lparr>brk := brk s + 1, world := w1, trace := (?c, a_rc a) # tr0, sess := (sess s)(brk s \<mapsto> r)\<rparr>)"
    if "s_thread r = None" "s_addr_in r \<noteq> None" for r
    by (rule tcp_serve_accepted [OF pipe]) (use that inv same fuel in \<open>simp_all add: tcp_accepted_def tcp_flow_def\<close>)
  show "wp (cseq []) (\<lambda>_. wp (cbind (tb_create_server_session E) (\<lambda>p. cbind (cget lst) (\<lambda>l.
        cbind (do_sys E (Posix (Accept (l_sock_d l)))) (\<lambda>a.
        cdo [store_session (Some p) (\<lambda>r. r\<lparr>s_sock_d := a_rc a,
               s_addr_in := (if a_rc a = - 1 then s_addr_in r else Some (a_peer a))\<rparr>)]
          (stream_serve_accepted E fuel l p (a_rc a)))))) Q (tcp_counted c))
      (tcp_counted c) (s\<lparr>world := w0, trace := tr0\<rparr>)"
    using a same(2) accepted by (simp add: wp_rules tb_create_server_session_def)
qed

lemma wp_tb_stream_server_all:
  fixes s :: "('w, 'z) tb_state_scheme" and E :: "('w, 'e) lenv_scheme"
  assumes pipe: "tcp_pipe E left" and inv: "tcp_flow left c s" and fuel: "left (world s) < fuel" and conns: "0 < conns"
  shows "wp (tb_stream_server E conns fuel) (\<lambda>_ _. False) (tcp_counted c) s"
proof -
  let ?I = "\<lambda>s. tcp_flow left c s \<and> left (world s) < fuel"
  obtain k where k: "conns = Suc k" using conns by (cases conns) auto
  have listens: "wp (cvoid (tb_listen E)) (\<lambda>_. ?I) R s" for R
    using inv fuel tcp_pipeD(3) [OF pipe]
    by (auto simp: tb_listen_def wp_rules tcp_flow_def tcp_server_table_def split: prod.splits)
  have loop: "wp (cvoid (cwhile conns (\<lambda>_. cbind (read_command E) (\<lambda>c. cret (\<not> leaves_loop c))) (\<lambda>_. stream_serve_one E fuel) ()))
      (\<lambda>_ _. False) (tcp_counted c) t" if "?I t" for t :: "('w, 'z) tb_state_scheme"
    unfolding wp_cvoid k
    by (subst cwhile.simps)
      (use that in \<open>auto simp: wp_rules intro!: wp_mono [OF tcp_stays [OF pipe]] tcp_serve_one [OF pipe]\<close>)
  show ?thesis
    unfolding tb_stream_server_def wp_cdo
    by (rule wp_step, rule listens, rule wp_step [where I = ?I], simp add: wp_rules tcp_flow_def,
        rule wp_step, erule loop, simp)
qed


section \<open>Properties\<close>

text \<open>C6: a file sent by a stream client arrives. The client is run on its machine, on a kernel that
  takes at least one byte with each send; then the server is run on its own, with the bytes the
  client's kernel took on their way to it. When the client has returned, the server counts all
  of the file, without any abort, closes the connection and is disconnected; then it closes the
  connection a second time, through the session it has just freed, and so does not return what
  it has counted.\<close>

theorem stream_file_arrives:
  assumes "send_contract E" and "client_ready fd data s" and "l_total_tx_rx (lst s) = 0" and "sent_on fd (trace s) = []"
    and "length data \<le> fuel" and "tb_stream_client E fuel s = Ok rc s'"
    and "tcp_pipe E2 left" and "left (world t) = length (sent_on fd (trace s'))" and "tcp_flow left (int (left (world t))) t"
    and "length data < fuel2" and "0 < conns"
  shows "\<exists>t'. tb_stream_server E2 conns fuel2 t = Halt (Undefined Use_After_Free) t' \<and>
    l_total_tx_rx (lst t') = l_file_size (lst s) \<and> l_status (lst t') = TB_DISCONNECTED"
proof -
  have "sent_on fd (trace s') = data" using wp_tb_stream_client [OF assms(1-5)] assms(6) by (simp add: wp_def)
  then have len: "left (world t) = length data" using assms(8) by simp
  have "wp (tb_stream_server E2 conns fuel2) (\<lambda>_ _. False) (tcp_counted (int (length data))) t"
    using wp_tb_stream_server_all [OF assms(7,9) _ assms(11), of fuel2] assms(10) len by simp
  then show ?thesis using assms(2) by (auto simp: wp_def tcp_counted_def client_ready_def split: result.splits)
qed

end
