(* ===== verification/TB_Demo_Transfer.thy ===== *)
theory TB_Demo_Transfer
  imports TB_Demo_Datagram TB_Udp_Transfer TB_Stream_Transfer
begin

text \<open>
  The composed transfers over TCP and UDP at concrete inputs: the seven bytes of the client, sent
  two at a time, and the server on a second machine that has them on their way to it.
\<close>

section \<open>TCP\<close>

text \<open>The world is the number of bytes on their way.\<close>

fun tcp_pipe_sys :: "syscall \<Rightarrow> nat \<Rightarrow> answer \<times> nat" where
  "tcp_pipe_sys (Posix (Recv fd n)) w = (demo_answer\<lparr>a_rc := int (min w (nat n))\<rparr>, w - nat n)"
| "tcp_pipe_sys c w = (demo_answer, w)"

definition tcp_pipe_env :: "nat lenv" where
  "tcp_pipe_env = demo_env\<lparr>sys := tcp_pipe_sys\<rparr>"

lemma demo_tcp_pipe: "tcp_pipe tcp_pipe_env (\<lambda>w. w)"
  by (auto simp: tcp_pipe_def tcp_pipe_env_def demo_env_def demo_answer_def split: syscall.splits posix.splits)

theorem stream_file_arrives_witness:
  "\<exists>t'. tb_stream_server tcp_pipe_env 1 8 (demo_state\<lparr>world := 7\<rparr>) = Halt (Undefined Use_After_Free) t' \<and> l_total_tx_rx (lst t') = 7"
proof -
  have ready: "client_ready 3 demo_data demo_state" "l_total_tx_rx (lst demo_state) = 0" "sent_on 3 (trace demo_state) = []"
      "length demo_data \<le> 7"
    by (simp_all add: client_ready_def tcp_table_def demo_defs in_int_def)
  have "returns (tb_stream_client demo_env 7 demo_state) = Some 7" by code_simp
  then obtain s' where run: "tb_stream_client demo_env 7 demo_state = Ok 7 s'"
    by (cases "tb_stream_client demo_env 7 demo_state") auto
  have "sent_on 3 (trace s') = demo_data" using wp_tb_stream_client [OF demo_send_contract ready] run by (simp add: wp_def)
  then show ?thesis
    using stream_file_arrives [OF demo_send_contract ready run demo_tcp_pipe, of "demo_state\<lparr>world := 7\<rparr>" 8 1]
    by (auto simp: tcp_flow_def tcp_server_table_def demo_defs in_int_def)
qed


section \<open>UDP\<close>

fun udp_client_sys :: "syscall \<Rightarrow> nat \<Rightarrow> answer \<times> nat" where
  "udp_client_sys (Posix (Send fd bs)) w = (demo_answer\<lparr>a_rc := int (length bs)\<rparr>, w)"
| "udp_client_sys (Posix (Getsockopt fd k)) w = (demo_answer\<lparr>a_val := 100\<rparr>, w)"
| "udp_client_sys (Posix (Epoll_wait e n t)) w =
     (if 0 < n then demo_answer\<lparr>a_rc := 1, a_events := [EPOLLIN]\<rparr> else demo_answer, w)"
| "udp_client_sys c w = (demo_answer, w)"

definition udp_client_env :: "nat lenv" where
  "udp_client_env = demo_env\<lparr>sys := udp_client_sys\<rparr>"

lemma readable_in [simp]: "readable EPOLLIN"
  by code_simp

lemma demo_udp_kernel: "udp_kernel udp_client_env 2 100 (\<lambda>_. 0) 0 (\<lambda>_. 0)"
  by (auto simp: udp_kernel_def udp_client_env_def demo_env_def demo_answer_def split: syscall.splits posix.splits sockopt.splits)

text \<open>The client's run, in two parts: up to the epoll instance for the answer, and from there.\<close>

definition udp_connected :: "nat tb_state" where
  "udp_connected = demo_state\<lparr>trace := [(Posix (Epoll_add 0 3), 0), (Posix (Fcntl_setfl 3 O_NONBLOCK), 0), (Posix (Fcntl_getfl 3), 0),
     (Posix Epoll_create, 0), (Posix (Clock_gettime CLOCK_MONOTONIC), 0), (Posix (Connect 3 demo_addr), 0), (Posix (Clock_gettime CLOCK_MONOTONIC), 0)],
     lst := demo_listener\<lparr>l_status := TB_CONNECTED, l_connect_time := demo_time\<lparr>t_started := 1, t_stopped := 1\<rparr>,
       l_epoll := Some (demo_epoll\<lparr>ep_e_id := 0, ep_w_time := 50, ep_max_events := 5, ep_grp_events := event_defaults,
         ep_events := [0, 0, 0, 0, 0], ep_f_event := Some Fn_tb_udp_ack\<rparr>)\<rparr>\<rparr>"

lemma replicate_five: "replicate 5 x = [x, x, x, x, x]"
  by (simp add: numeral_eq_Suc)

lemma udp_client_connects:
  "wp (cseq [l_start_connect udp_client_env, cvoid (tb_connect udp_client_env), l_finish_connect udp_client_env,
      set_l (\<lambda>l. l\<lparr>l_status := TB_CONNECTED\<rparr>), udp_ack_epoll udp_client_env]) (\<lambda>_ s. s = udp_connected) (\<lambda>_ _. False) demo_state"
  by (simp add: wp_rules l_start_connect_def tb_connect_def l_finish_connect_def udp_ack_epoll_def tb_create_e_poll_def
      tb_add_socket_def Let_def udp_client_env_def demo_defs udp_connected_def demo_answer_def demo_info_def demo_epoll_def
      replicate_five)

lemma udp_connected_run:
  "(case cdo [cbind (cget lst) (\<lambda>l. cbind (do_sys udp_client_env (Posix (Getsockopt (l_sock_d l) SO_SNDBUF))) (\<lambda>b.
            cseq [cwhen (a_rc b = - 1)
                    (cseq [log_l_errno udp_client_env ''Error: tb_upload_random_udp: getsockopt'' (a_errno b), tb_abort udp_client_env]),
                  l_start_transfer udp_client_env,
                  cvoid (cwhile 7 (\<lambda>_. cget (\<lambda>s. l_total_tx_rx (lst s) < l_file_size (lst s)))
                    (udp_client_body udp_client_env (a_val b)) (l_bufsize l))])),
          l_finish_transfer udp_client_env, log_l_info udp_client_env ''Waiting for ack'',
          cvoid (cwhile 1 (udp_eof_more udp_client_env) (udp_eof_turn udp_client_env) False),
          trylock_stat, log_l_info udp_client_env ''Closing Connection'',
          cbind (cget lst) (\<lambda>l. cvoid (call_close udp_client_env (f_close (l_protocol l)) (l_sock_d l))),
          set_l (\<lambda>l. l\<lparr>l_sock_d := - 1, l_status := TB_DISCONNECTED\<rparr>), unlock_stat]
       (cget (\<lambda>s. to_int (l_total_tx_rx (lst s)))) udp_connected of Ok x s \<Rightarrow> Some (x, grams_on 3 (trace s)) | Halt h s \<Rightarrow> None)
    = Some (7, [[1, 2], [3, 4], [5, 6], [7], []])"
  by code_simp

lemma wp_cseq_split: "wp (cseq ms) Q R s = wp (cseq (take n ms)) (\<lambda>_. wp (cseq (drop n ms)) Q R) R s"
proof (induction ms arbitrary: n s)
  case (Cons m ms)
  show ?case
  proof (cases n)
    case (Suc k)
    have "wp (cseq ms) Q R = wp (cseq (take k ms)) (\<lambda>_. wp (cseq (drop k ms)) Q R) R" using Cons.IH [of _ k] by (simp add: fun_eq_iff)
    then show ?thesis unfolding Suc take_Suc_Cons drop_Suc_Cons wp_cseq_Cons by simp
  qed (simp add: wp_cseq_Nil)
qed (simp add: wp_cseq_Nil)

lemma udp_client_run:
  "\<exists>s'. tb_udp_client udp_client_env 7 1 demo_state = Ok 7 s' \<and> grams_on 3 (trace s') = [[1, 2], [3, 4], [5, 6], [7], []]"
proof -
  have "wp (tb_udp_client udp_client_env 7 1) (\<lambda>rc s'. rc = 7 \<and> grams_on 3 (trace s') = [[1, 2], [3, 4], [5, 6], [7], []])
      (\<lambda>_ _. False) demo_state"
    unfolding tb_udp_client_def wp_cdo
    apply (subst wp_cseq_split [where n = "Suc (Suc (Suc (Suc (Suc 0))))"])
    apply (simp only: take_Suc_Cons take_0 drop_Suc_Cons drop_0)
    apply (rule wp_mono [OF udp_client_connects])
    using udp_connected_run
    apply (simp_all only: wp_cdo [symmetric])
    apply (auto simp: wp_def split: result.splits)
    done
  then show ?thesis by (simp add: wp_returns)
qed

theorem udp_client_sends_file_witness:
  "\<exists>s'. tb_udp_client udp_client_env 7 1 demo_state = Ok 7 s' \<and> sent_on 3 (trace s') = [1, 2, 3, 4, 5, 6, 7] \<and>
     l_status (lst s') = TB_DISCONNECTED"
proof -
  obtain s' where run: "tb_udp_client udp_client_env 7 1 demo_state = Ok 7 s'"
    using udp_client_run by auto
  have "udp_kernel udp_client_env (l_bufsize (lst demo_state)) 100 (\<lambda>_. 0) 0 (\<lambda>_. 0)" "in_int 100" "udp_ready 3 demo_data demo_state"
      "l_total_tx_rx (lst demo_state) = 0" "sent_on 3 (trace demo_state) = []" "grams_on 3 (trace demo_state) = []"
      "length demo_data * (0 + 1) + 0 \<le> 7" "(\<lambda>_. 0) (world demo_state) < (1 :: nat)"
    using demo_udp_kernel by (simp_all add: udp_ready_def demo_defs in_int_def)
  from udp_client_sends_file [OF this] run show ?thesis by (auto simp: demo_data_def)
qed

text \<open>The server's side. The world is the number of datagrams received.\<close>

definition demo_grams :: "byte list list" where
  "demo_grams = [[1, 2], [3, 4], [5, 6], [7], []]"

fun udp_net_sys :: "syscall \<Rightarrow> nat \<Rightarrow> answer \<times> nat" where
  "udp_net_sys (Posix (Recvfrom fd n)) w =
     (let d = take (nat n) (first_gram (drop w demo_grams)) in (demo_answer\<lparr>a_rc := int (length d), a_bytes := d\<rparr>, Suc w))"
| "udp_net_sys (Posix (Sendto fd bs ad)) w = (demo_answer\<lparr>a_rc := int (length bs)\<rparr>, w)"
| "udp_net_sys (Stdio (Malloc n)) w = (demo_answer\<lparr>a_rc := 1\<rparr>, w)"
| "udp_net_sys c w = (demo_answer, w)"

definition udp_net_env :: "nat lenv" where
  "udp_net_env = demo_env\<lparr>sys := udp_net_sys\<rparr>"

lemma demo_udp_net: "udp_net udp_net_env (\<lambda>w. drop w demo_grams)"
  by (auto simp: udp_net_def udp_net_env_def demo_env_def demo_answer_def Let_def drop_Suc tl_drop
      split: syscall.splits posix.splits stdio.splits)

definition udp_receiver :: "nat tb_state" where
  "udp_receiver = demo_state\<lparr>lst := demo_listener\<lparr>l_bufsize := 4, l_e_type := SERVER, l_protocol := demo_protocol\<lparr>p_protocol := UDP,
     f_recfrom := Some Fn_recvfrom, f_sendto := Some Fn_sendto\<rparr>\<rparr>\<rparr>"


end
