(* ===== verification/Spec2Isabelle.thy ===== *)
theory Spec2Isabelle
  imports TB_Testbed TB_Demo_Handshake TB_Demo_Transfer
begin

text \<open>
  TestBed measures transport protocols: it runs one end of a transfer over TCP, UDP, UDT, uTP or
  DCCP and reports how fast it was. This development models the C program under \<open>src/src/\<close>
  function by function and proves what the functions do.

  \<^bold>\<open>The program.\<close> The command line (\<open>tb_testbed.c\<close>) is turned into a listener
  (\<open>tb_listener.c\<close>), the context of a test, which holds a table of the functions of its protocol
  (\<open>tb_protocol.c\<close>). \<open>tb_start\<close> runs one thread for the transfer (\<open>tb_endpoint.c\<close>); it makes the
  test data (\<open>tb_common.c\<close>), calls the client or server of the protocol (\<open>tb_stream.c\<close> for TCP and
  DCCP, \<open>tb_udt.c\<close>, \<open>tb_udp.c\<close>, \<open>tb_utp.c\<close>) and leaves through \<open>tb_exit\<close> or \<open>tb_abort\<close>. An endpoint of
  several connections has a linked list of sessions (\<open>tb_session.c\<close>), a thread for each or an
  epoll instance that calls back (\<open>tb_epoll.c\<close>). Meanwhile the main thread collects statistics
  ten times a second, and threads outside may read them.

  \<^bold>\<open>How a C function is modelled.\<close> A function is a \<open>prog\<close>: it maps a state to a value and a state,
  or to a halt, which says how the thread ended (by \<open>pthread_exit\<close>, with the process, in a wait
  for ever, by a failed assertion, or in undefined behaviour, with its kind). A null or freed
  pointer, a signed overflow and a buffer that is too small are such halts, so a theorem that a
  function returns also says that it does none of these. \<open>int\<close> is kept in its 32 bits: \<open>cint\<close>
  guards sums, \<open>to_int\<close> is the conversion. Heap blocks that are shared or linked (sessions, their
  statistics, the structures of uTP) are in stores from addresses to records; the listener is a
  record. The kernel, the C library, libudt and libutp are not in the repository: calls to them
  are values of the datatype \<open>syscall\<close>, the environment \<open>E\<close> answers them from a state of its own,
  and every call is put on a trace. What a theorem needs to know about them is a named hypothesis
  over \<open>E\<close> (\<open>send_contract\<close>, \<open>peer_ends\<close>, \<open>udp_kernel\<close>, \<open>udp_net\<close>, \<open>tcp_pipe\<close>, \<open>udt_pipe\<close> and others).

  \<^bold>\<open>The theories, in the order of the code.\<close>
  \<^item> \<open>TB_Prelude\<close>: integers, \<open>prog\<close>, sequencing, the loop \<open>cwhile\<close>, and the weakest preconditions
    \<open>wp\<close> with the collection \<open>wp_rules\<close> that carries the proofs. \<open>TB_Machine\<close>: calls, answers, \<open>do_sys\<close>.
    \<open>TB_Try_Lock\<close>: interleaved runs and the locale \<open>try_lock\<close> for threads that share a lock.
  \<^item> \<open>TB_Common\<close> (\<open>tb_common.c\<close>): timers, addresses, test data. \<open>TB_Logging\<close> (\<open>tb_logging.c\<close>): the log
    and its fixed buffers; \<open>TB_Log_Test\<close> (\<open>log_test.c\<close>): the program that tests it. \<open>TB_Protocol\<close> (\<open>tb_protocol.c\<close>): the table of functions, the errors a
    protocol tolerates, the statistics per protocol. \<open>TB_Sock_Opt\<close> (\<open>tb_sock_opt.c\<close>): options.
  \<^item> \<open>TB_Session\<close> (\<open>tb_session.c\<close>): creation, the two linked lists with their invariant, search,
    the counter of active connections. \<open>TB_Counter\<close>: the same counter statement by statement
    under any interleaving of threads. \<open>TB_Epoll\<close> (\<open>tb_epoll.c\<close>): creation, polling, dispatch.
  \<^item> \<open>TB_Listener\<close> and \<open>TB_Net\<close> (\<open>tb_listener.c\<close>): life, abort, statistics, and the calls that go
    through the protocol's table.
  \<^item> \<open>TB_Stream\<close> (\<open>tb_stream.c\<close>): clients and servers of one and several connections. \<open>TB_Transfer\<close>:
    the locales \<open>transfer_loop\<close> for the loops that send a block piece by piece and \<open>receive_loop\<close> for
    those that receive until the connection ends.
    \<open>TB_Stream_Client\<close>, \<open>TB_Stream_Server\<close>, \<open>TB_Stream_Sessions\<close>, \<open>TB_Stream_M_Server\<close>: their proofs.
    \<open>TB_Stream_Transfer\<close>: a client and a server composed.
  \<^item> \<open>TB_Testbed\<close> (\<open>tb_testbed.c\<close>): command line, start, monitor. \<open>TB_Start\<close> and \<open>TB_Stats\<close>: creation,
    parsing, the monitor's accounts, abort and the statistics as one thread sees them.
    \<open>TB_Handshake\<close>: collector, monitor, transfer and readers of the statistics statement by
    statement, with the lock and the condition variable.
  \<^item> \<open>TB_Udt\<close> (\<open>tb_udt.c\<close>) with \<open>TB_Udt_Client\<close>, \<open>TB_Udt_Server\<close> and \<open>TB_Udt_Transfer\<close>, a client and a
    server composed; \<open>TB_Udp\<close> (\<open>tb_udp.c\<close>) with \<open>TB_Udp_Single\<close> (the client of one connection),
    \<open>TB_Udp_Transfer\<close> (that client and the server composed), \<open>TB_Udp_Client\<close> and \<open>TB_Udp_Server\<close> (several); \<open>TB_Utp\<close>
    (\<open>tb_utp.c\<close>) with \<open>TB_Utp_Proofs\<close>; \<open>TB_Endpoint\<close> (\<open>tb_endpoint.c\<close>) with \<open>TB_Endpoint_Proofs\<close>.
  \<^item> \<open>TB_Demo\<close>, \<open>TB_Demo_Handshake\<close>, \<open>TB_Demo_Datagram\<close>, \<open>TB_Demo_Transfer\<close>: a small outside world at which the
    hypotheses of the properties hold, and the properties at concrete inputs.

  \<^bold>\<open>Interfaces.\<close> \<open>transfer_loop\<close> asks of a loop that its body sends a next piece or records a failure
  and that its condition stops at the end; it gives that the loop ends with all data sent or a
  failure. It is interpreted for the loops of the stream client, the UDT client and the threads
  of their sessions. \<open>receive_loop\<close> asks of a loop that its condition does not go on once the end of the
  connection is seen and that a step that does not see it brings something; it gives that the
  loop ends, because it is over or the user has ended the test. It is interpreted for the loops
  of the stream server, the sessions of a stream server, the UDT server and the UDP server.
  \<open>try_lock\<close> asks that a step takes the lock, gives it back or leaves it alone;
  it gives mutual exclusion in runs in which every try succeeds. It is interpreted for the
  counter of connections and for the threads around the statistics.

  \<^bold>\<open>What is proved.\<close> The clients send exactly their data in order, or a beginning of it and then the
  thread ends by an abort or returns -1; servers end, count what their receives brought, and a
  file sent over TCP, UDT or UDP arrives whole (over UDP if the network loses and reorders
  nothing, and the server's answer is what ends the client's wait); the last session of a stream server tells it to end exactly if none
  failed. Events of the UDP server refine a map of accounts per session number; the list of
  sessions refines a list; a poll refines running the callback over the readable prefix. The
  monitor's totals, rates and peak are those of the readings. Readers of the statistics see whole
  collections, in order and none twice, and are not left waiting, as long as every try of the lock
  succeeds. Error paths end as the code has them: abort, creation of sessions and epoll
  instances, bad command lines. The proofs also show where the code does not do what it means
  to: locks taken with a try whose result is ignored, rates a reader can see half made, the
  same lock taken twice, a file size read from \<open>fseek\<close>, the remainder of a file that no
  connection sends, a tolerated error counted as -1 bytes, and others.

  \<^bold>\<open>Fuel.\<close> \<open>cwhile\<close> takes the number of iterations it may make and halts with \<open>Out_Of_Fuel\<close> beyond
  it; each loop of the code is given its own. Sending loops are given the length of the data,
  since each round sends at least a byte; receiving loops a bound on what the peer still sends
  (the measure in \<open>peer_ends\<close>, the bytes or datagrams on their way in \<open>tcp_pipe\<close>, \<open>udt_pipe\<close> and
  \<open>udp_net\<close>); the UDP client how often it may look for room or for the answer (\<open>udp_kernel\<close>); list walks the length of the list; polls the number
  of events. The theorems state these bounds and conclude that the loop ends; where a
  function is shown never to return, it is shown for every fuel.

  \<^bold>\<open>Threads.\<close> A thread is modelled by itself; what the others do while it waits is the parameter
  \<open>others\<close>, which may be any program on the state, and the signal handler may set the command
  wherever it is read. The two places where threads share more than that, the counter of
  connections and the statistics of an endpoint of one connection, have step relations of their
  own, whose statements one after the other are the sequential functions.

  \<^bold>\<open>Not modelled.\<close> Functions that only print (\<open>tb_print_listener\<close>, \<open>tb_print_stats\<close>,
  \<open>tb_print_protocol\<close>, \<open>tb_print_address\<close>) and the text other functions print; \<open>tb_destroy_time\<close>,
  \<open>tb_destroy_stats\<close>, \<open>tb_create_udp_session\<close> and \<open>tb_destroy_udp_session\<close>, which allocate or free one
  block; \<open>main\<close> and \<open>test\<close>, which call \<open>tb_parse\<close>. A \<open>malloc\<close> of a structure succeeds, that of
  data may fail. Sums of \<open>long long\<close> are not guarded. The headers under \<open>src/includes/\<close> declare the two libraries. The small
  programs under \<open>affinity_test\<close> and \<open>perf_tests\<close> try out library calls and are not part of TestBed.
\<close>

end
